(* ===== verification/Prelude.thy ===== *)
theory Prelude
  imports Complex_Main "HOL-Library.AList" "HOL-Library.Char_ord" "HOL-Library.List_Lexorder"
    "HOL-Library.Sublist"
begin

text \<open>
  The vocabulary every component shares: Python's exceptions as a datatype, the
  sequencing of fallible computations, insertion-ordered dictionaries and sets as lists, the
  collections of rewrite rules, and the interface of a table with its instance for dictionaries.
\<close>

named_theorems dict_simps \<open>reading, writing and deleting in insertion-ordered dictionaries\<close>
named_theorems pyset_simps \<open>membership after the operations of Python sets\<close>
named_theorems str_simps \<open>Python string methods\<close>

section \<open>Exceptions and fallible computations\<close>

datatype exn =
    TypeErr
  | AttributeErr
  | KeyErr
  | ValueErr
  | FrameErr
  | ConnectionErr
  | FileNotFoundErr
  | RuntimeErr
  | TimeoutErr
  | IncompleteReadErr
  | OverflowErr

definition bindE :: "'e + 'a \<Rightarrow> ('a \<Rightarrow> 'e + 'b) \<Rightarrow> 'e + 'b" where
  "bindE r f = (case r of Inl e \<Rightarrow> Inl e | Inr x \<Rightarrow> f x)"

lemma bindE_simps [simp]:
  "bindE (Inl e) f = Inl e"
  "bindE (Inr x) f = f x"
  by (simp_all add: bindE_def)

lemma bindE_assoc: "bindE (bindE r f) g = bindE r (\<lambda>x. bindE (f x) g)"
  by (cases r) auto

lemma bindE_Inr_iff: "bindE r f = Inr y \<longleftrightarrow> (\<exists>x. r = Inr x \<and> f x = Inr y)"
  by (cases r) auto

lemma bindE_Inl_iff: "bindE r f = Inl e \<longleftrightarrow> (r = Inl e \<or> (\<exists>x. r = Inr x \<and> f x = Inl e))"
  by (cases r) auto

primrec mapE :: "('a \<Rightarrow> 'e + 'b) \<Rightarrow> 'a list \<Rightarrow> 'e + 'b list" where
  "mapE f [] = Inr []"
| "mapE f (x # xs) = bindE (f x) (\<lambda>y. bindE (mapE f xs) (\<lambda>ys. Inr (y # ys)))"

lemma mapE_Inr: "(\<And>x. x \<in> set xs \<Longrightarrow> f x = Inr (g x)) \<Longrightarrow> mapE f xs = Inr (map g xs)"
  by (induction xs) auto

lemma mapE_length: "mapE f xs = Inr ys \<Longrightarrow> length ys = length xs"
  by (induction xs arbitrary: ys) (auto simp: bindE_Inr_iff)

lemma find_SomeD: "find P xs = Some x \<Longrightarrow> x \<in> set xs \<and> P x"
  by (induction xs) (auto split: if_splits)

section \<open>Insertion-ordered dictionaries\<close>

text \<open>
  A Python dictionary is an association list in insertion order: an update keeps the
  position of an existing key, a new key goes to the end, and \<open>pop\<close> removes the entry.
\<close>

abbreviation dset :: "'k \<Rightarrow> 'v \<Rightarrow> ('k \<times> 'v) list \<Rightarrow> ('k \<times> 'v) list" where
  "dset \<equiv> AList.update"

abbreviation dpop :: "'k \<Rightarrow> ('k \<times> 'v) list \<Rightarrow> ('k \<times> 'v) list" where
  "dpop \<equiv> AList.delete"

abbreviation dkeys :: "('k \<times> 'v) list \<Rightarrow> 'k list" where
  "dkeys d \<equiv> map fst d"

definition dget :: "('k \<times> 'v) list \<Rightarrow> 'k \<Rightarrow> 'v \<Rightarrow> 'v" where
  "dget d k v = (case map_of d k of None \<Rightarrow> v | Some x \<Rightarrow> x)"

lemma map_of_dset [dict_simps, simp]: "map_of (dset k v d) = (map_of d)(k \<mapsto> v)"
  by (rule update_conv')

lemma map_of_dpop [dict_simps, simp]: "map_of (dpop k d) = (map_of d)(k := None)"
  by (rule delete_conv')

lemma set_dkeys_dset [dict_simps, simp]: "fst ` set (dset k v d) = insert k (fst ` set d)"
  by (induction d) auto

lemma set_dkeys_dpop [dict_simps, simp]: "fst ` set (dpop k d) = fst ` set d - {k}"
  by (auto simp: AList.delete_eq)

lemma distinct_dset [dict_simps, simp]: "distinct (dkeys d) \<Longrightarrow> distinct (dkeys (dset k v d))"
  by (rule distinct_update)

lemma distinct_dpop [dict_simps, simp]: "distinct (dkeys d) \<Longrightarrow> distinct (dkeys (dpop k d))"
  by (rule distinct_delete)

lemma dget_dset [dict_simps, simp]: "dget (dset k v d) k' w = (if k' = k then v else dget d k' w)"
  by (simp add: dget_def)

lemma dget_dpop [dict_simps, simp]: "dget (dpop k d) k' w = (if k' = k then w else dget d k' w)"
  by (simp add: dget_def)

lemma dget_Nil [dict_simps, simp]: "dget [] k w = w"
  by (simp add: dget_def)

lemma dset_new [dict_simps]: "k \<notin> fst ` set d \<Longrightarrow> dset k v d = d @ [(k, v)]"
  by (induction d) auto

lemma map_of_eq_iff_mem: "distinct (dkeys d) \<Longrightarrow> map_of d k = Some v \<longleftrightarrow> (k, v) \<in> set d"
  by simp

lemma length_dset_le: "length (dset k v d) \<le> Suc (length d)"
  by (induction d) auto

text \<open>Building a dictionary from key-value pairs: the last value of a key wins.\<close>

definition dict_of_pairs :: "('k \<times> 'v) list \<Rightarrow> ('k \<times> 'v) list" where
  "dict_of_pairs ps = foldl (\<lambda>d (k, v). dset k v d) [] ps"

lemma foldl_dset_append:
  "distinct (map fst (d @ ps)) \<Longrightarrow> foldl (\<lambda>d (k, v). dset k v d) d ps = d @ ps"
proof (induction ps arbitrary: d)
  case Nil
  then show ?case by simp
next
  case (Cons p ps)
  obtain k v where p: "p = (k, v)" by fastforce
  have "dset k v d = d @ [(k, v)]"
    using Cons.prems p by (intro dset_new) auto
  moreover have "distinct (map fst ((d @ [(k, v)]) @ ps))"
    using Cons.prems p by auto
  ultimately show ?case
    using Cons.IH [of "d @ [(k, v)]"] p by simp
qed

lemma dict_of_pairs_id: "distinct (dkeys ps) \<Longrightarrow> dict_of_pairs ps = ps"
  using foldl_dset_append [of "[]" ps] by (simp add: dict_of_pairs_def)

lemma distinct_dict_of_pairs: "distinct (dkeys (dict_of_pairs ps))"
proof -
  have "distinct (dkeys d) \<Longrightarrow> distinct (dkeys (foldl (\<lambda>d (k, v). dset k v d) d ps))" for d
    by (induction ps arbitrary: d) (auto simp: split_beta)
  then show ?thesis by (simp add: dict_of_pairs_def)
qed

text \<open>
  The interface a component uses when it keeps a table: reading after writing and after
  deleting, and the keys that are present.
\<close>

locale table =
  fixes get :: "'t \<Rightarrow> 'k \<Rightarrow> 'v option"
    and put :: "'k \<Rightarrow> 'v \<Rightarrow> 't \<Rightarrow> 't"
    and del :: "'k \<Rightarrow> 't \<Rightarrow> 't"
    and keys :: "'t \<Rightarrow> 'k list"
  assumes get_put: "get (put k v t) k' = (if k' = k then Some v else get t k')"
    and get_del: "get (del k t) k' = (if k' = k then None else get t k')"
    and keys_get: "k \<in> set (keys t) \<longleftrightarrow> get t k \<noteq> None"
begin

lemma keys_put: "set (keys (put k v t)) = insert k (set (keys t))"
  by (auto simp: keys_get get_put split: if_splits)

lemma keys_del: "set (keys (del k t)) = set (keys t) - {k}"
  by (auto simp: keys_get get_del split: if_splits)

lemma put_overwrites: "get (put k v (put k w t)) k' = get (put k v t) k'"
  by (simp add: get_put)

lemma del_put: "get t k = None \<Longrightarrow> get (del k (put k v t)) k' = get t k'"
  by (simp add: get_put get_del)

end

interpretation dict: table map_of dset dpop dkeys
  by unfold_locales (auto simp: map_of_eq_None_iff weak_map_of_SomeI dest: map_of_SomeD)

section \<open>Python sets\<close>

text \<open>
  A set is the list of its elements, without repetition, in the order they were added.
  The order in which Python iterates over a set is not specified, so an operation that
  iterates takes the order as an argument, a function that permutes this list.
\<close>

definition set_add :: "'a \<Rightarrow> 'a list \<Rightarrow> 'a list" where
  "set_add x xs = (if x \<in> set xs then xs else xs @ [x])"

definition set_discard :: "'a \<Rightarrow> 'a list \<Rightarrow> 'a list" where
  "set_discard x xs = removeAll x xs"

definition set_of :: "'a list \<Rightarrow> 'a list" where
  "set_of xs = foldl (\<lambda>s x. set_add x s) [] xs"

lemma set_set_add [pyset_simps, simp]: "set (set_add x xs) = insert x (set xs)"
  by (auto simp: set_add_def)

lemma distinct_set_add [pyset_simps, simp]: "distinct xs \<Longrightarrow> distinct (set_add x xs)"
  by (simp add: set_add_def)

lemma set_set_discard [pyset_simps, simp]: "set (set_discard x xs) = set xs - {x}"
  by (simp add: set_discard_def)

lemma distinct_set_discard [pyset_simps, simp]: "distinct xs \<Longrightarrow> distinct (set_discard x xs)"
  by (simp add: set_discard_def distinct_removeAll)

lemma set_foldl_set_add: "set (foldl (\<lambda>s x. set_add x s) s xs) = set s \<union> set xs"
  by (induction xs arbitrary: s) auto

lemma distinct_foldl_set_add: "distinct s \<Longrightarrow> distinct (foldl (\<lambda>s x. set_add x s) s xs)"
  by (induction xs arbitrary: s) auto

lemma set_set_of [pyset_simps, simp]: "set (set_of xs) = set xs"
  by (simp add: set_of_def set_foldl_set_add)

lemma distinct_set_of [pyset_simps, simp]: "distinct (set_of xs)"
  by (simp add: set_of_def distinct_foldl_set_add)

lemma set_of_Nil [simp]: "set_of [] = []"
  by (simp add: set_of_def)

lemma foldl_set_add_id:
  "distinct (s @ xs) \<Longrightarrow> foldl (\<lambda>s x. set_add x s) s xs = s @ xs"
proof (induction xs arbitrary: s)
  case Nil
  then show ?case by simp
next
  case (Cons x xs)
  then have "set_add x s = s @ [x]" by (simp add: set_add_def)
  with Cons show ?case by simp
qed

lemma set_of_id [simp]: "distinct xs \<Longrightarrow> set_of xs = xs"
  using foldl_set_add_id [of "[]" xs] by (simp add: set_of_def)

definition order_ok :: "('a list \<Rightarrow> 'a list) \<Rightarrow> bool" where
  "order_ok ord \<longleftrightarrow> (\<forall>xs. set (ord xs) = set xs \<and> length (ord xs) = length xs)"

lemma order_ok_set [simp]: "order_ok ord \<Longrightarrow> set (ord xs) = set xs"
  by (simp add: order_ok_def)

lemma order_ok_Nil [simp]: "order_ok ord \<Longrightarrow> ord xs = [] \<longleftrightarrow> xs = []"
  by (metis length_0_conv order_ok_def)

lemma order_ok_id [simp]: "order_ok (\<lambda>xs. xs)"
  by (simp add: order_ok_def)

end
