(* ===== verification/Pystr.thy ===== *)
theory Pystr
  imports Prelude
begin

text \<open>
  The string methods of Python that Elo calls. A \<open>str\<close> is a list of code points, here
  those up to U+00FF (one HOL character each); text outside this range is outside the
  model. Decimal numerals (\<open>str(n)\<close>, \<open>int(s)\<close>, \<open>isdigit\<close>) are here too, with
  the round trip between a number and its numeral.
\<close>

section \<open>Searching and splitting\<close>

definition starts_with :: "string \<Rightarrow> string \<Rightarrow> bool" where
  "starts_with s p \<longleftrightarrow> take (length p) s = p"

definition ends_with :: "string \<Rightarrow> string \<Rightarrow> bool" where
  "ends_with s p \<longleftrightarrow> length p \<le> length s \<and> drop (length s - length p) s = p"

fun substring :: "string \<Rightarrow> string \<Rightarrow> bool" where
  "substring p [] \<longleftrightarrow> p = []"
| "substring p (c # s) \<longleftrightarrow> starts_with (c # s) p \<or> substring p s"

text \<open>\<open>s.split(c)[0]\<close>: what comes before the first separator.\<close>

definition first_field :: "char \<Rightarrow> string \<Rightarrow> string" where
  "first_field c s = takeWhile (\<lambda>x. x \<noteq> c) s"

text \<open>\<open>s.partition(c)[2]\<close>: what comes after the first separator, empty without one.\<close>

definition after_first :: "char \<Rightarrow> string \<Rightarrow> string" where
  "after_first c s = tl (dropWhile (\<lambda>x. x \<noteq> c) s)"

text \<open>\<open>s.split(c)[-1]\<close> and \<open>s.rpartition(c)[2]\<close>: what comes after the last separator.\<close>

definition last_field :: "char \<Rightarrow> string \<Rightarrow> string" where
  "last_field c s = rev (takeWhile (\<lambda>x. x \<noteq> c) (rev s))"

text \<open>\<open>s.rpartition(c)[0]\<close>: what comes before the last separator, empty without one.\<close>

definition before_last :: "char \<Rightarrow> string \<Rightarrow> string" where
  "before_last c s = rev (tl (dropWhile (\<lambda>x. x \<noteq> c) (rev s)))"

lemma starts_with_append [str_simps, simp]: "starts_with (p @ s) p"
  by (simp add: starts_with_def)

lemma starts_with_iff: "starts_with s p \<longleftrightarrow> (\<exists>t. s = p @ t)"
  unfolding starts_with_def by (metis append_eq_conv_conj append_take_drop_id)

lemma ends_with_iff: "ends_with s p \<longleftrightarrow> (\<exists>t. s = t @ p)"
proof
  assume "ends_with s p"
  then have "s = take (length s - length p) s @ p"
    by (metis append_take_drop_id ends_with_def)
  then show "\<exists>t. s = t @ p" ..
qed (auto simp: ends_with_def)

lemma substring_iff: "substring p s \<longleftrightarrow> (\<exists>a b. s = a @ p @ b)"
proof (induction s)
  case Nil
  then show ?case by auto
next
  case (Cons c s)
  then show ?case
    by (auto simp: starts_with_iff Cons_eq_append_conv)
qed

lemma takeWhile_field: "c \<notin> set p \<Longrightarrow> takeWhile (\<lambda>x. x \<noteq> c) (p @ c # s) = p"
  by (induction p) auto

lemma dropWhile_field: "c \<notin> set p \<Longrightarrow> dropWhile (\<lambda>x. x \<noteq> c) (p @ c # s) = c # s"
  by (induction p) auto

lemma first_field_append [str_simps]: "c \<notin> set p \<Longrightarrow> first_field c (p @ c # s) = p"
  by (simp add: first_field_def takeWhile_field)

lemma after_first_append [str_simps]: "c \<notin> set p \<Longrightarrow> after_first c (p @ c # s) = s"
  by (simp add: after_first_def dropWhile_field)

lemma last_field_append [str_simps]: "c \<notin> set s \<Longrightarrow> last_field c (p @ c # s) = s"
  using takeWhile_field [of c "rev s" "rev p"] by (simp add: last_field_def)

lemma before_last_append [str_simps]: "c \<notin> set s \<Longrightarrow> before_last c (p @ c # s) = p"
  using dropWhile_field [of c "rev s" "rev p"] by (simp add: before_last_def)

lemma last_field_none [str_simps]: "c \<notin> set s \<Longrightarrow> last_field c s = s"
  unfolding last_field_def by (subst takeWhile_eq_all_conv [THEN iffD2]) auto

lemma c_notin_last_field: "c \<notin> set (last_field c s)"
  by (auto simp: last_field_def dest: set_takeWhileD)

section \<open>Numerals\<close>

definition is_dig :: "char \<Rightarrow> bool" where
  "is_dig c \<longleftrightarrow> 48 \<le> (of_char c :: nat) \<and> (of_char c :: nat) \<le> 57"

definition dig_val :: "char \<Rightarrow> nat" where
  "dig_val c = of_char c - 48"

definition dig_char :: "nat \<Rightarrow> char" where
  "dig_char d = char_of (48 + d)"

fun show_nat :: "nat \<Rightarrow> string" where
  "show_nat n = (if n < 10 then [dig_char n] else show_nat (n div 10) @ [dig_char (n mod 10)])"

declare show_nat.simps [simp del]

definition show_int :: "int \<Rightarrow> string" where
  "show_int i = (if i < 0 then CHR ''-'' # show_nat (nat (- i)) else show_nat (nat i))"

definition val_digits :: "string \<Rightarrow> nat" where
  "val_digits s = foldl (\<lambda>a c. 10 * a + dig_val c) 0 s"

lemma of_dig_char [simp]: "d < 10 \<Longrightarrow> (of_char (dig_char d) :: nat) = 48 + d"
  by (simp add: dig_char_def)

lemma is_dig_dig_char [simp]: "d < 10 \<Longrightarrow> is_dig (dig_char d)"
  by (simp add: is_dig_def)

lemma dig_val_dig_char [simp]: "d < 10 \<Longrightarrow> dig_val (dig_char d) = d"
  by (simp add: dig_val_def)

lemma show_nat_digits: "c \<in> set (show_nat n) \<Longrightarrow> is_dig c"
proof (induction n arbitrary: c rule: show_nat.induct)
  case (1 n)
  then show ?case
    by (subst (asm) (2) show_nat.simps) (auto split: if_splits)
qed

lemma show_nat_nonempty [simp]: "show_nat n \<noteq> []"
  by (subst show_nat.simps) simp

lemma val_digits_snoc: "val_digits (s @ [c]) = 10 * val_digits s + dig_val c"
  by (simp add: val_digits_def)

lemma val_show_nat [str_simps, simp]: "val_digits (show_nat n) = n"
proof (induction n rule: show_nat.induct)
  case (1 n)
  show ?case
  proof (cases "n < 10")
    case True
    then show ?thesis by (subst show_nat.simps) (simp add: val_digits_def)
  next
    case False
    with 1 show ?thesis by (subst show_nat.simps) (simp add: val_digits_snoc)
  qed
qed

lemma hd_show_nat: "n \<noteq> 0 \<Longrightarrow> hd (show_nat n) \<noteq> CHR ''0''"
proof (induction n rule: show_nat.induct)
  case (1 n)
  show ?case
  proof (cases "n < 10")
    case True
    with 1 have "(of_char (dig_char n) :: nat) \<noteq> of_char (CHR ''0'')" by simp
    then have "dig_char n \<noteq> CHR ''0''" by metis
    with True show ?thesis by (subst show_nat.simps) simp
  next
    case False
    with 1 show ?thesis by (subst show_nat.simps) simp
  qed
qed

lemma show_nat_inj: "show_nat a = show_nat b \<longleftrightarrow> a = b"
  by (metis val_show_nat)

text \<open>
  \<open>str.isdigit\<close> holds of the ASCII digits and of the superscripts one, two and three;
  \<open>int\<close> raises a ValueError on those.
\<close>

definition unicode_digit :: "char \<Rightarrow> bool" where
  "unicode_digit c \<longleftrightarrow> is_dig c \<or> (of_char c :: nat) \<in> {178, 179, 185}"

definition py_isdigit :: "string \<Rightarrow> bool" where
  "py_isdigit s \<longleftrightarrow> s \<noteq> [] \<and> list_all unicode_digit s"

definition py_int :: "string \<Rightarrow> exn + nat" where
  "py_int s = (if s \<noteq> [] \<and> list_all is_dig s then Inr (val_digits s) else Inl ValueErr)"

lemma py_int_show_nat [str_simps, simp]: "py_int (show_nat n) = Inr n"
  by (auto simp: py_int_def list_all_iff dest: show_nat_digits)

lemma py_isdigit_show_nat [str_simps, simp]: "py_isdigit (show_nat n)"
  by (auto simp: py_isdigit_def unicode_digit_def list_all_iff dest: show_nat_digits)

section \<open>Whitespace and lines\<close>

definition py_space :: "char \<Rightarrow> bool" where
  "py_space c \<longleftrightarrow> (let n = (of_char c :: nat) in
     (9 \<le> n \<and> n \<le> 13) \<or> (28 \<le> n \<and> n \<le> 32) \<or> n = 133 \<or> n = 160)"

definition py_strip :: "string \<Rightarrow> string" where
  "py_strip s = rev (dropWhile py_space (rev (dropWhile py_space s)))"

lemma dropWhile_id: "s = [] \<or> \<not> P (hd s) \<Longrightarrow> dropWhile P s = s"
  by (cases s) auto

lemma py_strip_id:
  "s \<noteq> [] \<Longrightarrow> \<not> py_space (hd s) \<Longrightarrow> \<not> py_space (last s) \<Longrightarrow> py_strip s = s"
  by (simp add: py_strip_def dropWhile_id hd_rev)

lemma py_strip_all_space: "list_all py_space s \<Longrightarrow> py_strip s = []"
  by (auto simp: py_strip_def list_all_iff dest: set_dropWhileD)

lemma py_strip_snoc_space: "py_space c \<Longrightarrow> py_strip (s @ [c]) = py_strip s"
proof (cases "\<forall>x\<in>set s. py_space x")
  case True
  assume "py_space c"
  with True show ?thesis
    by (simp add: py_strip_all_space list_all_iff)
next
  case False
  assume "py_space c"
  with False show ?thesis
    by (auto simp: py_strip_def dropWhile_append1)
qed

text \<open>Reading a text file line by line: the lines end at the newline, which is kept.\<close>

fun file_lines :: "string \<Rightarrow> string list" where
  "file_lines [] = []"
| "file_lines (c # s) =
     (if c = CHR 0x0A then [c] # file_lines s
      else (case file_lines s of [] \<Rightarrow> [[c]] | l # ls \<Rightarrow> (c # l) # ls))"

lemma file_lines_append:
  "CHR 0x0A \<notin> set l \<Longrightarrow> file_lines (l @ CHR 0x0A # s) = (l @ [CHR 0x0A]) # file_lines s"
  by (induction l) auto

lemma concat_file_lines: "concat (file_lines s) = s"
  by (induction s) (auto split: list.splits)

text \<open>\<open>'\n'.join(xs)\<close> with any separator.\<close>

fun join :: "string \<Rightarrow> string list \<Rightarrow> string" where
  "join sep [] = []"
| "join sep [s] = s"
| "join sep (s # t # xs) = s @ sep @ join sep (t # xs)"

lemma join_Cons: "xs \<noteq> [] \<Longrightarrow> join sep (s # xs) = s @ sep @ join sep xs"
  by (cases xs) auto

end
