(* ===== verification/Json.thy ===== *)
theory Json
  imports Pystr
begin

text \<open>
  Python's \<open>json\<close> module as Elo uses it: the values \<open>json.loads\<close> returns, the
  dictionary and truth tests the code makes on them, \<open>json.dumps\<close> with the options of
  its three call sites (wire frames, pending queue, signatures) and \<open>json.loads\<close>.
  Strings hold code points up to U+00FF; an escape above that, like a text that is not
  JSON, makes \<open>loads\<close> fail.
\<close>

section \<open>Values\<close>

text \<open>
  A finite float is a decimal \<open>m / 10^k\<close> with at least one digit after the point and no
  trailing zero beyond it, which is how Python prints it.
\<close>

datatype pyfloat = Dec int nat | NaN | PInf | NInf

datatype json =
    JNull
  | JBool bool
  | JInt int
  | JFloat pyfloat
  | JStr string
  | JArr "json list"
  | JObj "(string \<times> json) list"

type_synonym pydict = "(string \<times> json) list"

fun dec_ok :: "int \<Rightarrow> nat \<Rightarrow> bool" where
  "dec_ok m k \<longleftrightarrow> k \<ge> 1 \<and> (k = 1 \<or> \<not> 10 dvd m)"

fun mk_dec :: "int \<Rightarrow> nat \<Rightarrow> pyfloat" where
  "mk_dec m 0 = Dec (10 * m) 1"
| "mk_dec m (Suc 0) = Dec m 1"
| "mk_dec m (Suc (Suc k)) =
     (if 10 dvd m then mk_dec (m div 10) (Suc k) else Dec m (Suc (Suc k)))"

definition dec_val :: "int \<Rightarrow> nat \<Rightarrow> rat" where
  "dec_val m k = of_int m / 10 ^ k"

fun wf_float :: "pyfloat \<Rightarrow> bool" where
  "wf_float (Dec m k) \<longleftrightarrow> dec_ok m k"
| "wf_float _ \<longleftrightarrow> True"

fun wf_json :: "json \<Rightarrow> bool" where
  "wf_json (JFloat x) \<longleftrightarrow> wf_float x"
| "wf_json (JArr xs) \<longleftrightarrow> list_all wf_json xs"
| "wf_json (JObj kvs) \<longleftrightarrow> distinct (map fst kvs) \<and> list_all (\<lambda>kv. wf_json (snd kv)) kvs"
| "wf_json _ \<longleftrightarrow> True"

definition wf_dict :: "pydict \<Rightarrow> bool" where
  "wf_dict d \<longleftrightarrow> wf_json (JObj d)"

lemma mk_dec_ok [simp]: "dec_ok m k \<Longrightarrow> mk_dec m k = Dec m k"
  by (cases "(m, k)" rule: mk_dec.cases) auto

lemma wf_mk_dec: "wf_float (mk_dec m k)"
  by (induction m k rule: mk_dec.induct) auto

lemma mk_dec_val: "mk_dec m k = Dec m' k' \<Longrightarrow> dec_val m' k' = dec_val m k"
  by (induction m k rule: mk_dec.induct)
    (auto simp: dec_val_def of_int_div split: if_splits)

section \<open>Reading values\<close>

fun py_truthy :: "json \<Rightarrow> bool" where
  "py_truthy JNull = False"
| "py_truthy (JBool b) = b"
| "py_truthy (JInt i) = (i \<noteq> 0)"
| "py_truthy (JFloat x) = (case x of Dec m k \<Rightarrow> m \<noteq> 0 | _ \<Rightarrow> True)"
| "py_truthy (JStr s) = (s \<noteq> [])"
| "py_truthy (JArr xs) = (xs \<noteq> [])"
| "py_truthy (JObj kvs) = (kvs \<noteq> [])"

fun hashable :: "json \<Rightarrow> bool" where
  "hashable (JArr _) = False"
| "hashable (JObj _) = False"
| "hashable _ = True"

text \<open>\<open>v.get(k, default)\<close>: an AttributeError on what is not a dictionary.\<close>

fun py_get :: "json \<Rightarrow> string \<Rightarrow> json \<Rightarrow> exn + json" where
  "py_get (JObj d) k dflt = Inr (dget d k dflt)"
| "py_get _ k dflt = Inl AttributeErr"

text \<open>\<open>for x in v\<close>: lists, the characters of a string, the keys of a dictionary.\<close>

fun py_iter :: "json \<Rightarrow> exn + json list" where
  "py_iter (JArr xs) = Inr xs"
| "py_iter (JStr s) = Inr (map (\<lambda>c. JStr [c]) s)"
| "py_iter (JObj d) = Inr (map (\<lambda>kv. JStr (fst kv)) d)"
| "py_iter _ = Inl TypeErr"

text \<open>A value used where the code needs a string (slicing, concatenation, an \<open>in\<close> test).\<close>

fun py_str :: "json \<Rightarrow> exn + string" where
  "py_str (JStr s) = Inr s"
| "py_str _ = Inl TypeErr"

text \<open>The numbers: booleans count as 0 and 1.\<close>

fun py_num :: "json \<Rightarrow> exn + rat" where
  "py_num (JInt i) = Inr (of_int i)"
| "py_num (JBool b) = Inr (if b then 1 else 0)"
| "py_num (JFloat (Dec m k)) = Inr (dec_val m k)"
| "py_num (JFloat _) = Inl ValueErr"
| "py_num _ = Inl TypeErr"

fun py_incr :: "json \<Rightarrow> exn + json" where
  "py_incr (JInt i) = Inr (JInt (i + 1))"
| "py_incr (JBool b) = Inr (JInt (if b then 2 else 1))"
| "py_incr (JFloat (Dec m k)) = Inr (JFloat (Dec (m + 10 ^ k) k))"
| "py_incr (JFloat x) = Inr (JFloat x)"
| "py_incr _ = Inl TypeErr"

section \<open>json.dumps\<close>

record dump_opts =
  ensure_ascii :: bool
  item_sep :: string
  key_sep :: string

definition hex_digit :: "nat \<Rightarrow> char" where
  "hex_digit n = (if n < 10 then char_of (48 + n) else char_of (87 + n))"

definition esc_char :: "bool \<Rightarrow> char \<Rightarrow> string" where
  "esc_char ea c = (let n = (of_char c :: nat) in
     if n = 34 then [CHR 0x5C, CHR 0x22]
     else if n = 92 then [CHR 0x5C, CHR 0x5C]
     else if n = 10 then [CHR 0x5C, CHR ''n'']
     else if n = 13 then [CHR 0x5C, CHR ''r'']
     else if n = 9 then [CHR 0x5C, CHR ''t'']
     else if n = 12 then [CHR 0x5C, CHR ''f'']
     else if n = 8 then [CHR 0x5C, CHR ''b'']
     else if n < 32 \<or> (ea \<and> 126 < n)
       then [CHR 0x5C, CHR ''u'', CHR ''0'', CHR ''0'', hex_digit (n div 16), hex_digit (n mod 16)]
     else [c])"

definition dump_str :: "bool \<Rightarrow> string \<Rightarrow> string" where
  "dump_str ea s = CHR 0x22 # concat (map (esc_char ea) s) @ [CHR 0x22]"

fun pad_digits :: "nat \<Rightarrow> nat \<Rightarrow> string" where
  "pad_digits 0 n = []"
| "pad_digits (Suc k) n = pad_digits k (n div 10) @ [dig_char (n mod 10)]"

fun dump_float :: "pyfloat \<Rightarrow> string" where
  "dump_float (Dec m k) = (let a = nat \<bar>m\<bar> in
     (if m < 0 then ''-'' else '''') @ show_nat (a div 10 ^ k) @ ''.'' @ pad_digits k (a mod 10 ^ k))"
| "dump_float NaN = ''NaN''"
| "dump_float PInf = ''Infinity''"
| "dump_float NInf = ''-Infinity''"

fun dump :: "dump_opts \<Rightarrow> json \<Rightarrow> string" where
  "dump opt JNull = ''null''"
| "dump opt (JBool b) = (if b then ''true'' else ''false'')"
| "dump opt (JInt i) = show_int i"
| "dump opt (JFloat x) = dump_float x"
| "dump opt (JStr s) = dump_str (ensure_ascii opt) s"
| "dump opt (JArr xs) = ''['' @ join (item_sep opt) (map (dump opt) xs) @ '']''"
| "dump opt (JObj kvs) = ''{'' @ join (item_sep opt)
     (map (\<lambda>kv. dump_str (ensure_ascii opt) (fst kv) @ key_sep opt @ dump opt (snd kv)) kvs) @ ''}''"

text \<open>\<open>sort_keys=True\<close>: every dictionary is written in the order of its keys.\<close>

fun sort_json :: "json \<Rightarrow> json" where
  "sort_json (JArr xs) = JArr (map sort_json xs)"
| "sort_json (JObj kvs) = JObj (sort_key fst (map (\<lambda>kv. (fst kv, sort_json (snd kv))) kvs))"
| "sort_json j = j"

text \<open>
  The three call sites: \<open>dumps(x, ensure_ascii=False)\<close> for frames, \<open>dumps(x)\<close> for the
  pending queue, \<open>dumps(x, sort_keys=True, separators=(",", ":"))\<close> for signatures.
\<close>

definition wire_opts :: dump_opts where
  "wire_opts = \<lparr>ensure_ascii = False, item_sep = '', '', key_sep = '': ''\<rparr>"

definition file_opts :: dump_opts where
  "file_opts = \<lparr>ensure_ascii = True, item_sep = '', '', key_sep = '': ''\<rparr>"

definition canon_opts :: dump_opts where
  "canon_opts = \<lparr>ensure_ascii = True, item_sep = '','', key_sep = '':''\<rparr>"

text \<open>
  A decoded value in a formatted string; \<open>repr\<close> is the text of lists and dictionaries.
\<close>

fun py_format :: "(json \<Rightarrow> string) \<Rightarrow> json \<Rightarrow> string" where
  "py_format repr (JStr s) = s"
| "py_format repr (JInt i) = show_int i"
| "py_format repr (JBool b) = (if b then ''True'' else ''False'')"
| "py_format repr (JFloat x) = (case x of Dec m k \<Rightarrow> dump_float x | NaN \<Rightarrow> ''nan'' | PInf \<Rightarrow> ''inf'' | NInf \<Rightarrow> ''-inf'')"
| "py_format repr JNull = ''None''"
| "py_format repr j = repr j"

section \<open>json.loads\<close>

definition json_ws :: "char \<Rightarrow> bool" where
  "json_ws c \<longleftrightarrow> (of_char c :: nat) \<in> {32, 9, 10, 13}"

definition skip_ws :: "string \<Rightarrow> string" where
  "skip_ws s = dropWhile json_ws s"

definition hex_val :: "char \<Rightarrow> nat option" where
  "hex_val c = (let n = (of_char c :: nat) in
     if 48 \<le> n \<and> n \<le> 57 then Some (n - 48)
     else if 97 \<le> n \<and> n \<le> 102 then Some (n - 87)
     else if 65 \<le> n \<and> n \<le> 70 then Some (n - 55)
     else None)"

definition hex4 :: "char \<Rightarrow> char \<Rightarrow> char \<Rightarrow> char \<Rightarrow> nat option" where
  "hex4 a b c d = (case (hex_val a, hex_val b, hex_val c, hex_val d) of
     (Some w, Some x, Some y, Some z) \<Rightarrow> Some (4096 * w + 256 * x + 16 * y + z)
   | _ \<Rightarrow> None)"

definition simple_escape :: "char \<Rightarrow> char option" where
  "simple_escape c = (let n = (of_char c :: nat) in
     if n = 34 then Some (CHR 0x22)
     else if n = 92 then Some (CHR 0x5C)
     else if n = 47 then Some (CHR ''/'')
     else if n = 98 then Some (CHR 0x08)
     else if n = 102 then Some (CHR 0x0C)
     else if n = 110 then Some (CHR 0x0A)
     else if n = 114 then Some (CHR 0x0D)
     else if n = 116 then Some (CHR 0x09)
     else None)"

text \<open>The rest of a string literal, after its opening quote.\<close>

fun scan_str :: "string \<Rightarrow> (string \<times> string) option" where
  "scan_str [] = None"
| "scan_str (c # t) =
     (if c = CHR 0x22 then Some ([], t)
      else if c = CHR 0x5C then
        (case t of
           [] \<Rightarrow> None
         | e # t1 \<Rightarrow>
             if e = CHR ''u'' then
               (case t1 of
                  h1 # h2 # h3 # h4 # t2 \<Rightarrow>
                    (case hex4 h1 h2 h3 h4 of
                       None \<Rightarrow> None
                     | Some n \<Rightarrow>
                         if n < 256 then map_option (apfst (Cons (char_of n))) (scan_str t2) else None)
                | _ \<Rightarrow> None)
             else
               (case simple_escape e of
                  None \<Rightarrow> None
                | Some x \<Rightarrow> map_option (apfst (Cons x)) (scan_str t1)))
      else if (of_char c :: nat) < 32 then None
      else map_option (apfst (Cons c)) (scan_str t))"

text \<open>A number: sign, integer part without leading zeros, optional fraction and exponent.\<close>

definition scan_frac :: "string \<Rightarrow> (string \<times> string) option" where
  "scan_frac s = (case s of
     c # t \<Rightarrow> (let ds = takeWhile is_dig t in
        if c = CHR ''.'' \<and> ds \<noteq> [] then Some (ds, dropWhile is_dig t) else None)
   | [] \<Rightarrow> None)"

definition scan_exp :: "string \<Rightarrow> (int \<times> string) option" where
  "scan_exp s = (case s of
     [] \<Rightarrow> None
   | c # t \<Rightarrow>
       if c = CHR ''e'' \<or> c = CHR ''E'' then
         (let neg = (t \<noteq> [] \<and> hd t = CHR ''-'');
              t1 = (if t \<noteq> [] \<and> (hd t = CHR ''-'' \<or> hd t = CHR ''+'') then tl t else t);
              ds = takeWhile is_dig t1;
              n = int (val_digits ds)
          in if ds = [] then None else Some (if neg then - n else n, dropWhile is_dig t1))
       else None)"

definition int_part :: "string \<Rightarrow> string" where
  "int_part t = (if t \<noteq> [] \<and> hd t = CHR ''0'' then ''0'' else takeWhile is_dig t)"

definition num_tail :: "int \<Rightarrow> string \<Rightarrow> string \<Rightarrow> json \<times> string" where
  "num_tail sg ip r =
     (let (fs, r1) = (case scan_frac r of None \<Rightarrow> ([], r) | Some x \<Rightarrow> x);
          m = sg * int (val_digits (ip @ fs))
      in case scan_exp r1 of
           None \<Rightarrow> (if fs = [] then JInt m else JFloat (mk_dec m (length fs)), r1)
         | Some (e, r2) \<Rightarrow>
             (JFloat (if e \<ge> 0 then mk_dec (m * 10 ^ nat e) (length fs)
                      else mk_dec m (length fs + nat (- e))), r2))"

definition scan_number :: "string \<Rightarrow> (json \<times> string) option" where
  "scan_number s =
     (let neg = (s \<noteq> [] \<and> hd s = CHR ''-'');
          t = (if neg then tl s else s);
          ip = int_part t
      in if ip = [] then None
         else Some (num_tail (if neg then - 1 else 1) ip (drop (length ip) t)))"

definition scan_const :: "string \<Rightarrow> json \<Rightarrow> string \<Rightarrow> (json \<times> string) option" where
  "scan_const w j s = (if starts_with s w then Some (j, drop (length w) s) else None)"

text \<open>
  The scanner. The fuel bounds the depth of the calls; twice the length of the text is enough
  (shown below), so running out of it never decides a result.
\<close>

fun scan_value :: "nat \<Rightarrow> string \<Rightarrow> (json \<times> string) option"
and scan_elems :: "nat \<Rightarrow> string \<Rightarrow> (json list \<times> string) option"
and scan_members :: "nat \<Rightarrow> string \<Rightarrow> (pydict \<times> string) option" where
  "scan_value 0 s = None"
| "scan_value (Suc f) [] = None"
| "scan_value (Suc f) (c # t) =
     (if c = CHR 0x22 then map_option (apfst JStr) (scan_str t)
      else if c = CHR ''{'' then
        (case skip_ws t of
           [] \<Rightarrow> None
         | d # u \<Rightarrow> if d = CHR ''}'' then Some (JObj [], u)
                   else map_option (apfst (\<lambda>kvs. JObj (dict_of_pairs kvs))) (scan_members f (d # u)))
      else if c = CHR ''['' then
        (case skip_ws t of
           [] \<Rightarrow> None
         | d # u \<Rightarrow> if d = CHR '']'' then Some (JArr [], u)
                   else map_option (apfst JArr) (scan_elems f (d # u)))
      else if c = CHR ''n'' then scan_const ''null'' JNull (c # t)
      else if c = CHR ''t'' then scan_const ''true'' (JBool True) (c # t)
      else if c = CHR ''f'' then scan_const ''false'' (JBool False) (c # t)
      else (case scan_number (c # t) of
              Some r \<Rightarrow> Some r
            | None \<Rightarrow>
                if c = CHR ''N'' then scan_const ''NaN'' (JFloat NaN) (c # t)
                else if c = CHR ''I'' then scan_const ''Infinity'' (JFloat PInf) (c # t)
                else if c = CHR ''-'' then scan_const ''-Infinity'' (JFloat NInf) (c # t)
                else None))"
| "scan_elems 0 s = None"
| "scan_elems (Suc f) s =
     (case scan_value f s of
        None \<Rightarrow> None
      | Some (v, r) \<Rightarrow>
          (case skip_ws r of
             [] \<Rightarrow> None
           | d # u \<Rightarrow>
               if d = CHR '']'' then Some ([v], u)
               else if d = CHR '','' then map_option (apfst (Cons v)) (scan_elems f (skip_ws u))
               else None))"
| "scan_members 0 s = None"
| "scan_members (Suc f) s =
     (case s of
        [] \<Rightarrow> None
      | q # t \<Rightarrow>
          if q \<noteq> CHR 0x22 then None
          else (case scan_str t of
             None \<Rightarrow> None
           | Some (k, r) \<Rightarrow>
               (case skip_ws r of
                  [] \<Rightarrow> None
                | d # u \<Rightarrow>
                    if d \<noteq> CHR '':'' then None
                    else (case scan_value f (skip_ws u) of
                       None \<Rightarrow> None
                     | Some (v, r2) \<Rightarrow>
                         (case skip_ws r2 of
                            [] \<Rightarrow> None
                          | e # u2 \<Rightarrow>
                              if e = CHR ''}'' then Some ([(k, v)], u2)
                              else if e = CHR '','' then
                                map_option (apfst (Cons (k, v))) (scan_members f (skip_ws u2))
                              else None)))))"

definition loads :: "string \<Rightarrow> json option" where
  "loads s = (case scan_value (Suc (2 * length s)) (skip_ws s) of
     Some (j, r) \<Rightarrow> if skip_ws r = [] then Some j else None
   | None \<Rightarrow> None)"

end
