(* ===== verification/Json_Codec.thy ===== *)
theory Json_Codec
  imports Json
begin

text \<open>
  What the encoder and the decoder of JSON promise each other: a value that is written is
  read back unchanged (for the options of every call site), what is read is well formed,
  and the scanner's fuel is always enough.
\<close>

section \<open>The interface of an encoder and its decoder\<close>

locale codec =
  fixes enc :: "'a \<Rightarrow> 'b"
    and dec :: "'b \<Rightarrow> 'a option"
    and ok :: "'a \<Rightarrow> bool"
  assumes dec_enc: "ok x \<Longrightarrow> dec (enc x) = Some x"
begin

lemma enc_inject: "ok x \<Longrightarrow> ok y \<Longrightarrow> enc x = enc y \<longleftrightarrow> x = y"
  by (metis dec_enc option.inject)

lemma dec_enc_map: "list_all ok xs \<Longrightarrow> map (dec \<circ> enc) xs = map Some xs"
  by (induction xs) (auto simp: dec_enc)

end

section \<open>Strings\<close>

lemma char_eq_code: "c = d \<longleftrightarrow> (of_char c :: nat) = of_char d"
  by simp

lemma hex_val_hex_digit: "d < 16 \<Longrightarrow> hex_val (hex_digit d) = Some d"
  by (auto simp: hex_val_def hex_digit_def Let_def)

lemma hex4_esc:
  assumes "n < 256"
  shows "hex4 (CHR ''0'') (CHR ''0'') (hex_digit (n div 16)) (hex_digit (n mod 16)) = Some n"
proof -
  have "n div 16 < 16" using assms by auto
  moreover have "hex_val (CHR ''0'') = Some 0" by (simp add: hex_val_def)
  ultimately show ?thesis by (simp add: hex4_def hex_val_hex_digit)
qed

lemma char_bound: "(of_char (c :: char) :: nat) < 256"
  by (simp add: of_char_def)

lemma scan_esc_char:
  "scan_str (esc_char ea c @ t) = map_option (apfst (Cons c)) (scan_str t)"
proof -
  define n where "n = (of_char c :: nat)"
  have c: "c = char_of n" by (simp add: n_def)
  have lt: "n < 256" using char_bound by (simp add: n_def)
  consider (special) "n \<in> {34, 92, 10, 13, 9, 12, 8}"
    | (hex) "n \<notin> {34, 92, 10, 13, 9, 12, 8}" "n < 32 \<or> ea \<and> 126 < n"
    | (plain) "n \<notin> {34, 92, 10, 13, 9, 12, 8}" "\<not> (n < 32 \<or> ea \<and> 126 < n)"
    by blast
  then show ?thesis
  proof cases
    case special
    then have "c \<in> {CHR 0x22, CHR 0x5C, CHR 0x0A, CHR 0x0D, CHR 0x09, CHR 0x0C, CHR 0x08}"
      unfolding n_def insert_iff empty_iff char_eq_code by simp
    then show ?thesis
      by (elim insertE) (simp_all add: esc_char_def simple_escape_def)
  next
    case hex
    then have "esc_char ea c = [CHR 0x5C, CHR ''u'', CHR ''0'', CHR ''0'',
        hex_digit (n div 16), hex_digit (n mod 16)]"
      by (auto simp: esc_char_def n_def Let_def)
    then show ?thesis using lt by (simp add: hex4_esc c)
  next
    case plain
    then have "esc_char ea c = [c]"
      by (auto simp: esc_char_def n_def Let_def)
    moreover have "c \<noteq> CHR 0x22" "c \<noteq> CHR 0x5C"
      using plain by (auto simp: n_def)
    ultimately show ?thesis using plain by (simp add: n_def)
  qed
qed

lemma scan_dump_chars:
  "scan_str (concat (map (esc_char ea) s) @ CHR 0x22 # r) = Some (s, r)"
  by (induction s) (auto simp: scan_esc_char)

lemma scan_str_length: "scan_str s = Some (x, r) \<Longrightarrow> length r < length s"
  by (induction s arbitrary: x r rule: scan_str.induct)
    (fastforce split: if_splits list.splits option.splits)+

declare scan_str.simps [simp del]

section \<open>Numbers\<close>

definition num_stop :: "string \<Rightarrow> bool" where
  "num_stop r \<longleftrightarrow> r = [] \<or> (\<not> is_dig (hd r) \<and> hd r \<noteq> CHR ''.'' \<and> hd r \<noteq> CHR ''e'' \<and> hd r \<noteq> CHR ''E'')"

lemma takeWhile_digits:
  "list_all is_dig ds \<Longrightarrow> r = [] \<or> \<not> is_dig (hd r) \<Longrightarrow>
   takeWhile is_dig (ds @ r) = ds \<and> dropWhile is_dig (ds @ r) = r"
  by (cases r) (auto simp: list_all_iff takeWhile_append2 dropWhile_append2)

lemma num_stop_no_frac: "num_stop r \<Longrightarrow> scan_frac r = None \<and> scan_exp r = None"
  by (cases r) (auto simp: num_stop_def scan_frac_def scan_exp_def Let_def)

lemma show_nat_0: "show_nat 0 = ''0''"
  by (subst show_nat.simps) (simp add: dig_char_def char_eq_code)

lemma show_nat_all_dig: "list_all is_dig (show_nat n)"
  by (auto simp: list_all_iff dest: show_nat_digits)

lemma int_part_show_nat:
  assumes "r = [] \<or> \<not> is_dig (hd r)"
  shows "int_part (show_nat n @ r) = show_nat n"
proof (cases "n = 0")
  case True
  then show ?thesis by (simp add: int_part_def show_nat_0)
next
  case False
  then have "hd (show_nat n @ r) \<noteq> CHR ''0''"
    by (simp add: hd_show_nat)
  then show ?thesis
    using takeWhile_digits [OF show_nat_all_dig assms] by (simp add: int_part_def)
qed

lemma not_dig_minus: "\<not> is_dig (CHR ''-'')"
  by (simp add: is_dig_def)

lemma hd_show_nat_dig: "is_dig (hd (show_nat n @ r))"
  using show_nat_digits [of "hd (show_nat n)" n] by (simp add: hd_append)

lemma scan_number_unsigned:
  assumes "r = [] \<or> \<not> is_dig (hd r)"
  shows "scan_number (show_nat n @ r) = Some (num_tail 1 (show_nat n) r)"
proof -
  have "hd (show_nat n @ r) \<noteq> CHR ''-''"
    using hd_show_nat_dig [of n r] not_dig_minus by metis
  then show ?thesis
    using int_part_show_nat [OF assms, of n] by (simp add: scan_number_def)
qed

lemma scan_number_signed:
  assumes "r = [] \<or> \<not> is_dig (hd r)"
  shows "scan_number (CHR ''-'' # show_nat n @ r) = Some (num_tail (- 1) (show_nat n) r)"
  using int_part_show_nat [OF assms, of n] by (simp add: scan_number_def)

lemma num_stop_dig: "num_stop r \<Longrightarrow> r = [] \<or> \<not> is_dig (hd r)"
  by (auto simp: num_stop_def)

lemma num_tail_int:
  "num_stop r \<Longrightarrow> num_tail sg (show_nat n) r = (JInt (sg * int n), r)"
  using num_stop_no_frac [of r] by (simp add: num_tail_def)

lemma scan_number_int:
  assumes "num_stop r"
  shows "scan_number (show_int i @ r) = Some (JInt i, r)"
  using scan_number_signed [OF num_stop_dig [OF assms]] scan_number_unsigned [OF num_stop_dig [OF assms]]
  by (auto simp: show_int_def num_tail_int [OF assms])

lemma length_pad_digits [simp]: "length (pad_digits k n) = k"
  by (induction k n rule: pad_digits.induct) auto

lemma pad_digits_dig: "list_all is_dig (pad_digits k n)"
  by (induction k n rule: pad_digits.induct) auto

lemma val_digits_append: "val_digits (s @ t) = val_digits s * 10 ^ length t + val_digits t"
proof (induction t rule: rev_induct)
  case Nil
  then show ?case by (simp add: val_digits_def)
next
  case (snoc c t)
  then show ?case
    using val_digits_snoc [of "s @ t" c] val_digits_snoc [of t c] by (simp add: algebra_simps)
qed

lemma val_pad_digits: "n < 10 ^ k \<Longrightarrow> val_digits (pad_digits k n) = n"
proof (induction k n rule: pad_digits.induct)
  case (1 n)
  then show ?case by (simp add: val_digits_def)
next
  case (2 k n)
  then have "n div 10 < 10 ^ k" by auto
  with 2 show ?case by (simp add: val_digits_snoc)
qed

lemma scan_frac_digits:
  assumes "list_all is_dig ds" "ds \<noteq> []" "r = [] \<or> \<not> is_dig (hd r)"
  shows "scan_frac (CHR ''.'' # ds @ r) = Some (ds, r)"
  using takeWhile_digits [OF assms(1,3)] assms(2) by (simp add: scan_frac_def Let_def)

lemma scan_number_dec:
  assumes "dec_ok m k" and r: "num_stop r"
  shows "scan_number (dump_float (Dec m k) @ r) = Some (JFloat (Dec m k), r)"
proof -
  define a where "a = nat \<bar>m\<bar>"
  define fs where "fs = pad_digits k (a mod 10 ^ k)"
  have fs: "list_all is_dig fs" "fs \<noteq> []" "length fs = k"
    using assms(1) by (auto simp: fs_def pad_digits_dig simp flip: length_greater_0_conv)
  have frac: "scan_frac (CHR ''.'' # fs @ r) = Some (fs, r)"
    using scan_frac_digits [OF fs(1,2) num_stop_dig [OF r]] .
  have nodig: "CHR ''.'' # fs @ r = [] \<or> \<not> is_dig (hd (CHR ''.'' # fs @ r))"
    by (simp add: is_dig_def)
  have val: "val_digits (show_nat (a div 10 ^ k) @ fs) = a"
    using val_pad_digits [of "a mod 10 ^ k" k] div_mult_mod_eq [of a "10 ^ k"]
    by (simp add: val_digits_append fs_def)
  have tail: "num_tail sg (show_nat (a div 10 ^ k)) (CHR ''.'' # fs @ r)
      = (JFloat (mk_dec (sg * int a) k), r)" for sg
    using frac fs num_stop_no_frac [OF r] val by (simp add: num_tail_def)
  show ?thesis
    using scan_number_signed [OF nodig, of "a div 10 ^ k"] scan_number_unsigned [OF nodig, of "a div 10 ^ k"]
      assms(1) mk_dec_ok [OF assms(1)]
    by (simp add: tail Let_def flip: a_def fs_def) (simp add: a_def)
qed

section \<open>Values\<close>

definition opts_ok :: "dump_opts \<Rightarrow> bool" where
  "opts_ok opt \<longleftrightarrow> (\<exists>w v. item_sep opt = CHR '','' # w \<and> list_all json_ws w \<and>
     key_sep opt = CHR '':'' # v \<and> list_all json_ws v)"

lemma opts_ok_sites [simp]: "opts_ok wire_opts" "opts_ok file_opts" "opts_ok canon_opts"
  by (auto simp: opts_ok_def wire_opts_def file_opts_def canon_opts_def json_ws_def)

definition val_start :: "char \<Rightarrow> bool" where
  "val_start c \<longleftrightarrow> \<not> json_ws c \<and> c \<noteq> CHR '']'' \<and> c \<noteq> CHR ''}''"

lemma is_dig_start: "is_dig c \<Longrightarrow> val_start c"
  by (auto simp: is_dig_def val_start_def json_ws_def)

lemma show_nat_Cons: "\<exists>c t. show_nat n = c # t \<and> is_dig c"
  using show_nat_digits [of "hd (show_nat n)" n] by (cases "show_nat n") auto

lemma minus_start [simp]: "val_start (CHR ''-'')"
  by (simp add: val_start_def json_ws_def)

lemma dump_start: "\<exists>c t. dump opt j = c # t \<and> val_start c"
proof (cases j)
  case (JInt i)
  then show ?thesis
    using show_nat_Cons [of "nat i"] is_dig_start by (fastforce simp: show_int_def)
next
  case (JFloat x)
  show ?thesis
  proof (cases x)
    case (Dec m k)
    then show ?thesis
      using show_nat_Cons [of "nat \<bar>m\<bar> div 10 ^ k"] is_dig_start JFloat
      by (fastforce simp: Let_def)
  qed (simp_all add: JFloat val_start_def json_ws_def)
qed (auto simp: dump_str_def val_start_def json_ws_def)

lemma skip_ws_start: "val_start c \<Longrightarrow> skip_ws (c # t) = c # t"
  by (simp add: skip_ws_def val_start_def)

lemma skip_ws_append: "list_all json_ws w \<Longrightarrow> skip_ws (w @ s) = skip_ws s"
  by (induction w) (auto simp: skip_ws_def)

lemma skip_ws_dump [simp]: "skip_ws (dump opt j @ r) = dump opt j @ r"
  using dump_start [of opt j] by (auto simp: skip_ws_start)

lemma dump_nonempty [simp]: "dump opt j \<noteq> []"
  using dump_start [of opt j] by auto

lemma dump_length_pos: "1 \<le> length (dump opt j)"
  by (metis One_nat_def Suc_leI dump_nonempty length_greater_0_conv)

text \<open>Which branch of the scanner a number takes.\<close>

lemma scan_value_number:
  assumes "s = c # t" "is_dig c \<or> c = CHR ''-''" "scan_number s = Some x"
  shows "scan_value (Suc f) s = Some x"
  using assms by (auto simp: is_dig_def)

lemma scan_value_int:
  assumes "num_stop r"
  shows "scan_value (Suc f) (show_int i @ r) = Some (JInt i, r)"
proof -
  obtain c t where "show_int i @ r = c # t" "is_dig c \<or> c = CHR ''-''"
    using show_nat_Cons [of "nat i"] show_nat_Cons [of "nat (- i)"]
    by (cases "i < 0") (auto simp: show_int_def)
  then show ?thesis using scan_number_int [OF assms] by (intro scan_value_number)
qed

lemma scan_value_float:
  assumes "wf_float x" "num_stop r"
  shows "scan_value (Suc f) (dump_float x @ r) = Some (JFloat x, r)"
proof (cases x)
  case (Dec m k)
  obtain c t where "dump_float (Dec m k) @ r = c # t" "is_dig c \<or> c = CHR ''-''"
    using show_nat_Cons [of "nat \<bar>m\<bar> div 10 ^ k"] by (cases "m < 0") (auto simp: Let_def)
  then show ?thesis
    using assms scan_number_dec [of m k r] unfolding Dec
    by (intro scan_value_number) auto
qed (simp_all add: scan_number_def int_part_def scan_const_def starts_with_def is_dig_def)

lemma scan_value_str:
  "scan_value (Suc f) (dump_str ea s @ r) = Some (JStr s, r)"
  by (simp add: dump_str_def scan_dump_chars)

lemma num_stop_sep: "opts_ok opt \<Longrightarrow> num_stop (item_sep opt @ r)"
  by (auto simp: opts_ok_def num_stop_def is_dig_def)

lemma num_stop_close [simp]: "num_stop (CHR '']'' # r)" "num_stop (CHR ''}'' # r)" "num_stop []"
  by (auto simp: num_stop_def is_dig_def)

lemma skip_ws_close [simp]:
  "skip_ws (CHR '']'' # r) = CHR '']'' # r" "skip_ws (CHR ''}'' # r) = CHR ''}'' # r"
  "skip_ws (CHR '','' # r) = CHR '','' # r" "skip_ws (CHR '':'' # r) = CHR '':'' # r"
  "skip_ws (CHR 0x22 # r) = CHR 0x22 # r" "skip_ws [] = []"
  by (auto simp: skip_ws_def json_ws_def)

abbreviation dump_member :: "dump_opts \<Rightarrow> string \<times> json \<Rightarrow> string" where
  "dump_member opt kv \<equiv> dump_str (ensure_ascii opt) (fst kv) @ key_sep opt @ dump opt (snd kv)"

definition reads :: "dump_opts \<Rightarrow> json \<Rightarrow> bool" where
  "reads opt j \<longleftrightarrow> (\<forall>f r. num_stop r \<longrightarrow> 2 * length (dump opt j) \<le> f \<longrightarrow>
     scan_value f (dump opt j @ r) = Some (j, r))"

lemma readsD: "reads opt j \<Longrightarrow> num_stop r \<Longrightarrow> 2 * length (dump opt j) \<le> f \<Longrightarrow>
    scan_value f (dump opt j @ r) = Some (j, r)"
  by (simp add: reads_def)

lemma scan_elems_dump:
  assumes "opts_ok opt" "list_all (reads opt) xs" "xs \<noteq> []"
    "2 * length (join (item_sep opt) (map (dump opt) xs)) + 2 \<le> f"
  shows "scan_elems f (join (item_sep opt) (map (dump opt) xs) @ CHR '']'' # r) = Some (xs, r)"
  using assms(2-)
proof (induction xs arbitrary: f)
  case (Cons x xs)
  then obtain g where f: "f = Suc g" by (cases f) auto
  show ?case
  proof (cases xs)
    case Nil
    then show ?thesis using Cons.prems f by (simp add: reads_def)
  next
    case (Cons y ys)
    let ?rest = "join (item_sep opt) (map (dump opt) xs)"
    obtain w where w: "item_sep opt = CHR '','' # w" "list_all json_ws w"
      using assms(1) by (auto simp: opts_ok_def)
    have j: "join (item_sep opt) (dump opt x # map (dump opt) xs) = dump opt x @ item_sep opt @ ?rest"
      using Cons by simp
    have "scan_value g (dump opt x @ item_sep opt @ ?rest @ CHR '']'' # r)
        = Some (x, item_sep opt @ ?rest @ CHR '']'' # r)"
      using Cons.prems f by (intro readsD num_stop_sep [OF assms(1)]) (simp_all add: j)
    moreover have "skip_ws (w @ ?rest @ CHR '']'' # r) = ?rest @ CHR '']'' # r"
      using skip_ws_append [OF w(2)] Cons by (cases ys) auto
    moreover have "scan_elems g (?rest @ CHR '']'' # r) = Some (xs, r)"
      using Cons.IH [of g] Cons.prems f Cons dump_length_pos [of opt x] w by (simp add: j)
    ultimately show ?thesis using f by (simp add: j [unfolded w(1)] w(1))
  qed
qed simp

lemma scan_members_step:
  assumes "opts_ok opt" "scan_value g (dump opt (snd kv) @ q) = Some (snd kv, q)"
  shows "scan_members (Suc g) (dump_member opt kv @ q) =
    (case skip_ws q of [] \<Rightarrow> None
     | e # u \<Rightarrow> if e = CHR ''}'' then Some ([kv], u)
               else if e = CHR '','' then map_option (apfst (Cons kv)) (scan_members g (skip_ws u))
               else None)"
proof -
  obtain v where v: "key_sep opt = CHR '':'' # v" "list_all json_ws v"
    using assms(1) by (auto simp: opts_ok_def)
  have "skip_ws (v @ dump opt (snd kv) @ q) = dump opt (snd kv) @ q"
    using skip_ws_append [OF v(2)] by simp
  then show ?thesis
    using assms(2) by (cases kv) (simp add: dump_str_def v scan_dump_chars split: list.splits)
qed

lemma scan_members_dump:
  assumes "opts_ok opt" "list_all (\<lambda>kv. reads opt (snd kv)) kvs" "kvs \<noteq> []"
    "2 * length (join (item_sep opt) (map (dump_member opt) kvs)) + 2 \<le> f"
  shows "scan_members f (join (item_sep opt) (map (dump_member opt) kvs) @ CHR ''}'' # r) = Some (kvs, r)"
  using assms(2-)
proof (induction kvs arbitrary: f)
  case (Cons kv kvs)
  then obtain g where f: "f = Suc g" by (cases f) auto
  obtain w where w: "item_sep opt = CHR '','' # w" "list_all json_ws w"
    using assms(1) by (auto simp: opts_ok_def)
  show ?case
  proof (cases kvs)
    case Nil
    have "scan_value g (dump opt (snd kv) @ CHR ''}'' # r) = Some (snd kv, CHR ''}'' # r)"
      using Cons.prems f Nil by (simp add: reads_def)
    then show ?thesis
      using f Nil scan_members_step [OF assms(1), of g kv "CHR ''}'' # r"] by simp
  next
    case (Cons y ys)
    let ?rest = "join (item_sep opt) (map (dump_member opt) kvs)"
    let ?q = "item_sep opt @ ?rest @ CHR ''}'' # r"
    have j: "join (item_sep opt) (map (dump_member opt) (kv # kvs)) = dump_member opt kv @ item_sep opt @ ?rest"
      using Cons by simp
    have "length (join (item_sep opt) (map (dump_member opt) (kv # kvs))) =
        length (dump_member opt kv) + length (item_sep opt) + length ?rest"
      unfolding j by simp
    then have len: "2 * length (dump opt (snd kv)) \<le> g" "2 * length ?rest + 2 \<le> g"
      using Cons.prems(3) f w by auto
    have "scan_value g (dump opt (snd kv) @ ?q) = Some (snd kv, ?q)"
      using Cons.prems len by (intro readsD num_stop_sep [OF assms(1)]) simp_all
    moreover have "skip_ws (w @ ?rest @ CHR ''}'' # r) = ?rest @ CHR ''}'' # r"
      using skip_ws_append [OF w(2)] Cons by (cases ys) (auto simp: dump_str_def)
    moreover have "scan_members g (?rest @ CHR ''}'' # r) = Some (kvs, r)"
      using Cons.prems(1) Cons len by (intro Cons.IH) auto
    ultimately have "scan_members f (dump_member opt kv @ ?q) = Some (kv # kvs, r)"
      using scan_members_step [OF assms(1), of g kv ?q] f w by simp
    then show ?thesis unfolding j by simp
  qed
qed simp

lemma reads_int: "reads opt (JInt i)"
  unfolding reads_def
proof (intro allI impI)
  fix f r assume "num_stop r" "2 * length (dump opt (JInt i)) \<le> f"
  moreover then obtain g where "f = Suc g"
    using dump_length_pos [of opt "JInt i"] by (cases f) auto
  ultimately show "scan_value f (dump opt (JInt i) @ r) = Some (JInt i, r)"
    using scan_value_int by simp
qed

lemma reads_str: "reads opt (JStr s)"
  unfolding reads_def
proof (intro allI impI)
  fix f r assume "2 * length (dump opt (JStr s)) \<le> f"
  then obtain g where "f = Suc g"
    using dump_length_pos [of opt "JStr s"] by (cases f) auto
  then show "scan_value f (dump opt (JStr s) @ r) = Some (JStr s, r)"
    using scan_value_str by simp
qed

lemma reads_const: "reads opt JNull" "reads opt (JBool b)"
  by (auto simp: reads_def scan_const_def starts_with_def dest!: Suc_le_D simp: eval_nat_numeral)

lemmas reads_atoms = reads_int reads_str reads_const

lemma dump_reads: "opts_ok opt \<Longrightarrow> wf_json j \<Longrightarrow> reads opt j"
proof (induction j rule: wf_json.induct)
  case (1 x)
  show ?case
    unfolding reads_def
  proof (intro allI impI)
    fix f r assume "num_stop r" "2 * length (dump opt (JFloat x)) \<le> f"
    moreover then obtain g where "f = Suc g"
      using dump_length_pos [of opt "JFloat x"] by (cases f) auto
    ultimately show "scan_value f (dump opt (JFloat x) @ r) = Some (JFloat x, r)"
      using 1 scan_value_float by simp
  qed
next
  case (2 xs)
  then have xs: "list_all (reads opt) xs" by (auto simp: list_all_iff)
  show ?case
    unfolding reads_def
  proof (intro allI impI)
    fix f r assume f: "2 * length (dump opt (JArr xs)) \<le> f"
    then obtain g where g: "f = Suc g" by (cases f) auto
    show "scan_value f (dump opt (JArr xs) @ r) = Some (JArr xs, r)"
    proof (cases xs)
      case (Cons y ys)
      let ?s = "join (item_sep opt) (map (dump opt) xs) @ CHR '']'' # r"
      have "scan_elems g ?s = Some (xs, r)"
        using f g Cons by (intro scan_elems_dump [OF "2.prems"(1) xs]) auto
      moreover obtain c t where "?s = c # t" "val_start c"
        using dump_start [of opt y] Cons by (cases ys) auto
      ultimately show ?thesis using g by (simp add: skip_ws_start val_start_def)
    qed (simp add: g)
  qed
next
  case (3 kvs)
  then have kvs: "list_all (\<lambda>kv. reads opt (snd kv)) kvs"
    by (fastforce simp: list_all_iff snds.simps)
  show ?case
    unfolding reads_def
  proof (intro allI impI)
    fix f r assume f: "2 * length (dump opt (JObj kvs)) \<le> f"
    then obtain g where g: "f = Suc g" by (cases f) auto
    show "scan_value f (dump opt (JObj kvs) @ r) = Some (JObj kvs, r)"
    proof (cases kvs)
      case (Cons y ys)
      let ?s = "join (item_sep opt) (map (dump_member opt) kvs) @ CHR ''}'' # r"
      have "scan_members g ?s = Some (kvs, r)"
        using f g Cons by (intro scan_members_dump [OF "3.prems"(1) kvs]) auto
      moreover obtain t where "?s = CHR 0x22 # t"
        using Cons by (cases ys) (auto simp: dump_str_def)
      ultimately show ?thesis using g "3.prems" dict_of_pairs_id [of kvs] by simp
    qed (simp add: g)
  qed
qed (simp_all add: reads_atoms)

lemma loads_dump:
  assumes "opts_ok opt" "wf_json j"
  shows "loads (dump opt j) = Some j"
proof -
  have "scan_value (Suc (2 * length (dump opt j))) (dump opt j @ []) = Some (j, [])"
    using readsD [OF dump_reads [OF assms]] num_stop_close(3) by (metis le_SucI order_refl)
  then show ?thesis
    using skip_ws_dump [of opt j "[]"] by (simp add: loads_def skip_ws_def)
qed

interpretation wire_code: codec "dump wire_opts" loads wf_json
  by unfold_locales (simp add: loads_dump)

interpretation file_code: codec "dump file_opts" loads wf_json
  by unfold_locales (simp add: loads_dump)

interpretation canon_code: codec "dump canon_opts" loads wf_json
  by unfold_locales (simp add: loads_dump)

section \<open>The fuel is enough\<close>

lemma skip_ws_length: "length (skip_ws s) \<le> length s"
  by (simp add: skip_ws_def length_dropWhile_le)

lemma skip_ws_ConsD: "skip_ws s = d # u \<Longrightarrow> length u < length s"
  using skip_ws_length [of s] by simp

lemma scan_frac_length: "scan_frac s = Some (ds, r) \<Longrightarrow> length r < length s"
  using length_dropWhile_le
  by (auto simp: scan_frac_def Let_def less_Suc_eq_le split: list.splits if_splits)

lemma scan_exp_length: "scan_exp s = Some (e, r) \<Longrightarrow> length r < length s"
proof (cases s)
  case (Cons c t)
  assume e: "scan_exp s = Some (e, r)"
  define t1 where "t1 = (if t \<noteq> [] \<and> (hd t = CHR ''-'' \<or> hd t = CHR ''+'') then tl t else t)"
  have "r = dropWhile is_dig t1"
    using e Cons by (auto simp: scan_exp_def t1_def Let_def split: if_splits)
  then have "length r \<le> length t1"
    by (simp add: length_dropWhile_le)
  also have "length t1 \<le> length t" by (simp add: t1_def)
  finally show ?thesis using Cons by simp
qed (simp add: scan_exp_def)

lemma num_tail_length: "num_tail sg ip s = (j, r) \<Longrightarrow> length r \<le> length s"
  by (auto simp: num_tail_def Let_def split: option.splits if_splits prod.splits
      dest!: scan_frac_length scan_exp_length)

lemma scan_number_length: "scan_number s = Some (j, r) \<Longrightarrow> length r < length s"
proof -
  assume a: "scan_number s = Some (j, r)"
  define t where "t = (if s \<noteq> [] \<and> hd s = CHR ''-'' then tl s else s)"
  have "int_part t \<noteq> []" "length r \<le> length (drop (length (int_part t)) t)"
    using a by (auto simp: scan_number_def t_def Let_def split: if_splits dest: num_tail_length)
  moreover have "t \<noteq> []"
    using \<open>int_part t \<noteq> []\<close> by (auto simp: int_part_def)
  ultimately have "length r < length t"
    by (cases t; cases "int_part t") auto
  also have "length t \<le> length s" by (simp add: t_def)
  finally show ?thesis .
qed

lemma scan_const_length: "w \<noteq> [] \<Longrightarrow> scan_const w v s = Some (j, r) \<Longrightarrow> length r < length s"
  by (cases w; cases s) (auto simp: scan_const_def starts_with_def split: if_splits)

lemma scan_length:
  "scan_value f s = Some (j, r) \<Longrightarrow> length r < length s"
  "scan_elems f s = Some (xs, r) \<Longrightarrow> length r < length s"
  "scan_members f s = Some (kvs, r) \<Longrightarrow> length r < length s"
proof (induction f s and f s and f s arbitrary: j r and xs r and kvs r
    rule: scan_value_scan_elems_scan_members.induct)
  case (3 f c t)
  consider (str) x where "scan_str t = Some (x, r)"
    | (empty) d where "skip_ws t = d # r"
    | (obj) d u kvs where "c \<noteq> CHR 0x22" "c = CHR ''{''" "skip_ws t = d # u" "d \<noteq> CHR ''}''"
        "scan_members f (d # u) = Some (kvs, r)"
    | (arr) d u xs where "c \<noteq> CHR 0x22" "c \<noteq> CHR ''{''" "c = CHR ''[''" "skip_ws t = d # u" "d \<noteq> CHR '']''"
        "scan_elems f (d # u) = Some (xs, r)"
    | (const) w v where "w \<noteq> []" "scan_const w v (c # t) = Some (j, r)"
    | (number) "scan_number (c # t) = Some (j, r)"
    using "3.prems" by (simp split: if_splits list.splits option.splits) blast+
  then show ?case
  proof cases
    case obj
    then show ?thesis
      using "3.IH"(1) [OF obj(1-5)] skip_ws_ConsD [OF obj(3)] by simp
  next
    case arr
    then show ?thesis
      using "3.IH"(2) [OF arr(1-6)] skip_ws_ConsD [OF arr(4)] by simp
  qed (auto dest!: scan_str_length skip_ws_ConsD scan_const_length scan_number_length)
next
  case (5 f s)
  from "5.prems" obtain v r1 d u where v: "scan_value f s = Some (v, r1)" and d: "skip_ws r1 = d # u"
    and rest: "r = u \<or> (\<exists>ys. d \<noteq> CHR '']'' \<and> d = CHR '','' \<and> scan_elems f (skip_ws u) = Some (ys, r))"
    by (auto split: option.splits list.splits if_splits)
  have "length u < length s"
    using "5.IH"(1) [OF v] skip_ws_ConsD [OF d] by linarith
  then show ?case
    using rest "5.IH"(2) [OF v refl d _ _] skip_ws_length [of u] by fastforce
next
  case (7 f s)
  from "7.prems" obtain q t k r1 d u v r2 e u2
    where s: "s = q # t" "q = CHR 0x22" and k: "scan_str t = Some (k, r1)"
    and d: "skip_ws r1 = d # u" "d = CHR '':''"
    and v: "scan_value f (skip_ws u) = Some (v, r2)" and e: "skip_ws r2 = e # u2"
    and rest: "r = u2 \<or> (\<exists>ys. e \<noteq> CHR ''}'' \<and> e = CHR '','' \<and> scan_members f (skip_ws u2) = Some (ys, r))"
    by (auto split: option.splits list.splits if_splits)
  have "length u2 < length s"
    using "7.IH"(1) [OF s(1) _ k refl d(1) _ v] s d skip_ws_length [of u] skip_ws_ConsD [OF d(1)]
      skip_ws_ConsD [OF e] scan_str_length [OF k] by simp
  then show ?case
    using rest "7.IH"(2) [OF s(1) _ k refl d(1) _ v refl e] s d skip_ws_length [of u2] by fastforce
qed simp_all

lemma scan_fuel:
  "2 * length s < f \<Longrightarrow> scan_value (Suc f) s = scan_value f s"
  "2 * length s + 1 < f \<Longrightarrow> scan_elems (Suc f) s = scan_elems f s"
  "2 * length s + 1 < f \<Longrightarrow> scan_members (Suc f) s = scan_members f s"
proof (induction f s and f s and f s rule: scan_value_scan_elems_scan_members.induct)
  case (3 f c t)
  have bound: "2 * length (d # u) + 1 < f" if "skip_ws t = d # u" for d u
    using "3.prems" skip_ws_ConsD [OF that] by simp
  show ?case
    unfolding scan_value.simps(3)
    using "3.IH" bound
    by (simp split: list.split del: scan_elems.simps scan_members.simps)
next
  case (5 f s)
  have v: "scan_value (Suc f) s = scan_value f s"
    using 5 by simp
  have "scan_elems (Suc f) (skip_ws u) = scan_elems f (skip_ws u)"
    if a: "scan_value f s = Some (x, r)" "skip_ws r = d # u" "d \<noteq> CHR '']''" "d = CHR '',''" for x r d u
  proof -
    have "2 * length (skip_ws u) + 1 < f"
      using "5.prems" scan_length(1) [OF a(1)] skip_ws_ConsD [OF a(2)] skip_ws_length [of u] by simp
    then show ?thesis using "5.IH"(2) a by simp
  qed
  then show ?case
    unfolding scan_elems.simps(2) v
    by (simp split: list.split option.split prod.split del: scan_elems.simps scan_value.simps)
next
  case (7 f s)
  have sv: "scan_value (Suc f) (skip_ws u) = scan_value f (skip_ws u)"
    and sm: "scan_value f (skip_ws u) = Some (v, r2) \<Longrightarrow> skip_ws r2 = e # u2 \<Longrightarrow> e \<noteq> CHR ''}'' \<Longrightarrow>
      e = CHR '','' \<Longrightarrow> scan_members (Suc f) (skip_ws u2) = scan_members f (skip_ws u2)"
    if a: "s = q # t" "\<not> q \<noteq> CHR 0x22" "scan_str t = Some (k, r)" "skip_ws r = d # u" "\<not> d \<noteq> CHR '':''"
    for q t k r d u v r2 e u2
  proof -
    have u: "2 * length (skip_ws u) + 3 < f"
      using "7.prems" a scan_str_length [OF a(3)] skip_ws_ConsD [OF a(4)] skip_ws_length [of u] by simp
    then show "scan_value (Suc f) (skip_ws u) = scan_value f (skip_ws u)"
      using "7.IH"(1) [OF a(1-3) refl a(4-5)] by simp
    assume b: "scan_value f (skip_ws u) = Some (v, r2)" "skip_ws r2 = e # u2" "e \<noteq> CHR ''}''" "e = CHR '',''"
    have "2 * length (skip_ws u2) + 1 < f"
      using u scan_length(1) [OF b(1)] skip_ws_ConsD [OF b(2)] skip_ws_length [of u2] by simp
    then show "scan_members (Suc f) (skip_ws u2) = scan_members f (skip_ws u2)"
      using "7.IH"(2) [OF a(1-3) refl a(4-5) b(1) refl b(2-4)] by simp
  qed
  show ?case
    unfolding scan_members.simps(2) [of "Suc f" s] scan_members.simps(2) [of f s]
    by (intro list.case_cong option.case_cong prod.case_cong if_cong refl)
      (simp_all only: sv sm not_True_eq_False not_False_eq_True simp_thms prod.inject)
qed simp_all

lemma scan_value_fuel:
  assumes "2 * length s < f" "f \<le> g"
  shows "scan_value g s = scan_value f s"
  using assms(2,1)
proof (induction g rule: dec_induct)
  case (step n)
  then show ?case using scan_fuel(1) [of s n] by simp
qed simp

lemma loads_fuel:
  assumes "2 * length s < f"
  shows "loads s = (case scan_value f (skip_ws s) of
     Some (j, r) \<Rightarrow> if skip_ws r = [] then Some j else None | None \<Rightarrow> None)"
proof -
  let ?t = "skip_ws s" and ?f0 = "Suc (2 * length (skip_ws s))"
  have "scan_value f ?t = scan_value ?f0 ?t" "scan_value (Suc (2 * length s)) ?t = scan_value ?f0 ?t"
    using assms skip_ws_length [of s] by (auto intro: scan_value_fuel)
  then show ?thesis by (simp add: loads_def)
qed

section \<open>What is read is well formed\<close>

lemma wf_num_tail: "num_tail sg ip s = (j, r) \<Longrightarrow> wf_json j"
  by (auto simp: num_tail_def Let_def wf_mk_dec split: option.splits prod.splits if_splits)

lemma wf_scan_number: "scan_number s = Some (j, r) \<Longrightarrow> wf_json j"
  by (auto simp: scan_number_def Let_def dest: wf_num_tail split: if_splits)

lemma wf_scan_const: "scan_const w v s = Some (j, r) \<Longrightarrow> j = v"
  by (auto simp: scan_const_def split: if_splits)

lemma snd_dict_of_pairs: "snd ` set (dict_of_pairs ps) \<subseteq> snd ` set ps"
proof -
  have "snd ` set (foldl (\<lambda>d (k, v). dset k v d) d ps) \<subseteq> snd ` set d \<union> snd ` set ps" for d
  proof (induction ps arbitrary: d)
    case (Cons p ps)
    have "snd ` set (dset (fst p) (snd p) d) \<subseteq> insert (snd p) (snd ` set d)"
      by (induction d) auto
    with Cons [of "dset (fst p) (snd p) d"] show ?case by (auto simp: split_beta)
  qed simp
  from this [of "[]"] show ?thesis by (simp add: dict_of_pairs_def)
qed

lemma wf_dict_of_pairs: "list_all (\<lambda>kv. wf_json (snd kv)) ps \<Longrightarrow> wf_json (JObj (dict_of_pairs ps))"
  using snd_dict_of_pairs [of ps] by (fastforce simp: distinct_dict_of_pairs list_all_iff)

lemma wf_scan:
  "scan_value f s = Some (j, r) \<Longrightarrow> wf_json j"
  "scan_elems f s = Some (xs, r) \<Longrightarrow> list_all wf_json xs"
  "scan_members f s = Some (kvs, r) \<Longrightarrow> list_all (\<lambda>kv. wf_json (snd kv)) kvs"
proof (induction f s and f s and f s arbitrary: j r and xs r and kvs r
    rule: scan_value_scan_elems_scan_members.induct)
  case (3 f c t)
  consider (atom) "case j of JStr _ \<Rightarrow> True | JArr [] \<Rightarrow> True | JObj [] \<Rightarrow> True | JNull \<Rightarrow> True | JBool _ \<Rightarrow> True
        | JFloat (Dec _ _) \<Rightarrow> False | JFloat _ \<Rightarrow> True | _ \<Rightarrow> False"
    | (obj) d u kvs where "c \<noteq> CHR 0x22" "c = CHR ''{''" "skip_ws t = d # u" "d \<noteq> CHR ''}''"
        "scan_members f (d # u) = Some (kvs, r)" "j = JObj (dict_of_pairs kvs)"
    | (arr) d u xs where "c \<noteq> CHR 0x22" "c \<noteq> CHR ''{''" "c = CHR ''[''" "skip_ws t = d # u" "d \<noteq> CHR '']''"
        "scan_elems f (d # u) = Some (xs, r)" "j = JArr xs"
    | (number) "scan_number (c # t) = Some (j, r)"
    using "3.prems" by (auto split: if_splits list.splits option.splits dest!: wf_scan_const)
  then show ?case
  proof cases
    case atom
    then show ?thesis by (auto split: json.splits list.splits pyfloat.splits)
  next
    case obj
    then show ?thesis using "3.IH"(1) [OF obj(1-5)] wf_dict_of_pairs by simp
  next
    case arr
    then show ?thesis using "3.IH"(2) [OF arr(1-6)] by simp
  next
    case number
    then show ?thesis by (rule wf_scan_number)
  qed
next
  case (5 f s)
  from "5.prems" obtain v r1 d u where v: "scan_value f s = Some (v, r1)" and d: "skip_ws r1 = d # u"
    and rest: "xs = [v] \<or> (\<exists>ys. d \<noteq> CHR '']'' \<and> d = CHR '','' \<and>
      scan_elems f (skip_ws u) = Some (ys, r) \<and> xs = v # ys)"
    by (auto split: option.splits list.splits if_splits)
  then show ?case
    using "5.IH"(1) [OF v] "5.IH"(2) [OF v refl d] by fastforce
next
  case (7 f s)
  from "7.prems" obtain q t k r1 d u v r2 e u2
    where s: "s = q # t" "\<not> q \<noteq> CHR 0x22" and k: "scan_str t = Some (k, r1)"
    and d: "skip_ws r1 = d # u" "\<not> d \<noteq> CHR '':''"
    and v: "scan_value f (skip_ws u) = Some (v, r2)" and e: "skip_ws r2 = e # u2"
    and rest: "kvs = [(k, v)] \<or> (\<exists>ys. e \<noteq> CHR ''}'' \<and> e = CHR '','' \<and>
      scan_members f (skip_ws u2) = Some (ys, r) \<and> kvs = (k, v) # ys)"
    by (auto split: option.splits list.splits if_splits)
  then show ?case
    using "7.IH"(1) [OF s k refl d v] "7.IH"(2) [OF s k refl d v refl e] by fastforce
qed simp_all

lemma wf_loads: "loads s = Some j \<Longrightarrow> wf_json j"
  by (auto simp: loads_def split: option.splits if_splits dest: wf_scan(1))

end
