(* ===== verification/Protocol.thy ===== *)
theory Protocol
  imports Json_Codec "HOL-Library.Word"
begin

text \<open>
  \<open>elo/transport/protocol.py\<close>: the message types, the framing of JSON messages over a
  byte stream (a 4-byte big-endian length, then the UTF-8 text, at most 1 MB) and the
  functions that build the messages. A message is a dictionary in the order in which the
  code writes its keys.
\<close>

section \<open>Message types\<close>

datatype message_type =
    HELLO | HELLO_ACK | QUERY | QUERY_RESP | INTEREST_UPDATE | TASK | RESULT | EVENT
  | HEARTBEAT | BYE | DHT_PING | DHT_PONG | DHT_FIND_NODE | DHT_FIND_NODE_RESP
  | DHT_FIND_VALUE | DHT_FIND_VALUE_RESP | DHT_STORE | DHT_STORE_RESP

fun mt :: "message_type \<Rightarrow> string" where
  "mt HELLO = ''hello''"
| "mt HELLO_ACK = ''hello_ack''"
| "mt QUERY = ''query''"
| "mt QUERY_RESP = ''query_resp''"
| "mt INTEREST_UPDATE = ''interest_update''"
| "mt TASK = ''task''"
| "mt RESULT = ''result''"
| "mt EVENT = ''event''"
| "mt HEARTBEAT = ''heartbeat''"
| "mt BYE = ''bye''"
| "mt DHT_PING = ''dht_ping''"
| "mt DHT_PONG = ''dht_pong''"
| "mt DHT_FIND_NODE = ''dht_find_node''"
| "mt DHT_FIND_NODE_RESP = ''dht_find_node_resp''"
| "mt DHT_FIND_VALUE = ''dht_find_value''"
| "mt DHT_FIND_VALUE_RESP = ''dht_find_value_resp''"
| "mt DHT_STORE = ''dht_store''"
| "mt DHT_STORE_RESP = ''dht_store_resp''"

lemma mt_inject [simp]: "mt a = mt b \<longleftrightarrow> a = b"
  by (cases a; cases b; simp)

section \<open>UTF-8\<close>

type_synonym byte = "8 word"

definition utf8_char :: "char \<Rightarrow> byte list" where
  "utf8_char c = (let n = (of_char c :: nat) in
     if n < 128 then [word_of_nat n] else [word_of_nat (192 + n div 64), word_of_nat (128 + n mod 64)])"

definition utf8_encode :: "string \<Rightarrow> byte list" where
  "utf8_encode s = concat (map utf8_char s)"

text \<open>Decoding stops at a malformed byte and at a code point above U+00FF.\<close>

fun utf8_decode :: "byte list \<Rightarrow> string option" where
  "utf8_decode [] = Some []"
| "utf8_decode (b # bs) =
     (if unat b < 128 then map_option (Cons (char_of (unat b))) (utf8_decode bs)
      else if unat b = 194 \<or> unat b = 195 then
        (case bs of
           [] \<Rightarrow> None
         | b2 # bs2 \<Rightarrow>
             if 128 \<le> unat b2 \<and> unat b2 < 192
             then map_option (Cons (char_of ((unat b - 192) * 64 + (unat b2 - 128)))) (utf8_decode bs2)
             else None)
      else None)"

lemma utf8_decode_char: "utf8_decode (utf8_char c @ bs) = map_option (Cons c) (utf8_decode bs)"
proof -
  define n where "n = (of_char c :: nat)"
  have c: "c = char_of n" and lt: "n < 256" using char_bound [of c] by (auto simp: n_def)
  show ?thesis
  proof (cases "n < 128")
    case True
    then show ?thesis
      using c by (simp add: utf8_char_def unat_of_nat n_def [symmetric])
  next
    case False
    define q r where "q = n div 64" and "r = n mod 64"
    have qr: "n = q * 64 + r" "r < 64" by (auto simp: q_def r_def)
    then have q: "q = 2 \<or> q = 3" using False lt by auto
    have "utf8_char c = [word_of_nat (192 + q), word_of_nat (128 + r)]"
      using False by (simp add: utf8_char_def n_def [symmetric] q_def r_def Let_def)
    moreover have "unat (word_of_nat (192 + q) :: byte) = 192 + q"
      "unat (word_of_nat (128 + r) :: byte) = 128 + r"
      using q qr by (auto simp: unat_of_nat simp del: of_nat_add)
    ultimately show ?thesis
      using q qr c by (auto simp del: of_nat_add)
  qed
qed

lemma utf8_decode_encode [simp]: "utf8_decode (utf8_encode s) = Some s"
  by (induction s) (simp_all add: utf8_encode_def utf8_decode_char)

interpretation utf8: codec utf8_encode utf8_decode "\<lambda>_. True"
  by unfold_locales simp

section \<open>Frames\<close>

definition FRAME_HEADER_SIZE :: nat where "FRAME_HEADER_SIZE = 4"

definition MAX_PAYLOAD_SIZE :: nat where "MAX_PAYLOAD_SIZE = 1024 * 1024"

text \<open>\<open>struct.pack("!I", n)\<close> and \<open>struct.unpack\<close>: a 32-bit big-endian word.\<close>

definition pack_u32 :: "nat \<Rightarrow> byte list" where
  "pack_u32 n = [word_of_nat (n div 2 ^ 24), word_of_nat (n div 2 ^ 16), word_of_nat (n div 2 ^ 8),
     word_of_nat n]"

definition unpack_u32 :: "byte list \<Rightarrow> nat" where
  "unpack_u32 bs = foldl (\<lambda>a b. 256 * a + unat b) 0 bs"

definition encode_frame :: "pydict \<Rightarrow> exn + byte list" where
  "encode_frame payload = (let d = utf8_encode (dump wire_opts (JObj payload)) in
     if length d > MAX_PAYLOAD_SIZE then Inl FrameErr else Inr (pack_u32 (length d) @ d))"

text \<open>
  \<open>read_frame\<close> on what the stream has received so far. It waits (\<open>Need_more\<close>) while
  bytes are missing and the peer has not closed; a closed stream gives the incomplete-read
  error. A frame that is too long, or a body that is not JSON, is an error; otherwise the
  value is returned with the bytes that follow the frame.
\<close>

datatype read_outcome = Need_more | Fail exn | Got json "byte list"

definition read_frame :: "bool \<Rightarrow> byte list \<Rightarrow> read_outcome" where
  "read_frame eof buf =
     (if length buf < FRAME_HEADER_SIZE then (if eof then Fail IncompleteReadErr else Need_more)
      else
        (let n = unpack_u32 (take FRAME_HEADER_SIZE buf);
             rest = drop FRAME_HEADER_SIZE buf
         in if n > MAX_PAYLOAD_SIZE then Fail FrameErr
            else if length rest < n then (if eof then Fail IncompleteReadErr else Need_more)
            else (case utf8_decode (take n rest) of
                    None \<Rightarrow> Fail ValueErr
                  | Some s \<Rightarrow> (case loads s of None \<Rightarrow> Fail ValueErr | Some j \<Rightarrow> Got j (drop n rest)))))"

text \<open>What a writer of messages leaves on a stream: whole frames.\<close>

inductive framed :: "byte list \<Rightarrow> bool" where
  framed_none: "framed []"
| framed_more: "framed bs \<Longrightarrow> encode_frame m = Inr fr \<Longrightarrow> framed (bs @ fr)"

lemma framed_one [intro]: "encode_frame m = Inr fr \<Longrightarrow> framed fr"
  using framed_more [OF framed_none] by simp

lemma framed_append: "framed cs \<Longrightarrow> framed bs \<Longrightarrow> framed (bs @ cs)"
proof (induction rule: framed.induct)
  case (framed_more cs m fr)
  then show ?case using framed.framed_more [of "bs @ cs" m fr] by simp
qed simp

lemma length_pack_u32 [simp]: "length (pack_u32 n) = 4"
  by (simp add: pack_u32_def)

lemma unpack_pack_u32: "n < 2 ^ 32 \<Longrightarrow> unpack_u32 (pack_u32 n) = n"
proof -
  assume n: "n < 2 ^ 32"
  define a b c where "a = n div 256" and "b = a div 256" and "c = b div 256"
  have byte: "unat (word_of_nat k :: byte) = k mod 256" for k
    by (simp add: unat_of_nat)
  have "pack_u32 n = [word_of_nat c, word_of_nat b, word_of_nat a, word_of_nat n]"
    by (simp add: pack_u32_def a_def b_def c_def flip: div_mult2_eq)
  moreover have "c < 256"
    using n by (simp add: a_def b_def c_def flip: div_mult2_eq)
  moreover have "n = 256 * a + n mod 256" "a = 256 * b + a mod 256" "b = 256 * c + b mod 256"
    by (simp_all add: a_def b_def c_def)
  ultimately show ?thesis
    by (simp add: unpack_u32_def byte)
qed

lemma encode_frame_Inr:
  "encode_frame m = Inr fr \<longleftrightarrow> (let d = utf8_encode (dump wire_opts (JObj m)) in
     length d \<le> MAX_PAYLOAD_SIZE \<and> fr = pack_u32 (length d) @ d)"
  by (auto simp: encode_frame_def Let_def)

lemma encode_frame_Inl: "encode_frame m = Inl e \<Longrightarrow> e = FrameErr"
  by (auto simp: encode_frame_def Let_def split: if_splits)

lemma frame_body_length: "length d \<le> MAX_PAYLOAD_SIZE \<Longrightarrow> unpack_u32 (pack_u32 (length d)) = length d"
  by (rule unpack_pack_u32) (simp add: MAX_PAYLOAD_SIZE_def)

lemma read_encode_frame:
  assumes "wf_dict m" "encode_frame m = Inr fr"
  shows "read_frame eof (fr @ rest) = Got (JObj m) rest"
proof -
  define d where "d = utf8_encode (dump wire_opts (JObj m))"
  have fr: "fr = pack_u32 (length d) @ d" "length d \<le> MAX_PAYLOAD_SIZE"
    using assms(2) by (auto simp: encode_frame_Inr d_def Let_def)
  have "loads (dump wire_opts (JObj m)) = Some (JObj m)"
    using assms(1) wire_code.dec_enc [of "JObj m"] by (simp add: wf_dict_def)
  then show ?thesis
    using fr frame_body_length [OF fr(2)]
    by (simp add: read_frame_def FRAME_HEADER_SIZE_def Let_def) (simp add: d_def)
qed

text \<open>However the network splits a frame, the reader waits for the missing bytes.\<close>

lemma read_frame_partial:
  assumes "encode_frame m = Inr fr" "strict_prefix buf fr"
  shows "read_frame False buf = Need_more" "read_frame True buf = Fail IncompleteReadErr"
proof -
  define d where "d = utf8_encode (dump wire_opts (JObj m))"
  have fr: "fr = pack_u32 (length d) @ d" "length d \<le> MAX_PAYLOAD_SIZE"
    using assms(1) by (auto simp: encode_frame_Inr d_def Let_def)
  have len: "length buf < 4 + length d"
    using prefix_length_less [OF assms(2)] fr by simp
  have buf: "buf = take (length buf) fr"
    using assms(2) by (auto simp: strict_prefix_def prefix_def)
  have hd: "take 4 buf = pack_u32 (length d)" if "4 \<le> length buf"
    using that fr by (subst buf) (simp add: min_def)
  have "read_frame eof buf = (if eof then Fail IncompleteReadErr else Need_more)" for eof
    using len hd frame_body_length [OF fr(2)] fr(2)
    by (auto simp: read_frame_def FRAME_HEADER_SIZE_def Let_def)
  then show "read_frame False buf = Need_more" "read_frame True buf = Fail IncompleteReadErr"
    by simp_all
qed

text \<open>
  A stream of self-delimiting items: the reader that takes one item off the front of what
  the writer appended. Read as many items as were written and the rest is untouched.
\<close>

fun read_n :: "('b list \<Rightarrow> ('a \<times> 'b list) option) \<Rightarrow> nat \<Rightarrow> 'b list \<Rightarrow> ('a list \<times> 'b list) option" where
  "read_n nxt 0 s = Some ([], s)"
| "read_n nxt (Suc n) s = (case nxt s of
     None \<Rightarrow> None
   | Some (x, r) \<Rightarrow> map_option (apfst (Cons x)) (read_n nxt n r))"

locale stream_codec =
  fixes put :: "'a \<Rightarrow> 'b list"
    and nxt :: "'b list \<Rightarrow> ('a \<times> 'b list) option"
    and ok :: "'a \<Rightarrow> bool"
  assumes nxt_put: "ok x \<Longrightarrow> nxt (put x @ rest) = Some (x, rest)"
begin

lemma read_n_puts:
  "list_all ok xs \<Longrightarrow> read_n nxt (length xs) (concat (map put xs) @ rest) = Some (xs, rest)"
  by (induction xs) (simp_all add: nxt_put)

lemma puts_inject:
  "list_all ok xs \<Longrightarrow> list_all ok ys \<Longrightarrow> length xs = length ys \<Longrightarrow>
   concat (map put xs) = concat (map put ys) \<Longrightarrow> xs = ys"
  using read_n_puts [of xs "[]"] read_n_puts [of ys "[]"] by simp

end

definition frame_ok :: "pydict \<Rightarrow> bool" where
  "frame_ok m \<longleftrightarrow> wf_dict m \<and> (\<exists>fr. encode_frame m = Inr fr)"

definition frame_bytes :: "pydict \<Rightarrow> byte list" where
  "frame_bytes m = (case encode_frame m of Inl _ \<Rightarrow> [] | Inr fr \<Rightarrow> fr)"

definition next_frame :: "byte list \<Rightarrow> (pydict \<times> byte list) option" where
  "next_frame buf = (case read_frame False buf of Got (JObj m) rest \<Rightarrow> Some (m, rest) | _ \<Rightarrow> None)"

interpretation frames: stream_codec frame_bytes next_frame frame_ok
  by unfold_locales (auto simp: frame_ok_def frame_bytes_def next_frame_def read_encode_frame)

fun text_size :: "json \<Rightarrow> nat" where
  "text_size JNull = 4"
| "text_size (JBool b) = 5"
| "text_size (JInt i) = length (show_int i)"
| "text_size (JFloat x) = length (dump_float x)"
| "text_size (JStr s) = 6 * length s + 2"
| "text_size (JArr xs) = 2 + sum_list (map (\<lambda>x. text_size x + 2) xs)"
| "text_size (JObj kvs) = 2 + sum_list (map (\<lambda>kv. 6 * length (fst kv) + text_size (snd kv) + 6) kvs)"

lemma esc_size: "length (esc_char ea c) \<le> 6"
  by (simp add: esc_char_def Let_def)

lemma dump_str_size: "length (dump_str ea s) \<le> 6 * length s + 2"
proof -
  have "length (concat (map (esc_char ea) s)) \<le> 6 * length s"
  proof (induction s)
    case (Cons c s)
    then show ?case using esc_size [of ea c] by simp
  qed simp
  then show ?thesis by (simp add: dump_str_def)
qed

lemma join_size: "length (join sep xs) \<le> sum_list (map (\<lambda>x. length x + length sep) xs)"
proof (induction sep xs rule: join.induct)
  case (3 sep x y ys)
  then show ?case by simp
qed simp_all

lemma dump_size:
  assumes "length (item_sep opt) \<le> 2" "length (key_sep opt) \<le> 2"
  shows "length (dump opt j) \<le> text_size j"
proof (induction j)
  case (JStr s)
  show ?case using dump_str_size by simp
next
  case (JArr xs)
  have "sum_list (map (\<lambda>x. length x + length (item_sep opt)) (map (dump opt) xs)) \<le>
      sum_list (map (\<lambda>x. text_size x + 2) xs)"
    unfolding map_map comp_def using JArr assms(1) by (intro sum_list_mono) (fastforce intro: add_mono [where d = "2::nat", simplified])
  then show ?case using join_size [of "item_sep opt" "map (dump opt) xs"] by simp
next
  case (JObj kvs)
  let ?d = "\<lambda>kv. dump_str (ensure_ascii opt) (fst kv) @ key_sep opt @ dump opt (snd kv)"
  have "length (?d kv) + length (item_sep opt) \<le> 6 * length (fst kv) + text_size (snd kv) + 6" if "kv \<in> set kvs" for kv
  proof -
    have "length (dump opt (snd kv)) \<le> text_size (snd kv)"
      using JObj [of kv "snd kv"] that by (cases kv) auto
    then show ?thesis using assms dump_str_size [of "ensure_ascii opt" "fst kv"] by simp
  qed
  then have "sum_list (map (\<lambda>x. length x + length (item_sep opt)) (map ?d kvs)) \<le>
      sum_list (map (\<lambda>kv. 6 * length (fst kv) + text_size (snd kv) + 6) kvs)"
    unfolding map_map comp_def by (intro sum_list_mono) blast
  then show ?case using join_size [of "item_sep opt" "map ?d kvs"] by simp
qed simp_all

lemma utf8_size: "length (utf8_encode s) \<le> 2 * length s"
  by (induction s) (simp_all add: utf8_encode_def utf8_char_def Let_def)

lemma frame_fits:
  assumes "wf_dict m" "2 * text_size (JObj m) \<le> MAX_PAYLOAD_SIZE"
  shows "\<exists>fr. encode_frame m = Inr fr"
proof -
  have "length (dump wire_opts (JObj m)) \<le> text_size (JObj m)" by (rule dump_size) (simp_all add: wire_opts_def)
  then have "length (utf8_encode (dump wire_opts (JObj m))) \<le> MAX_PAYLOAD_SIZE"
    using utf8_size [of "dump wire_opts (JObj m)"] assms(2) by linarith
  then show ?thesis by (simp add: encode_frame_def Let_def)
qed

section \<open>Message builders\<close>

definition hello_msg :: "json \<Rightarrow> json \<Rightarrow> json list \<Rightarrow> string \<Rightarrow> string \<Rightarrow> pydict" where
  "hello_msg node_id caps interests tracker version =
     [(''type'', JStr (mt HELLO)), (''node_id'', node_id), (''caps'', caps),
      (''interests'', JArr interests), (''tracker'', JStr tracker), (''version'', JStr version)]"

definition hello_ack_msg :: "json \<Rightarrow> json \<Rightarrow> json list \<Rightarrow> string \<Rightarrow> json list option \<Rightarrow> pydict" where
  "hello_ack_msg node_id caps interests tracker known_peers =
     [(''type'', JStr (mt HELLO_ACK)), (''node_id'', node_id), (''caps'', caps),
      (''interests'', JArr interests), (''tracker'', JStr tracker)]
     @ (case known_peers of None \<Rightarrow> [] | Some ps \<Rightarrow> [(''known_peers'', JArr ps)])"

definition query_msg :: "json \<Rightarrow> json \<Rightarrow> json \<Rightarrow> json \<Rightarrow> pydict" where
  "query_msg capability query_id ttl origin =
     [(''type'', JStr (mt QUERY)), (''capability'', capability), (''id'', query_id), (''ttl'', ttl)]
     @ (if py_truthy origin then [(''origin'', origin)] else [])"

definition query_resp_msg :: "json \<Rightarrow> json list \<Rightarrow> pydict" where
  "query_resp_msg query_id nodes =
     [(''type'', JStr (mt QUERY_RESP)), (''id'', query_id), (''nodes'', JArr nodes)]"

definition interest_update_msg :: "json list \<Rightarrow> pydict" where
  "interest_update_msg interests =
     [(''type'', JStr (mt INTEREST_UPDATE)), (''interests'', JArr interests)]"

text \<open>The clock reading \<open>now\<close> is \<open>int(time.time())\<close>.\<close>

definition task_msg :: "json \<Rightarrow> json \<Rightarrow> json \<Rightarrow> json \<Rightarrow> json \<Rightarrow> string \<Rightarrow> int \<Rightarrow> pydict" where
  "task_msg task_id target caller capability payload signature now =
     [(''type'', JStr (mt TASK)), (''id'', task_id), (''target'', target), (''caller'', caller),
      (''capability'', capability), (''payload'', payload), (''signature'', JStr signature),
      (''protocol'', JStr ''elo.v1''), (''timestamp'', JInt now), (''ttl_s'', JInt 60)]"

definition result_msg :: "json \<Rightarrow> string \<Rightarrow> json option \<Rightarrow> json option \<Rightarrow> string \<Rightarrow> pydict" where
  "result_msg task_id status payload error signature =
     [(''type'', JStr (mt RESULT)), (''id'', task_id), (''status'', JStr status),
      (''protocol'', JStr ''elo.v1'')]
     @ (case payload of None \<Rightarrow> [] | Some p \<Rightarrow> [(''payload'', p)])
     @ (case error of None \<Rightarrow> [] | Some e \<Rightarrow> [(''error'', e)])
     @ (if signature \<noteq> [] then [(''signature'', JStr signature)] else [])"

definition heartbeat_msg :: "json \<Rightarrow> int \<Rightarrow> pydict" where
  "heartbeat_msg node_id now =
     [(''type'', JStr (mt HEARTBEAT)), (''node_id'', node_id), (''ts'', JInt now)]"

definition bye_msg :: pydict where
  "bye_msg = [(''type'', JStr (mt BYE))]"

lemmas msg_defs = hello_msg_def hello_ack_msg_def query_msg_def query_resp_msg_def
  interest_update_msg_def task_msg_def result_msg_def heartbeat_msg_def bye_msg_def

lemma small_frame_ok:
  "wf_dict m \<Longrightarrow> length (utf8_encode (dump wire_opts (JObj m))) \<le> MAX_PAYLOAD_SIZE \<Longrightarrow> frame_ok m"
  by (simp add: frame_ok_def encode_frame_def Let_def not_less)

lemma bye_frame_ok: "frame_ok bye_msg"
  by (rule small_frame_ok)
    (simp_all add: wf_dict_def bye_msg_def utf8_encode_def utf8_char_def wire_opts_def dump_str_def
      esc_char_def MAX_PAYLOAD_SIZE_def Let_def)

section \<open>Properties\<close>

lemma read_frame_Got:
  assumes "read_frame eof buf = Got j rest"
  shows "\<exists>hdr body. buf = hdr @ body @ rest \<and> length hdr = 4 \<and> length body = unpack_u32 hdr \<and>
    length body \<le> MAX_PAYLOAD_SIZE \<and> (\<exists>s. utf8_decode body = Some s \<and> loads s = Some j)"
proof -
  let ?h = "take 4 buf" and ?r = "drop 4 buf"
  have h: "4 \<le> length buf"
    using assms by (auto simp: read_frame_def FRAME_HEADER_SIZE_def split: if_splits)
  define n where "n = unpack_u32 ?h"
  have n: "n \<le> MAX_PAYLOAD_SIZE" "n \<le> length ?r"
    using assms h by (auto simp: read_frame_def FRAME_HEADER_SIZE_def Let_def n_def split: if_splits)
  then have d: "rest = drop n ?r \<and> (\<exists>s. utf8_decode (take n ?r) = Some s \<and> loads s = Some j)"
    using assms h by (auto simp: read_frame_def FRAME_HEADER_SIZE_def Let_def n_def split: option.splits)
  have "buf = ?h @ take n ?r @ drop n ?r" by (metis append_take_drop_id)
  then have "buf = ?h @ take n ?r @ rest" using d by simp
  moreover have "length ?h = 4" "length (take n ?r) = unpack_u32 ?h" using h n by (auto simp: n_def)
  ultimately show ?thesis using n(1) d by (intro exI [of _ ?h] exI [of _ "take n ?r"]) (auto simp: n_def)
qed

text \<open>
  C23: a stream of frames is read back exactly. Whatever messages are written one after the
  other, the reader takes the same messages off the front of the stream in the same order and
  leaves the bytes that follow untouched.
\<close>

theorem frames_roundtrip:
  assumes "list_all frame_ok ms"
  shows "read_n next_frame (length ms) (concat (map frame_bytes ms) @ rest) = Some (ms, rest)"
  using assms by (rule frames.read_n_puts)

theorem frames_roundtrip_witness:
  "read_n next_frame 1 (frame_bytes bye_msg @ [7]) = Some ([bye_msg], [7])"
  using frames_roundtrip [of "[bye_msg]" "[7]"] bye_frame_ok by simp

text \<open>
  a frame that has arrived in part is never misread. On every proper prefix of a frame,
  its header's included, the reader asks for more bytes while the stream is open, and reports
  an incomplete read once it is closed.
\<close>

lemma partial_frame_waits:
  assumes "encode_frame m = Inr fr" "strict_prefix buf fr"
  shows "read_frame False buf = Need_more \<and> read_frame True buf = Fail IncompleteReadErr"
  using read_frame_partial [OF assms] by simp

lemma partial_frame_waits_witness: "read_frame False [] = Need_more \<and> read_frame True [] = Fail IncompleteReadErr"
proof -
  obtain fr where fr: "encode_frame bye_msg = Inr fr" using bye_frame_ok by (auto simp: frame_ok_def)
  then have "strict_prefix [] fr" by (auto simp: encode_frame_Inr Let_def pack_u32_def)
  with fr show ?thesis by (rule partial_frame_waits)
qed

text \<open>
  C24: the frame limit binds both sides. The writer refuses exactly the messages whose text has
  more than 1 MB; a message the reader takes has a 4-byte header and a body of the length it
  announces, at most 1 MB; and a header above the limit is refused at once, body or not.
\<close>

theorem frame_limit:
  shows "(encode_frame m = Inl FrameErr \<longleftrightarrow> length (utf8_encode (dump wire_opts (JObj m))) > MAX_PAYLOAD_SIZE) \<and>
    (read_frame eof buf = Got j rest \<longrightarrow> (\<exists>hdr body. buf = hdr @ body @ rest \<and> length hdr = 4 \<and>
       length body = unpack_u32 hdr \<and> length body \<le> MAX_PAYLOAD_SIZE)) \<and>
    (4 \<le> length buf \<and> unpack_u32 (take 4 buf) > MAX_PAYLOAD_SIZE \<longrightarrow> read_frame eof buf = Fail FrameErr)"
proof (intro conjI impI)
  show "encode_frame m = Inl FrameErr \<longleftrightarrow> length (utf8_encode (dump wire_opts (JObj m))) > MAX_PAYLOAD_SIZE"
    by (simp add: encode_frame_def Let_def)
next
  assume "read_frame eof buf = Got j rest"
  from read_frame_Got [OF this] show "\<exists>hdr body. buf = hdr @ body @ rest \<and> length hdr = 4 \<and>
       length body = unpack_u32 hdr \<and> length body \<le> MAX_PAYLOAD_SIZE" by blast
next
  assume "4 \<le> length buf \<and> unpack_u32 (take 4 buf) > MAX_PAYLOAD_SIZE"
  then show "read_frame eof buf = Fail FrameErr" by (simp add: read_frame_def FRAME_HEADER_SIZE_def Let_def)
qed

lemma oversized_header: "unpack_u32 [255, 255, 255, 255] > MAX_PAYLOAD_SIZE"
  by (simp add: unpack_u32_def MAX_PAYLOAD_SIZE_def)

theorem frame_limit_witness: "read_frame False [255, 255, 255, 255] = Fail FrameErr"
  using frame_limit [of bye_msg False "[255, 255, 255, 255]" JNull "[]"] oversized_header by simp

end
