(* ===== verification/Pending.thy ===== *)
theory Pending
  imports Json_Codec
begin

text \<open>
  \<open>elo/pending_queue.py\<close>: the tasks waiting for a retry, kept in a text file with one JSON
  object per line. A task read back holds whatever values the line carries. The file is its
  text, or None when it does not exist; an operation that fails on the file system leaves it
  as it was and returns as the code does (it logs the error). The theory \<open>Queue_Dir\<close> puts the
  file in its directory and shows which failing calls do leave it as it was.
\<close>

record pending_task =
  p_task_id :: json
  p_target_node :: json
  p_capability :: json
  p_payload :: json
  p_created_at :: json
  p_retries :: json
  p_ttl_s :: json

definition pending_to_dict :: "pending_task \<Rightarrow> pydict" where
  "pending_to_dict t =
     [(''task_id'', p_task_id t), (''target_node'', p_target_node t), (''capability'', p_capability t),
      (''payload'', p_payload t), (''created_at'', p_created_at t), (''retries'', p_retries t),
      (''ttl_s'', p_ttl_s t)]"

text \<open>\<open>d["k"]\<close>.\<close>

definition dict_item :: "json \<Rightarrow> string \<Rightarrow> exn + json" where
  "dict_item d k = (case d of
     JObj kvs \<Rightarrow> (case map_of kvs k of None \<Rightarrow> Inl KeyErr | Some v \<Rightarrow> Inr v)
   | _ \<Rightarrow> Inl TypeErr)"

definition pending_from_dict :: "json \<Rightarrow> exn + pending_task" where
  "pending_from_dict d =
     bindE (dict_item d ''task_id'') (\<lambda>task_id.
     bindE (dict_item d ''target_node'') (\<lambda>target_node.
     bindE (dict_item d ''capability'') (\<lambda>capability.
     bindE (dict_item d ''payload'') (\<lambda>payload.
     bindE (dict_item d ''created_at'') (\<lambda>created_at.
     bindE (py_get d ''retries'' (JInt 0)) (\<lambda>retries.
     bindE (py_get d ''ttl_s'' (JInt 60)) (\<lambda>ttl_s.
       Inr \<lparr>p_task_id = task_id, p_target_node = target_node, p_capability = capability,
            p_payload = payload, p_created_at = created_at, p_retries = retries, p_ttl_s = ttl_s\<rparr>)))))))"

type_synonym queue_file = "string option"

datatype io = Io_ok | Io_fail

definition pending_line :: "pending_task \<Rightarrow> string" where
  "pending_line t = dump file_opts (JObj (pending_to_dict t)) @ [CHR 0x0A]"

definition enqueue :: "io \<Rightarrow> pending_task \<Rightarrow> queue_file \<Rightarrow> queue_file" where
  "enqueue io t f = (case io of
     Io_fail \<Rightarrow> f
   | Io_ok \<Rightarrow> Some ((case f of None \<Rightarrow> [] | Some s \<Rightarrow> s) @ pending_line t))"

text \<open>Text mode reads \<open>\r\n\<close> and \<open>\r\<close> as a newline.\<close>

fun univ_newlines :: "string \<Rightarrow> string" where
  "univ_newlines [] = []"
| "univ_newlines [c] = [if c = CHR 0x0D then CHR 0x0A else c]"
| "univ_newlines (c # d # s) =
     (if c = CHR 0x0D then
        (if d = CHR 0x0A then CHR 0x0A # univ_newlines s else CHR 0x0A # univ_newlines (d # s))
      else c # univ_newlines (d # s))"

text \<open>One line: blank lines and lines that do not decode to a task are skipped.\<close>

definition load_line :: "string \<Rightarrow> pending_task option" where
  "load_line line =
     (let s = py_strip line in
      if s = [] then None
      else (case loads s of
              None \<Rightarrow> None
            | Some d \<Rightarrow> (case pending_from_dict d of Inl _ \<Rightarrow> None | Inr t \<Rightarrow> Some t)))"

definition load_all :: "io \<Rightarrow> queue_file \<Rightarrow> pending_task list" where
  "load_all io f = (case f of
     None \<Rightarrow> []
   | Some s \<Rightarrow> (case io of
       Io_fail \<Rightarrow> []
     | Io_ok \<Rightarrow> List.map_filter load_line (file_lines (univ_newlines s))))"

definition save_all :: "io \<Rightarrow> pending_task list \<Rightarrow> queue_file \<Rightarrow> queue_file" where
  "save_all io ts f = (case io of
     Io_fail \<Rightarrow> f
   | Io_ok \<Rightarrow> Some (concat (map pending_line ts)))"

section \<open>Tasks and lines\<close>

definition wf_pending :: "pending_task \<Rightarrow> bool" where
  "wf_pending t \<longleftrightarrow> wf_dict (pending_to_dict t)"

lemma wf_pending_iff:
  "wf_pending t \<longleftrightarrow> list_all wf_json [p_task_id t, p_target_node t, p_capability t, p_payload t,
     p_created_at t, p_retries t, p_ttl_s t]"
  by (simp add: wf_pending_def wf_dict_def pending_to_dict_def)

lemma pending_from_to_dict: "pending_from_dict (JObj (pending_to_dict t)) = Inr t"
  by (simp add: pending_from_dict_def pending_to_dict_def dict_item_def dget_def)

text \<open>The text of a value has no control character, so a line ends only at its newline.\<close>

definition printable :: "string \<Rightarrow> bool" where
  "printable s \<longleftrightarrow> list_all (\<lambda>c. 32 \<le> (of_char c :: nat)) s"

lemma printable_append [simp]: "printable (a @ b) \<longleftrightarrow> printable a \<and> printable b"
  by (simp add: printable_def)

lemma printable_Cons [simp]: "printable (c # b) \<longleftrightarrow> 32 \<le> (of_char c :: nat) \<and> printable b"
  by (simp add: printable_def)

lemma printable_Nil [simp]: "printable []"
  by (simp add: printable_def)

lemma printable_digits: "list_all is_dig s \<Longrightarrow> printable s"
  by (auto simp: printable_def list_all_iff is_dig_def dest!: bspec)

lemma printable_show_nat [simp]: "printable (show_nat n)"
  by (rule printable_digits) (rule show_nat_all_dig)

lemma printable_esc_char: "printable (esc_char ea c)"
proof -
  have "(32 :: nat) \<le> of_char (hex_digit n)" if "n < 16" for n
    using that by (simp add: hex_digit_def)
  moreover have "(of_char c :: nat) div 16 < 16"
    using char_bound [of c] by (intro less_mult_imp_div_less) simp
  ultimately show ?thesis by (auto simp: esc_char_def Let_def)
qed

lemma printable_dump_str: "printable (dump_str ea s)"
  by (induction s) (use printable_esc_char in \<open>auto simp: dump_str_def\<close>)

lemma printable_join: "printable sep \<Longrightarrow> list_all printable xs \<Longrightarrow> printable (join sep xs)"
  by (induction sep xs rule: join.induct) auto

lemma printable_dump:
  assumes "printable (item_sep opt)" "printable (key_sep opt)"
  shows "printable (dump opt j)"
proof (induction j)
  case (JFloat x)
  then show ?case
    by (cases x) (auto simp: Let_def intro: printable_digits pad_digits_dig)
next
  case (JArr xs)
  then show ?case
    using assms by (auto simp: list_all_iff intro!: printable_join)
next
  case (JObj kvs)
  then have "printable (dump opt (snd kv))" if "kv \<in> set kvs" for kv
    using that by (cases kv) (auto simp: snds.simps)
  then show ?case
    using assms by (auto simp: list_all_iff printable_dump_str intro!: printable_join)
qed (use assms in \<open>auto simp: show_int_def printable_dump_str\<close>)

lemma printable_line: "printable (dump file_opts j)"
  by (simp add: printable_dump file_opts_def)

lemma printable_no_nl: "printable s \<Longrightarrow> CHR 0x0A \<notin> set s \<and> CHR 0x0D \<notin> set s"
  by (auto simp: printable_def list_all_iff)

lemma univ_newlines_id: "CHR 0x0D \<notin> set s \<Longrightarrow> univ_newlines s = s"
  by (induction s rule: univ_newlines.induct) auto

lemma pending_line_no_cr: "CHR 0x0D \<notin> set (pending_line t)"
  using printable_no_nl [OF printable_line] by (simp add: pending_line_def del: dump.simps)

lemma py_strip_line: "py_strip (pending_line t) = dump file_opts (JObj (pending_to_dict t))"
proof -
  let ?d = "dump file_opts (JObj (pending_to_dict t))"
  have "py_strip (pending_line t) = py_strip ?d"
    unfolding pending_line_def by (rule py_strip_snoc_space) (simp add: py_space_def)
  also have "\<dots> = ?d"
    by (rule py_strip_id) (simp_all add: py_space_def)
  finally show ?thesis .
qed

lemma load_line_pending_line: "wf_pending t \<Longrightarrow> load_line (pending_line t) = Some t"
  using file_code.dec_enc [of "JObj (pending_to_dict t)"]
  by (simp add: load_line_def py_strip_line pending_from_to_dict wf_pending_def wf_dict_def Let_def
      del: dump.simps)

lemma file_lines_pending:
  "file_lines (concat (map pending_line ts) @ s) = map pending_line ts @ file_lines s"
proof (induction ts)
  case (Cons t ts)
  have "CHR 0x0A \<notin> set (dump file_opts (JObj (pending_to_dict t)))"
    using printable_no_nl [OF printable_line] by blast
  with Cons show ?case
    by (simp add: pending_line_def file_lines_append del: dump.simps)
qed simp

lemma load_lines_pending:
  "list_all wf_pending ts \<Longrightarrow> List.map_filter load_line (map pending_line ts) = ts"
  by (induction ts) (simp_all add: List.map_filter_simps load_line_pending_line)

section \<open>The queue as a store of tasks\<close>

text \<open>
  The interface the node relies on: what is saved is loaded back, an appended task comes
  last, and the operations keep the store usable.
\<close>

locale task_store =
  fixes load :: "'s \<Rightarrow> 't list"
    and save :: "'t list \<Rightarrow> 's \<Rightarrow> 's"
    and append :: "'t \<Rightarrow> 's \<Rightarrow> 's"
    and ok :: "'t \<Rightarrow> bool"
    and inv :: "'s \<Rightarrow> bool"
  assumes load_save: "list_all ok ts \<Longrightarrow> load (save ts s) = ts"
    and inv_save: "inv (save ts s)"
    and load_append: "inv s \<Longrightarrow> ok t \<Longrightarrow> load (append t s) = load s @ [t]"
    and inv_append: "inv s \<Longrightarrow> inv (append t s)"
begin

lemma inv_appends: "inv s \<Longrightarrow> inv (foldl (\<lambda>s t. append t s) s ts)"
  by (induction ts arbitrary: s) (auto intro: inv_append)

lemma load_appends:
  "inv s \<Longrightarrow> list_all ok ts \<Longrightarrow> load (foldl (\<lambda>s t. append t s) s ts) = load s @ ts"
  by (induction ts arbitrary: s) (auto simp: load_append inv_append)

lemma save_load_save: "list_all ok ts \<Longrightarrow> save (load (save ts s)) s' = save ts s'"
  by (simp add: load_save)

lemma append_save: "list_all ok ts \<Longrightarrow> ok t \<Longrightarrow> load (append t (save ts s)) = ts @ [t]"
  by (simp add: load_append load_save inv_save)

end

text \<open>The files the queue writes: every line complete.\<close>

definition queue_inv :: "queue_file \<Rightarrow> bool" where
  "queue_inv f \<longleftrightarrow> (case f of None \<Rightarrow> True
     | Some s \<Rightarrow> CHR 0x0D \<notin> set s \<and> (s = [] \<or> last s = CHR 0x0A))"

lemma file_lines_complete:
  "s = [] \<or> last s = CHR 0x0A \<Longrightarrow> file_lines (s @ r) = file_lines s @ file_lines r"
proof (induction s)
  case (Cons c s)
  then have IH: "file_lines (s @ r) = file_lines s @ file_lines r"
    by (cases s) auto
  show ?case
  proof (cases "c = CHR 0x0A")
    case False
    then have "s \<noteq> []" using Cons.prems by auto
    then have "file_lines s \<noteq> []" using concat_file_lines [of s] by auto
    then show ?thesis using False IH by (cases "file_lines s") auto
  qed (simp add: IH)
qed simp

lemma map_filter_append: "List.map_filter f (xs @ ys) = List.map_filter f xs @ List.map_filter f ys"
  by (simp add: List.map_filter_def)

interpretation queue: task_store "load_all Io_ok" "save_all Io_ok" "enqueue Io_ok" wf_pending queue_inv
proof unfold_locales
  fix ts s assume "list_all wf_pending ts"
  then show "load_all Io_ok (save_all Io_ok ts s) = ts"
    using file_lines_pending [of ts "[]"] pending_line_no_cr
    by (simp add: load_all_def save_all_def univ_newlines_id load_lines_pending)
next
  fix ts s
  show "queue_inv (save_all Io_ok ts s)"
    using pending_line_no_cr
    by (cases ts rule: rev_cases) (auto simp: queue_inv_def save_all_def pending_line_def)
next
  fix s t assume "queue_inv s" "wf_pending t"
  moreover have "file_lines (pending_line t) = [pending_line t]"
    using file_lines_pending [of "[t]" "[]"] by simp
  ultimately show "load_all Io_ok (enqueue Io_ok t s) = load_all Io_ok s @ [t]"
    using pending_line_no_cr [of t]
    by (auto simp: load_all_def enqueue_def queue_inv_def univ_newlines_id file_lines_complete
        map_filter_append List.map_filter_simps load_line_pending_line split: option.splits)
next
  fix s t assume "queue_inv s"
  then show "queue_inv (enqueue Io_ok t s)"
    using pending_line_no_cr [of t]
    by (auto simp: enqueue_def queue_inv_def pending_line_def split: option.splits)
qed

lemma queue_inv_enqueue: "queue_inv q \<Longrightarrow> queue_inv (enqueue io t q)"
  using queue.inv_append [of q t] by (cases io) (simp_all add: enqueue_def)

lemma queue_inv_save: "queue_inv q \<Longrightarrow> queue_inv (save_all io ts q)"
  using queue.inv_save [of ts q] by (cases io) (simp_all add: save_all_def)

section \<open>Properties\<close>

text \<open>
  The queue file keeps the tasks. Whatever the file held, after saving some tasks and
  appending others one by one, loading gives exactly the saved tasks and then the appended
  ones, in order.
\<close>

lemma queue_roundtrip:
  assumes "list_all wf_pending ts" "list_all wf_pending us"
  shows "load_all Io_ok (foldl (\<lambda>f t. enqueue Io_ok t f) (save_all Io_ok ts f) us) = ts @ us"
  using queue.load_appends [OF queue.inv_save assms(2)] queue.load_save [OF assms(1)] by simp

definition demo_pending :: pending_task where
  "demo_pending = \<lparr>p_task_id = JStr ''t'', p_target_node = JStr [], p_capability = JStr ''echo'', p_payload = JObj [],
     p_created_at = JFloat (Dec 15 1), p_retries = JInt 0, p_ttl_s = JInt 60\<rparr>"

lemma demo_pending_wf: "wf_pending demo_pending"
  by (simp add: demo_pending_def wf_pending_iff)

lemma queue_roundtrip_witness:
  "load_all Io_ok (enqueue Io_ok demo_pending (save_all Io_ok [demo_pending] None)) = [demo_pending, demo_pending]"
  using queue_roundtrip [of "[demo_pending]" "[demo_pending]" None] demo_pending_wf by simp

lemma load_line_junk: "loads (py_strip l) = None \<Longrightarrow> load_line l = None"
  by (simp add: load_line_def Let_def)

text \<open>
  a broken line costs only itself. When a line of the file is not JSON (a partial write,
  an edit), the tasks before it and after it are still loaded, in order.
\<close>

lemma broken_line_skipped:
  assumes "list_all wf_pending ts" "list_all wf_pending us" "CHR 0x0A \<notin> set l" "CHR 0x0D \<notin> set l"
    "loads (py_strip (l @ [CHR 0x0A])) = None"
  shows "load_all Io_ok (Some (concat (map pending_line ts) @ (l @ [CHR 0x0A]) @ concat (map pending_line us))) = ts @ us"
proof -
  let ?s = "concat (map pending_line ts) @ (l @ [CHR 0x0A]) @ concat (map pending_line us)"
  have "CHR 0x0D \<notin> set ?s" using pending_line_no_cr assms(4) by auto
  moreover have "file_lines ?s = map pending_line ts @ (l @ [CHR 0x0A]) # map pending_line us"
    using file_lines_pending [of us "[]"] by (simp add: file_lines_pending file_lines_append [OF assms(3)])
  ultimately show ?thesis
    using load_lines_pending [OF assms(1)] load_lines_pending [OF assms(2)] load_line_junk [OF assms(5)]
    by (simp add: load_all_def univ_newlines_id map_filter_append List.map_filter_simps)
qed

lemma broken_line_skipped_witness:
  "load_all Io_ok (Some (pending_line demo_pending @ ''x'' @ [CHR 0x0A] @ pending_line demo_pending)) = [demo_pending, demo_pending]"
proof -
  have "loads (py_strip (''x'' @ [CHR 0x0A])) = None"
    by code_simp
  then show ?thesis
    using broken_line_skipped [of "[demo_pending]" "[demo_pending]" "''x''"] demo_pending_wf by simp
qed

end
