(* ===== verification/Tcp.thy ===== *)
theory Tcp
  imports Protocol Pending
begin

text \<open>
  \<open>elo/transport/tcp.py\<close>: peer connections and the connection manager. Connection objects
  are shared (the table of peers and the read loops hold references to them), so they live
  in a store and are named by numbers. The manager is an extensible record: the node adds
  its own fields to it, and the message handler the manager calls is a function on the
  whole state, so handlers run inside these operations as the code runs them.
\<close>

section \<open>PeerConnection\<close>

type_synonym cid = nat

text \<open>
  \<open>c_sent\<close> are the bytes written, \<open>c_buf\<close> the bytes received and not yet read, \<open>c_eof\<close> says
  that no more will come, \<open>c_broken\<close> that the transport fails when written to.
\<close>

record conn =
  c_addr :: string
  c_alive :: bool
  c_last_read :: rat
  c_closed :: bool
  c_broken :: bool
  c_sent :: "byte list"
  c_buf :: "byte list"
  c_eof :: bool

definition new_conn :: "string \<Rightarrow> rat \<Rightarrow> conn" where
  "new_conn a now = \<lparr>c_addr = a, c_alive = True, c_last_read = now, c_closed = False, c_broken = False,
     c_sent = [], c_buf = [], c_eof = False\<rparr>"

definition conn_send :: "pydict \<Rightarrow> conn \<Rightarrow> conn \<times> exn option" where
  "conn_send m c =
     (if \<not> c_alive c then (c, Some ConnectionErr)
      else (case encode_frame m of
              Inl e \<Rightarrow> (c\<lparr>c_alive := False\<rparr>, Some e)
            | Inr fr \<Rightarrow> if c_broken c then (c\<lparr>c_alive := False\<rparr>, Some ConnectionErr)
                        else (c\<lparr>c_sent := c_sent c @ fr\<rparr>, None)))"

text \<open>
  \<open>recv\<close>: it waits, gives a message, gives None when the frame or the stream is bad, or lets
  the exception of a body that is not JSON through (it is not among those it catches).
\<close>

datatype recv_out = Waiting | End_of_stream | Msg json | Raised exn

definition conn_recv :: "rat \<Rightarrow> conn \<Rightarrow> conn \<times> recv_out" where
  "conn_recv now c =
     (case read_frame (c_eof c) (c_buf c) of
        Need_more \<Rightarrow> (c, Waiting)
      | Got j rest \<Rightarrow> (c\<lparr>c_buf := rest, c_last_read := now\<rparr>, Msg j)
      | Fail e \<Rightarrow> if e \<in> {FrameErr, IncompleteReadErr, ConnectionErr}
                  then (c\<lparr>c_alive := False\<rparr>, End_of_stream) else (c, Raised e))"

definition idle_seconds :: "rat \<Rightarrow> conn \<Rightarrow> rat" where [simp]:
  "idle_seconds now c = now - c_last_read c"

text \<open>Closing the writer also ends our side of the stream.\<close>

definition conn_close :: "conn \<Rightarrow> conn" where
  "conn_close c = c\<lparr>c_alive := False, c_closed := True, c_eof := True\<rparr>"

section \<open>TCPManager\<close>

text \<open>The coroutines the node starts in the background.\<close>

datatype job =
    ReadLoop string cid
  | ConnectTo string pydict
  | FlushPending
  | RetryTask pending_task
  | Reconnect string
  | Discovered json string

record tcp =
  self_id :: string
  tcp_port :: nat
  started :: bool
  listening :: bool
  stopped :: bool
  conns :: "cid \<rightharpoonup> conn"
  peers :: "(string \<times> cid) list"
  has_handler :: bool
  jobs :: "job list"

type_synonym 's handler = "string \<Rightarrow> json \<Rightarrow> 's \<Rightarrow> 's \<times> exn option"

definition CONNECT_TIMEOUT :: nat where "CONNECT_TIMEOUT = 10"
definition HEARTBEAT_INTERVAL :: nat where "HEARTBEAT_INTERVAL = 30"
definition HEARTBEAT_IDLE_TIMEOUT :: rat where "HEARTBEAT_IDLE_TIMEOUT = 90"

definition upd_conn :: "cid \<Rightarrow> (conn \<Rightarrow> conn) \<Rightarrow> 'a tcp_scheme \<Rightarrow> 'a tcp_scheme" where
  "upd_conn i f s = s\<lparr>conns := (conns s)(i := map_option f (conns s i))\<rparr>"

definition peer_addresses :: "'a tcp_scheme \<Rightarrow> string list" where
  "peer_addresses s = dkeys (peers s)"

definition peer_count :: "'a tcp_scheme \<Rightarrow> nat" where
  "peer_count s = length (peers s)"

definition spawn :: "job \<Rightarrow> 'a tcp_scheme \<Rightarrow> 'a tcp_scheme" where
  "spawn j s = s\<lparr>jobs := jobs s @ [j]\<rparr>"

text \<open>Sending on a connection of the store.\<close>

definition send_conn :: "cid \<Rightarrow> pydict \<Rightarrow> 'a tcp_scheme \<Rightarrow> 'a tcp_scheme \<times> exn option" where
  "send_conn i m s = (case conns s i of
     None \<Rightarrow> (s, Some ConnectionErr)
   | Some c \<Rightarrow> (case conn_send m c of (c', e) \<Rightarrow> (s\<lparr>conns := (conns s)(i \<mapsto> c')\<rparr>, e)))"

definition send_to :: "string \<Rightarrow> pydict \<Rightarrow> 'a tcp_scheme \<Rightarrow> 'a tcp_scheme \<times> exn option" where
  "send_to a m s = (case map_of (peers s) a of
     None \<Rightarrow> (s, Some ConnectionErr)
   | Some i \<Rightarrow> send_conn i m s)"

fun broadcast_to :: "(string \<times> cid) list \<Rightarrow> pydict \<Rightarrow> string list \<Rightarrow> 'a tcp_scheme \<Rightarrow> 'a tcp_scheme" where
  "broadcast_to [] m exclude s = s"
| "broadcast_to ((a, i) # ps) m exclude s =
     (if a \<in> set exclude then broadcast_to ps m exclude s
      else broadcast_to ps m exclude (fst (send_conn i m s)))"

definition broadcast :: "pydict \<Rightarrow> string list \<Rightarrow> 'a tcp_scheme \<Rightarrow> 'a tcp_scheme" where
  "broadcast m exclude s = broadcast_to (peers s) m exclude s"

subsection \<open>Lifecycle\<close>

text \<open>
  \<open>started\<close> says that \<open>_server\<close> is not None, \<open>listening\<close> that its socket is open: \<open>stop\<close>
  closes the server and keeps the object. \<open>assigned\<close> is the port the operating system gives
  when the port is 0.
\<close>

definition start :: "nat \<Rightarrow> 'a tcp_scheme \<Rightarrow> 'a tcp_scheme \<times> nat" where
  "start assigned s =
     (let p = (if tcp_port s = 0 then assigned else tcp_port s) in (s\<lparr>started := True, listening := True, tcp_port := p\<rparr>, p))"

fun bye_all :: "(string \<times> cid) list \<Rightarrow> 'a tcp_scheme \<Rightarrow> 'a tcp_scheme" where
  "bye_all [] s = s"
| "bye_all ((a, i) # ps) s = bye_all ps (upd_conn i conn_close (fst (send_conn i bye_msg s)))"

definition stop :: "'a tcp_scheme \<Rightarrow> 'a tcp_scheme" where
  "stop s = (bye_all (peers s) (s\<lparr>stopped := True\<rparr>))\<lparr>peers := [], listening := False\<rparr>"

definition on_message :: "'a tcp_scheme \<Rightarrow> 'a tcp_scheme" where
  "on_message s = s\<lparr>has_handler := True\<rparr>"

subsection \<open>Stale peers\<close>

definition find_stale :: "string \<Rightarrow> (string \<times> cid) list \<Rightarrow> (string \<times> cid) option" where
  "find_stale node_id_prefix ps = find (\<lambda>kv. starts_with (fst kv) (take 12 node_id_prefix @ ''@'')) ps"

definition remove_stale_peer :: "string \<Rightarrow> 'a tcp_scheme \<Rightarrow> 'a tcp_scheme \<times> string option" where
  "remove_stale_peer node_id_prefix s = (case find_stale node_id_prefix (peers s) of
     None \<Rightarrow> (s, None)
   | Some (k, i) \<Rightarrow> (upd_conn i conn_close (s\<lparr>peers := dpop k (peers s)\<rparr>), Some k))"

text \<open>Both kinds of connection enter the table the same way.\<close>

definition adopt :: "string \<Rightarrow> string \<Rightarrow> cid \<Rightarrow> 'a tcp_scheme \<Rightarrow> 'a tcp_scheme" where
  "adopt remote_id a i s =
     (let s1 = fst (remove_stale_peer (take 12 remote_id) (upd_conn i (\<lambda>c. c\<lparr>c_addr := a\<rparr>) s))
      in s1\<lparr>peers := dset a i (peers s1)\<rparr>)"

definition close_conn :: "cid \<Rightarrow> 'a tcp_scheme \<Rightarrow> 'a tcp_scheme" where
  "close_conn i s = upd_conn i conn_close s"

definition call_handler :: "('a tcp_scheme) handler \<Rightarrow> string \<Rightarrow> json \<Rightarrow> 'a tcp_scheme \<Rightarrow> 'a tcp_scheme \<times> exn option" where
  "call_handler h a m s = (if has_handler s then h a m s else (s, None))"

subsection \<open>Incoming connections\<close>

text \<open>The checks on the first message: its type, a node id that is a string and not our own.\<close>

definition check_hello :: "string \<Rightarrow> json \<Rightarrow> exn + string option" where
  "check_hello own j =
     bindE (py_get j ''type'' JNull) (\<lambda>ty.
       if ty \<noteq> JStr (mt HELLO) then Inr None
       else bindE (bindE (py_get j ''node_id'' (JStr [])) py_str) (\<lambda>remote_id.
         if take 12 remote_id = take 12 own then Inr None else Inr (Some remote_id)))"

definition peername_addr :: "(string \<times> nat) option \<Rightarrow> string" where
  "peername_addr pn = (case pn of Some (ip, p) \<Rightarrow> ip @ '':'' @ show_nat p | None \<Rightarrow> ''unknown'')"

text \<open>
  \<open>_handle_incoming\<close> for the accepted connection \<open>i\<close> once its first read has the outcome
  \<open>out\<close>. An exception, the handler's too, closes the connection and ends the function.
\<close>

definition handle_incoming :: "('a tcp_scheme) handler \<Rightarrow> (string \<times> nat) option \<Rightarrow> cid \<Rightarrow> recv_out \<Rightarrow>
    'a tcp_scheme \<Rightarrow> 'a tcp_scheme" where
  "handle_incoming h pn i out s =
     (case out of
        Waiting \<Rightarrow> s
      | End_of_stream \<Rightarrow> close_conn i s
      | Raised _ \<Rightarrow> close_conn i s
      | Msg hello \<Rightarrow>
          (case check_hello (self_id s) hello of
             Inl _ \<Rightarrow> close_conn i s
           | Inr None \<Rightarrow> close_conn i s
           | Inr (Some remote_id) \<Rightarrow>
               (let a = take 12 remote_id @ ''@'' @ peername_addr pn in
                case call_handler h a hello (adopt remote_id a i s) of
                  (s', Some _) \<Rightarrow> close_conn i s'
                | (s', None) \<Rightarrow> spawn (ReadLoop a i) s')))"

subsection \<open>Read loop\<close>

definition bye_notice :: json where
  "bye_notice = JObj [(''type'', JStr (mt BYE)), (''node_id'', JStr [])]"

text \<open>The \<open>finally\<close> block: whatever connection the table holds for the address goes.\<close>

definition end_read_loop :: "('a tcp_scheme) handler \<Rightarrow> string \<Rightarrow> cid \<Rightarrow> 'a tcp_scheme \<Rightarrow> 'a tcp_scheme" where
  "end_read_loop h a i s =
     (let s1 = close_conn i s; s2 = s1\<lparr>peers := dpop a (peers s1)\<rparr>
      in fst (call_handler h a bye_notice s2))"

text \<open>One iteration; the flag says whether the loop goes on.\<close>

definition read_loop_step :: "('a tcp_scheme) handler \<Rightarrow> rat \<Rightarrow> string \<Rightarrow> cid \<Rightarrow> 'a tcp_scheme \<Rightarrow>
    'a tcp_scheme \<times> bool" where
  "read_loop_step h now a i s =
     (if stopped s then (end_read_loop h a i s, False)
      else (case conns s i of
        None \<Rightarrow> (end_read_loop h a i s, False)
      | Some c \<Rightarrow> (case conn_recv now c of (c', out) \<Rightarrow>
          (let s1 = s\<lparr>conns := (conns s)(i \<mapsto> c')\<rparr> in
           case out of
             Waiting \<Rightarrow> (s1, True)
           | End_of_stream \<Rightarrow> (end_read_loop h a i s1, False)
           | Raised _ \<Rightarrow> (end_read_loop h a i s1, False)
           | Msg m \<Rightarrow> (case call_handler h a m s1 of
               (s2, None) \<Rightarrow> (s2, True)
             | (s2, Some _) \<Rightarrow> (end_read_loop h a i s2, False))))))"

subsection \<open>Outgoing connections\<close>

text \<open>The host and port \<open>connect_to_peer\<close> dials: None for an address without a port separator.\<close>

definition dial_target :: "nat \<Rightarrow> string \<Rightarrow> exn + (string \<times> nat) option" where
  "dial_target own_port address =
     (let ad = (if CHR ''@'' \<in> set address then after_first (CHR ''@'') address else address) in
      if CHR '':'' \<notin> set ad then Inr None
      else (let host = before_last (CHR '':'') ad; ps = last_field (CHR '':'') ad;
                port_str = (if py_isdigit ps then ps else show_nat own_port)
            in bindE (py_int port_str) (\<lambda>p. Inr (Some (host, p)))))"

definition canonical_addr :: "string \<Rightarrow> nat \<Rightarrow> string" where
  "canonical_addr host p = host @ '':'' @ show_nat p"

definition loopback :: "string list" where
  "loopback = [''127.0.0.1'', ''0.0.0.0'', ''localhost'']"

text \<open>What the network answers: no connection, or one whose first read (5 s) has an outcome.\<close>

datatype dial_result = Refused | Opened cid "recv_out option"

definition finish_connect :: "('a tcp_scheme) handler \<Rightarrow> string \<Rightarrow> cid \<Rightarrow> recv_out option \<Rightarrow>
    'a tcp_scheme \<Rightarrow> 'a tcp_scheme \<times> (exn + string option)" where
  "finish_connect h canonical i ack s =
     (case ack of
        None \<Rightarrow> (close_conn i s, Inr None)
      | Some Waiting \<Rightarrow> (close_conn i s, Inr None)
      | Some End_of_stream \<Rightarrow> (close_conn i s, Inr None)
      | Some (Raised e) \<Rightarrow> (s, Inl e)
      | Some (Msg m) \<Rightarrow>
          (case py_get m ''type'' JNull of
             Inl e \<Rightarrow> (s, Inl e)
           | Inr ty \<Rightarrow>
               if ty \<noteq> JStr (mt HELLO_ACK) then (close_conn i s, Inr None)
               else (case bindE (py_get m ''node_id'' (JStr [])) py_str of
                  Inl e \<Rightarrow> (s, Inl e)
                | Inr remote_id \<Rightarrow>
                    (let a = take 12 remote_id @ ''@'' @ canonical in
                     case call_handler h a m (adopt remote_id a i s) of
                       (s', Some e) \<Rightarrow> (s', Inl e)
                     | (s', None) \<Rightarrow> (spawn (ReadLoop a i) s', Inr (Some a))))))"

definition connect_to_peer :: "('a tcp_scheme) handler \<Rightarrow> rat \<Rightarrow> string \<Rightarrow> pydict \<Rightarrow> dial_result \<Rightarrow>
    'a tcp_scheme \<Rightarrow> 'a tcp_scheme \<times> (exn + string option)" where
  "connect_to_peer h now address hello_payload net s =
     (case dial_target (tcp_port s) address of
        Inl e \<Rightarrow> (s, Inl e)
      | Inr None \<Rightarrow> (s, Inr None)
      | Inr (Some (host, p)) \<Rightarrow>
          (let canonical = canonical_addr host p in
           if canonical \<in> set (peer_addresses s) then (s, Inr (Some canonical))
           else if p = tcp_port s \<and> host \<in> set loopback then (s, Inr None)
           else (case net of
             Refused \<Rightarrow> (s, Inr None)
           | Opened i ack \<Rightarrow>
               (let s1 = s\<lparr>conns := (conns s)(i \<mapsto> new_conn canonical now)\<rparr> in
                if hello_payload = [] then finish_connect h canonical i ack s1
                else (case send_conn i hello_payload s1 of
                   (s2, Some e) \<Rightarrow> (s2, Inl e)
                 | (s2, None) \<Rightarrow> finish_connect h canonical i ack s2)))))"

subsection \<open>Heartbeat\<close>

fun heartbeat_scan :: "rat \<Rightarrow> pydict \<Rightarrow> (string \<times> cid) list \<Rightarrow> 'a tcp_scheme \<Rightarrow> 'a tcp_scheme \<times> string list" where
  "heartbeat_scan now hb [] s = (s, [])"
| "heartbeat_scan now hb ((a, i) # ps) s =
     (case send_conn i hb s of (s1, e) \<Rightarrow>
       (let idle = (case conns s1 i of None \<Rightarrow> False | Some c \<Rightarrow> idle_seconds now c > HEARTBEAT_IDLE_TIMEOUT)
        in case heartbeat_scan now hb ps s1 of (s2, dead) \<Rightarrow>
             (s2, (if e \<noteq> None then [a] else []) @ (if idle then [a] else []) @ dead)))"

text \<open>An exception of the handler leaves the heartbeat task.\<close>

fun purge_dead :: "('a tcp_scheme) handler \<Rightarrow> string list \<Rightarrow> 'a tcp_scheme \<Rightarrow> 'a tcp_scheme \<times> exn option" where
  "purge_dead h [] s = (s, None)"
| "purge_dead h (a # as) s =
     (case map_of (peers s) a of
        None \<Rightarrow> purge_dead h as s
      | Some i \<Rightarrow>
          (case call_handler h a bye_notice (close_conn i (s\<lparr>peers := dpop a (peers s)\<rparr>)) of
             (s', Some e) \<Rightarrow> (s', Some e)
           | (s', None) \<Rightarrow> purge_dead h as s'))"

definition heartbeat_tick :: "(string list \<Rightarrow> string list) \<Rightarrow> ('a tcp_scheme) handler \<Rightarrow> rat \<Rightarrow> int \<Rightarrow>
    'a tcp_scheme \<Rightarrow> 'a tcp_scheme \<times> exn option" where
  "heartbeat_tick ord h now ts s =
     (case heartbeat_scan now (heartbeat_msg (JStr (self_id s)) ts) (peers s) s of (s1, dead) \<Rightarrow>
        purge_dead h (ord (set_of dead)) s1)"

text \<open>One turn of the loop of \<open>start_heartbeat\<close>, after its wait; None when it ends.\<close>

definition heartbeat_round :: "(string list \<Rightarrow> string list) \<Rightarrow> ('a tcp_scheme) handler \<Rightarrow> rat \<Rightarrow> int \<Rightarrow>
    'a tcp_scheme \<Rightarrow> ('a tcp_scheme \<times> exn option) option" where
  "heartbeat_round ord h now ts s = (if stopped s then None else Some (heartbeat_tick ord h now ts s))"

section \<open>What sending does\<close>

text \<open>
  The order on connections and managers that sending respects: only whole frames are appended,
  a connection may die, and nothing is written on a dead connection. Jobs are only added.
\<close>

definition conn_le :: "conn \<Rightarrow> conn \<Rightarrow> bool" where
  "conn_le c c' \<longleftrightarrow> c_addr c' = c_addr c \<and> c_last_read c' = c_last_read c \<and> c_closed c' = c_closed c \<and>
     c_broken c' = c_broken c \<and> c_buf c' = c_buf c \<and> c_eof c' = c_eof c \<and>
     (\<exists>bs. framed bs \<and> c_sent c' = c_sent c @ bs) \<and> (c_alive c' \<longrightarrow> c_alive c) \<and> (\<not> c_alive c \<longrightarrow> c' = c)"

lemma dial_target_announced:
  "CHR ''@'' \<notin> set host \<Longrightarrow> dial_target q (host @ '':'' @ show_nat p) = Inr (Some (host, p))"
proof -
  have "CHR '':'' \<notin> set (show_nat p)" "CHR ''@'' \<notin> set (show_nat p)"
    by (auto dest: show_nat_digits simp: is_dig_def)
  then show "CHR ''@'' \<notin> set host \<Longrightarrow> ?thesis"
    by (simp add: dial_target_def last_field_append before_last_append)
qed

definition keeps_table :: "'a tcp_scheme \<Rightarrow> 'a tcp_scheme \<Rightarrow> bool" where
  "keeps_table s s' \<longleftrightarrow> self_id s' = self_id s \<and> tcp_port s' = tcp_port s \<and> started s' = started s \<and>
     listening s' = listening s \<and> stopped s' = stopped s \<and> peers s' = peers s \<and>
     has_handler s' = has_handler s \<and> prefix (jobs s) (jobs s') \<and>
     (\<forall>i. rel_option conn_le (conns s i) (conns s' i))"

lemma conn_le_refl [simp, intro]: "conn_le c c"
  by (simp add: conn_le_def framed_none)

lemma conn_le_trans: "conn_le a b \<Longrightarrow> conn_le b c \<Longrightarrow> conn_le a c"
proof -
  assume ab: "conn_le a b" and bc: "conn_le b c"
  obtain bs where bs: "framed bs" "c_sent b = c_sent a @ bs" using ab unfolding conn_le_def by blast
  obtain cs where cs: "framed cs" "c_sent c = c_sent b @ cs" using bc unfolding conn_le_def by blast
  have "framed (bs @ cs)" using bs cs by (simp add: framed_append)
  moreover have "c_sent c = c_sent a @ (bs @ cs)" using bs cs by simp
  ultimately have sent: "\<exists>ds. framed ds \<and> c_sent c = c_sent a @ ds" by blast
  have "\<not> c_alive a \<longrightarrow> c = a" using ab bc unfolding conn_le_def by blast
  moreover have "c_alive c \<longrightarrow> c_alive a" using ab bc unfolding conn_le_def by blast
  moreover have "c_addr c = c_addr a" "c_last_read c = c_last_read a" "c_closed c = c_closed a"
    "c_broken c = c_broken a" "c_buf c = c_buf a" "c_eof c = c_eof a"
    using ab bc unfolding conn_le_def by - (elim conjE, rule trans, assumption, assumption)+
  ultimately show "conn_le a c" using sent unfolding conn_le_def by blast
qed

lemma rel_conn_le_refl [simp]: "rel_option conn_le x x"
  by (cases x) auto

lemma keeps_table_refl [simp, intro]: "keeps_table s s"
  by (simp add: keeps_table_def)

lemma keeps_table_trans: "keeps_table r s \<Longrightarrow> keeps_table s t \<Longrightarrow> keeps_table r t"
proof -
  assume rs: "keeps_table r s" and st: "keeps_table s t"
  have "rel_option conn_le (conns r i) (conns t i)" for i
  proof -
    have "rel_option conn_le (conns r i) (conns s i)" "rel_option conn_le (conns s i) (conns t i)"
      using rs st by (auto simp: keeps_table_def)
    then show ?thesis
      by (cases "conns r i"; cases "conns s i"; cases "conns t i") (auto intro: conn_le_trans)
  qed
  then show ?thesis
    using rs st by (auto simp: keeps_table_def intro: prefix_order.trans)
qed

lemma conn_send_le: "conn_le c (fst (conn_send m c))"
  by (auto simp: conn_send_def conn_le_def framed_none split: sum.splits)

lemma keeps_table_conn:
  "conns s i = Some c \<Longrightarrow> conn_le c c' \<Longrightarrow> keeps_table s (s\<lparr>conns := (conns s)(i \<mapsto> c')\<rparr>)"
  by (simp add: keeps_table_def)

lemma keeps_send_conn [intro]: "keeps_table s (fst (send_conn i m s))"
  using conn_send_le [of _ m]
  by (auto simp: send_conn_def split: option.splits prod.splits intro!: keeps_table_conn) (metis fst_conv)

lemma keeps_send_to [intro]: "keeps_table s (fst (send_to a m s))"
  by (auto simp: send_to_def split: option.splits)

lemma keeps_broadcast_to: "keeps_table s (broadcast_to ps m ex s)"
  by (induction ps m ex s rule: broadcast_to.induct) (auto intro: keeps_table_trans)

lemma keeps_broadcast [intro]: "keeps_table s (broadcast m ex s)"
  by (simp add: broadcast_def keeps_broadcast_to)

lemma keeps_spawn [intro]: "keeps_table s (spawn j s)"
  by (simp add: spawn_def keeps_table_def)

lemma keeps_table_dom: "keeps_table s s' \<Longrightarrow> conns s' i = None \<longleftrightarrow> conns s i = None"
  by (auto simp: keeps_table_def) (metis option.rel_distinct(1,2) option.exhaust)+

lemma conn_send_ok:
  "c_alive c \<Longrightarrow> \<not> c_broken c \<Longrightarrow> encode_frame m = Inr fr \<Longrightarrow>
   conn_send m c = (c\<lparr>c_sent := c_sent c @ fr\<rparr>, None)"
  by (simp add: conn_send_def)

text \<open>A send that reports an error leaves the connection dead; one that does not wrote one frame.\<close>

lemma conn_send_error: "conn_send m c = (c', Some e) \<Longrightarrow> \<not> c_alive c' \<and> c_sent c' = c_sent c"
  by (auto simp: conn_send_def split: if_splits sum.splits)

lemma conn_send_done:
  "conn_send m c = (c', None) \<Longrightarrow>
   \<exists>fr. encode_frame m = Inr fr \<and> c_alive c \<and> \<not> c_broken c \<and> c' = c\<lparr>c_sent := c_sent c @ fr\<rparr>"
  by (auto simp: conn_send_def split: if_splits sum.splits)

section \<open>The table of peers\<close>

definition tcp_inv :: "'a tcp_scheme \<Rightarrow> bool" where
  "tcp_inv s \<longleftrightarrow> distinct (dkeys (peers s)) \<and> distinct (map snd (peers s)) \<and>
     (\<forall>(a, i) \<in> set (peers s). conns s i \<noteq> None \<and> CHR ''@'' \<in> set a)"

text \<open>The part of a key before the separator, and at most one entry for each.\<close>

definition key_id :: "string \<Rightarrow> string" where
  "key_id a = first_field (CHR ''@'') a"

definition one_per_id :: "'a tcp_scheme \<Rightarrow> bool" where
  "one_per_id s \<longleftrightarrow> distinct (map key_id (dkeys (peers s)))"

lemma tcp_invI:
  "distinct (dkeys (peers s)) \<Longrightarrow> distinct (map snd (peers s)) \<Longrightarrow>
   (\<And>a i. (a, i) \<in> set (peers s) \<Longrightarrow> conns s i \<noteq> None) \<Longrightarrow>
   (\<And>a i. (a, i) \<in> set (peers s) \<Longrightarrow> CHR ''@'' \<in> set a) \<Longrightarrow> tcp_inv s"
  by (auto simp: tcp_inv_def)

lemma tcp_inv_keeps: "keeps_table s s' \<Longrightarrow> tcp_inv s \<Longrightarrow> tcp_inv s'"
  using keeps_table_dom [of s s'] by (auto simp: tcp_inv_def keeps_table_def)

lemma one_per_id_peers: "peers s' = peers s \<Longrightarrow> one_per_id s' = one_per_id s"
  by (simp add: one_per_id_def)

lemma upd_conn_simps [simp]:
  "peers (upd_conn i f s) = peers s" "self_id (upd_conn i f s) = self_id s"
  "has_handler (upd_conn i f s) = has_handler s" "stopped (upd_conn i f s) = stopped s"
  "jobs (upd_conn i f s) = jobs s" "tcp_port (upd_conn i f s) = tcp_port s"
  "started (upd_conn i f s) = started s"
  "conns (upd_conn i f s) j = (if j = i then map_option f (conns s i) else conns s j)"
  by (simp_all add: upd_conn_def)

lemma close_conn_simps [simp]:
  "peers (close_conn i s) = peers s" "self_id (close_conn i s) = self_id s"
  "has_handler (close_conn i s) = has_handler s" "stopped (close_conn i s) = stopped s"
  "jobs (close_conn i s) = jobs s" "tcp_port (close_conn i s) = tcp_port s"
  "started (close_conn i s) = started s"
  "conns (close_conn i s) j = (if j = i then map_option conn_close (conns s i) else conns s j)"
  by (simp_all add: close_conn_def)

lemma set_dpop: "set (dpop k d) = {x \<in> set d. fst x \<noteq> k}"
  by (auto simp: AList.delete_eq)

lemma distinct_snd_dpop: "distinct (map snd d) \<Longrightarrow> distinct (map snd (dpop k d))"
  by (induction d) (auto simp: set_dpop)

lemma tcp_inv_pop:
  "tcp_inv s \<Longrightarrow> (\<And>j. conns s' j = None \<longleftrightarrow> conns s j = None) \<Longrightarrow> peers s' = dpop k (peers s) \<Longrightarrow> tcp_inv s'"
  by (auto simp: tcp_inv_def set_dpop distinct_snd_dpop)

lemma tcp_inv_same:
  "tcp_inv s \<Longrightarrow> (\<And>j. conns s' j = None \<longleftrightarrow> conns s j = None) \<Longrightarrow> peers s' = peers s \<Longrightarrow> tcp_inv s'"
  by (auto simp: tcp_inv_def)

lemma tcp_inv_close [intro]: "tcp_inv s \<Longrightarrow> tcp_inv (close_conn i s)"
  by (rule tcp_inv_same [of s]) auto

lemma remove_stale_peers:
  "peers (fst (remove_stale_peer p s)) =
     (case find_stale p (peers s) of None \<Rightarrow> peers s | Some (k, i) \<Rightarrow> dpop k (peers s))"
  by (auto simp: remove_stale_peer_def split: option.splits)

lemma remove_stale_conns:
  "conns (fst (remove_stale_peer p s)) j = None \<longleftrightarrow> conns s j = None"
  by (auto simp: remove_stale_peer_def split: option.splits)

lemma remove_stale_same [simp]:
  "self_id (fst (remove_stale_peer p s)) = self_id s" "has_handler (fst (remove_stale_peer p s)) = has_handler s"
  "stopped (fst (remove_stale_peer p s)) = stopped s" "jobs (fst (remove_stale_peer p s)) = jobs s"
  by (auto simp: remove_stale_peer_def split: option.splits)

lemma tcp_inv_stale: "tcp_inv s \<Longrightarrow> tcp_inv (fst (remove_stale_peer p s))"
proof -
  assume inv: "tcp_inv s"
  show ?thesis
  proof (cases "find_stale p (peers s)")
    case None
    then show ?thesis using inv by (simp add: remove_stale_peer_def)
  next
    case (Some ki)
    then show ?thesis
      by (intro tcp_inv_pop [OF inv remove_stale_conns, where k = "fst ki"])
        (simp add: remove_stale_peers split: prod.splits)
  qed
qed

lemma stale_set: "set (peers (fst (remove_stale_peer p s))) \<subseteq> set (peers s)"
  by (auto simp: remove_stale_peers set_dpop split: option.splits)

lemma set_dset: "distinct (dkeys d) \<Longrightarrow> set (dset k v d) = insert (k, v) {x \<in> set d. fst x \<noteq> k}"
  by (induction d) (auto simp: rev_image_eqI split: if_splits)

lemma distinct_snd_dset: "distinct (map snd d) \<Longrightarrow> v \<notin> snd ` set d \<Longrightarrow> distinct (map snd (dset k v d))"
proof (induction d)
  case (Cons x d)
  have "snd ` set (dset k v d) \<subseteq> insert v (snd ` set d)" by (induction d) auto
  then show ?case using Cons by (cases x) auto
qed simp

lemma tcp_inv_set:
  "tcp_inv s \<Longrightarrow> conns s i \<noteq> None \<Longrightarrow> i \<notin> snd ` set (peers s) \<Longrightarrow> CHR ''@'' \<in> set a \<Longrightarrow>
   tcp_inv (s\<lparr>peers := dset a i (peers s)\<rparr>)"
  by (auto simp: tcp_inv_def set_dset distinct_snd_dset)

lemma adopt_inv:
  assumes "tcp_inv s" "conns s i \<noteq> None" "i \<notin> snd ` set (peers s)" "CHR ''@'' \<in> set a"
  shows "tcp_inv (adopt rid a i s)"
proof -
  define s0 where "s0 = upd_conn i (\<lambda>c. c\<lparr>c_addr := a\<rparr>) s"
  have "tcp_inv s0" unfolding s0_def by (rule tcp_inv_same [OF assms(1)]) auto
  then have "tcp_inv (fst (remove_stale_peer (take 12 rid) s0))" by (rule tcp_inv_stale)
  moreover have "i \<notin> snd ` set (peers (fst (remove_stale_peer (take 12 rid) s0)))"
    using stale_set [of "take 12 rid" s0] assms(3) by (auto simp: s0_def)
  ultimately show ?thesis
    using assms unfolding adopt_def Let_def s0_def [symmetric]
    by (intro tcp_inv_set) (auto simp: remove_stale_conns s0_def)
qed

lemma key_id_starts: "CHR ''@'' \<notin> set p \<Longrightarrow> CHR ''@'' \<in> set a \<Longrightarrow> starts_with a (p @ ''@'') \<longleftrightarrow> key_id a = p"
proof
  assume "CHR ''@'' \<notin> set p" "starts_with a (p @ ''@'')"
  then show "key_id a = p" by (auto simp: starts_with_iff key_id_def first_field_append)
next
  assume "CHR ''@'' \<in> set a" "key_id a = p"
  then obtain ys t where a: "a = ys @ CHR ''@'' # t" "CHR ''@'' \<notin> set ys"
    using split_list_first [of "CHR ''@''" a] by auto
  with \<open>key_id a = p\<close> show "starts_with a (p @ ''@'')"
    by (simp add: starts_with_iff key_id_def first_field_append)
qed

lemma take_no_at: "CHR ''@'' \<notin> set rid \<Longrightarrow> CHR ''@'' \<notin> set (take 12 rid)"
  by (meson in_set_takeD)

lemma stale_none_left:
  assumes "tcp_inv s" "one_per_id s" "CHR ''@'' \<notin> set rid"
  shows "\<forall>a \<in> set (dkeys (peers (fst (remove_stale_peer (take 12 rid) s)))). key_id a \<noteq> take 12 rid"
proof (cases "find_stale (take 12 rid) (peers s)")
  case None
  then have "\<forall>x \<in> set (peers s). \<not> starts_with (fst x) (take 12 rid @ ''@'')"
    by (auto simp: find_stale_def find_None_iff)
  then have "key_id (fst x) \<noteq> take 12 rid" if "x \<in> set (peers s)" for x
    using that assms(1) key_id_starts [OF take_no_at [OF assms(3)], of "fst x"]
    by (fastforce simp: tcp_inv_def)
  then show ?thesis
    using None by (auto simp: remove_stale_peers)
next
  case (Some ki)
  obtain k i where ki: "ki = (k, i)" by fastforce
  have k: "(k, i) \<in> set (peers s)" "starts_with k (take 12 rid @ ''@'')"
    using Some ki by (auto simp: find_stale_def dest: find_SomeD)
  have at: "CHR ''@'' \<in> set k" using assms(1) k(1) by (auto simp: tcp_inv_def)
  have kid: "key_id k = take 12 rid"
    using key_id_starts [OF take_no_at [OF assms(3)] at] k(2) by simp
  have inj: "inj_on key_id (set (dkeys (peers s)))"
    using assms(2) by (simp only: one_per_id_def) (metis distinct_map)
  show ?thesis
  proof
    fix a assume "a \<in> set (dkeys (peers (fst (remove_stale_peer (take 12 rid) s))))"
    then have "a \<in> set (dkeys (peers s))" "a \<noteq> k"
      using Some ki by (auto simp: remove_stale_peers set_dpop)
    then show "key_id a \<noteq> take 12 rid"
      using inj_onD [OF inj, of a k] kid k(1) by force
  qed
qed

lemma one_per_id_pop: "one_per_id s \<Longrightarrow> peers s' = dpop k (peers s) \<Longrightarrow> one_per_id s'"
  by (auto simp: one_per_id_def AList.delete_eq distinct_map_filter comp_def distinct_map inj_on_def)

lemma one_per_id_stale: "one_per_id s \<Longrightarrow> one_per_id (fst (remove_stale_peer p s))"
  by (cases "find_stale p (peers s)") (auto simp: remove_stale_peers intro: one_per_id_peers [THEN iffD2] one_per_id_pop)

lemma adopt_one:
  assumes "tcp_inv s" "one_per_id s" "CHR ''@'' \<notin> set rid" "a = take 12 rid @ ''@'' @ r"
  shows "one_per_id (adopt rid a i s)"
proof -
  define s0 where "s0 = upd_conn i (\<lambda>c. c\<lparr>c_addr := a\<rparr>) s"
  define s1 where "s1 = fst (remove_stale_peer (take 12 rid) s0)"
  have inv0: "tcp_inv s0" unfolding s0_def by (rule tcp_inv_same [OF assms(1)]) auto
  have one0: "one_per_id s0" using assms(2) by (simp add: one_per_id_def s0_def)
  have none: "\<forall>b \<in> set (dkeys (peers s1)). key_id b \<noteq> take 12 rid"
    unfolding s1_def using stale_none_left [OF inv0 one0 assms(3)] .
  have ka: "key_id a = take 12 rid"
    using assms(4) take_no_at [OF assms(3)] by (simp add: key_id_def first_field_append)
  then have "a \<notin> fst ` set (peers s1)" using none by auto
  then have "dset a i (peers s1) = peers s1 @ [(a, i)]" by (rule dset_new)
  moreover have "one_per_id s1" using one0 by (simp add: s1_def one_per_id_stale)
  ultimately show ?thesis
    using none ka by (auto simp: adopt_def Let_def s0_def [symmetric] s1_def [symmetric] one_per_id_def)
qed


lemma adopt_conns: "conns (adopt rid a i s) j = None \<longleftrightarrow> conns s j = None"
  by (simp add: adopt_def Let_def remove_stale_conns)

lemma find_stale_own:
  assumes "tcp_inv s" "one_per_id s" "map_of (peers s) a = Some i" "a = take 12 rid @ ''@'' @ r" "CHR ''@'' \<notin> set rid"
  shows "find_stale (take 12 rid) (peers s) = Some (a, i)"
proof -
  have mem: "(a, i) \<in> set (peers s)" using assms(3) by (rule map_of_SomeD)
  then have "find_stale (take 12 rid) (peers s) \<noteq> None"
    using assms(4) by (auto simp: find_stale_def find_None_iff starts_with_iff)
  then obtain k j where f: "find_stale (take 12 rid) (peers s) = Some (k, j)" by auto
  then have k: "(k, j) \<in> set (peers s)" "starts_with k (take 12 rid @ ''@'')"
    by (auto simp: find_stale_def dest: find_SomeD)
  have at: "CHR ''@'' \<in> set k" using assms(1) k(1) by (auto simp: tcp_inv_def)
  have "key_id k = key_id a"
    using key_id_starts [OF take_no_at [OF assms(5)] at] k(2) assms(4) take_no_at [OF assms(5)]
    by (simp add: key_id_def first_field_append)
  moreover have "inj_on key_id (set (dkeys (peers s)))"
    using assms(2) by (simp only: one_per_id_def) (metis distinct_map)
  moreover have "k \<in> set (dkeys (peers s))" "a \<in> set (dkeys (peers s))" using k(1) mem by force+
  ultimately have "k = a" by (metis inj_onD)
  moreover have "distinct (dkeys (peers s))" using assms(1) by (simp add: tcp_inv_def)
  ultimately have "j = i" using k(1) mem by (metis eq_key_imp_eq_value)
  then show ?thesis using f \<open>k = a\<close> by simp
qed

section \<open>Broadcast and heartbeat\<close>

lemma send_conn_other: "i \<noteq> j \<Longrightarrow> conns (fst (send_conn i m s)) j = conns s j"
  by (auto simp: send_conn_def split: option.splits prod.splits)

lemma send_conn_self: "conns (fst (send_conn i m s)) i = map_option (\<lambda>c. fst (conn_send m c)) (conns s i)"
  by (auto simp: send_conn_def split: option.splits prod.splits)

lemma send_conn_result: "conns s' i = conns s i \<Longrightarrow> snd (send_conn i m s') = snd (send_conn i m s)"
  by (simp add: send_conn_def split: option.splits prod.splits)

lemma broadcast_to_conns:
  "distinct (map snd ps) \<Longrightarrow> conns (broadcast_to ps m ex s) i =
     (if \<exists>a. (a, i) \<in> set ps \<and> a \<notin> set ex then map_option (\<lambda>c. fst (conn_send m c)) (conns s i) else conns s i)"
proof (induction ps arbitrary: s)
  case (Cons p ps)
  obtain a j where p: "p = (a, j)" by fastforce
  have "j \<notin> snd ` set ps" "distinct (map snd ps)" using Cons.prems p by auto
  then show ?case
    using Cons.IH [of s] Cons.IH [of "fst (send_conn j m s)"] p
    by (cases "i = j") (auto simp: send_conn_self send_conn_other rev_image_eqI)
qed simp

text \<open>When the heartbeat gives a peer up: the send fails, or nothing was read for 90 s.\<close>

definition heartbeat_dead :: "rat \<Rightarrow> pydict \<Rightarrow> 'a tcp_scheme \<Rightarrow> cid \<Rightarrow> bool" where
  "heartbeat_dead now hb s i \<longleftrightarrow> snd (send_conn i hb s) \<noteq> None \<or>
     (case conns s i of None \<Rightarrow> False | Some c \<Rightarrow> idle_seconds now c > HEARTBEAT_IDLE_TIMEOUT)"

lemma heartbeat_dead_same: "conns s' i = conns s i \<Longrightarrow> heartbeat_dead now hb s' i = heartbeat_dead now hb s i"
  using send_conn_result [of s' i s hb] by (simp add: heartbeat_dead_def)

lemma conn_send_last_read: "c_last_read (fst (conn_send m c)) = c_last_read c"
  using conn_send_le [of c m] by (simp add: conn_le_def)

lemma heartbeat_scan_dead:
  "distinct (map snd ps) \<Longrightarrow>
   set (snd (heartbeat_scan now hb ps s)) = fst ` set (filter (\<lambda>kv. heartbeat_dead now hb s (snd kv)) ps)"
proof (induction ps arbitrary: s)
  case (Cons p ps)
  obtain a i where p: "p = (a, i)" by fastforce
  obtain s1 e where snd: "send_conn i hb s = (s1, e)" by fastforce
  have other: "conns s1 j = conns s j" if ji: "j \<noteq> i" for j
    using ji send_conn_other [of i j hb s] snd by simp
  have same: "heartbeat_dead now hb s1 j = heartbeat_dead now hb s j" if ji: "j \<noteq> i" for j
    by (rule heartbeat_dead_same, rule other, rule ji)
  have i: "i \<notin> snd ` set ps" "distinct (map snd ps)" using Cons.prems p by auto
  have rest: "filter (\<lambda>kv. heartbeat_dead now hb s1 (snd kv)) ps = filter (\<lambda>kv. heartbeat_dead now hb s (snd kv)) ps"
    by (rule filter_cong [OF refl], rule same) (metis i(1) imageI)
  have "conns s1 i = map_option (\<lambda>c. fst (conn_send hb c)) (conns s i)"
    using send_conn_self [of i hb s] snd by simp
  then have "(e \<noteq> None \<or> (case conns s1 i of None \<Rightarrow> False | Some c \<Rightarrow> idle_seconds now c > HEARTBEAT_IDLE_TIMEOUT))
      = heartbeat_dead now hb s i"
    using snd by (cases "conns s i") (auto simp: heartbeat_dead_def conn_send_last_read)
  moreover obtain s2 d where sc: "heartbeat_scan now hb ps s1 = (s2, d)" by fastforce
  moreover define X where "X = fst ` set (filter (\<lambda>kv. heartbeat_dead now hb s (snd kv)) ps)"
  moreover have "set d = X" using Cons.IH [OF i(2), of s1] sc by (simp only: rest X_def) simp
  moreover have "fst ` set (filter (\<lambda>kv. heartbeat_dead now hb s (snd kv)) (p # ps)) =
      (if heartbeat_dead now hb s i then insert a X else X)"
    by (simp add: X_def p)
  ultimately show ?case using p snd by (simp only:) (auto simp: Let_def)
qed simp

section \<open>The contract of a message handler\<close>

text \<open>
  What the manager relies on when it calls the handler of its owner: the handler may send
  and start jobs, and leaves the table of peers to the manager. Everything the manager
  promises of its table holds for every such handler.
\<close>

locale msg_handler =
  fixes h :: "('a tcp_scheme) handler"
  assumes handler_keeps: "keeps_table s (fst (h a m s))"
begin

lemma call_keeps: "keeps_table s (fst (call_handler h a m s))"
  by (auto simp: call_handler_def intro: handler_keeps)

lemma call_peers [simp]: "peers (fst (call_handler h a m s)) = peers s"
  using call_keeps [of s a m] by (simp add: keeps_table_def)

lemma call_inv [intro]: "tcp_inv s \<Longrightarrow> tcp_inv (fst (call_handler h a m s))"
  by (rule tcp_inv_keeps [OF call_keeps])

lemma end_read_loop_peers: "peers (end_read_loop h a i s) = dpop a (peers s)"
  by (simp add: end_read_loop_def Let_def)

lemma end_read_loop_inv: "tcp_inv s \<Longrightarrow> tcp_inv (end_read_loop h a i s)"
  unfolding end_read_loop_def Let_def by (rule call_inv) (auto intro: tcp_inv_pop)

lemma handle_incoming_peers:
  "peers (handle_incoming h pn i out s) = peers s \<or>
   (\<exists>hello rid. out = Msg hello \<and> check_hello (self_id s) hello = Inr (Some rid) \<and>
      peers (handle_incoming h pn i out s) = peers (adopt rid (take 12 rid @ ''@'' @ peername_addr pn) i s))"
proof (cases out)
  case (Msg hello)
  show ?thesis
  proof (cases "\<exists>rid. check_hello (self_id s) hello = Inr (Some rid)")
    case True
    then obtain rid where r: "check_hello (self_id s) hello = Inr (Some rid)" by blast
    define s1 where "s1 = adopt rid (take 12 rid @ ''@'' @ peername_addr pn) i s"
    obtain s2 e where c: "call_handler h (take 12 rid @ ''@'' @ peername_addr pn) hello s1 = (s2, e)" by fastforce
    then have "peers s2 = peers s1" using call_peers by (metis fst_conv)
    then have "peers (handle_incoming h pn i out s) = peers s1"
      using Msg r c by (cases e) (auto simp: handle_incoming_def Let_def s1_def spawn_def)
    then show ?thesis using Msg r by (auto simp: s1_def)
  qed (auto simp: handle_incoming_def Msg split: sum.splits option.splits)
qed (simp_all add: handle_incoming_def)

lemma handle_incoming_inv:
  assumes "tcp_inv s" "conns s i \<noteq> None" "i \<notin> snd ` set (peers s)"
  shows "tcp_inv (handle_incoming h pn i out s)"
proof (cases out)
  case (Msg hello)
  show ?thesis
  proof (cases "\<exists>rid. check_hello (self_id s) hello = Inr (Some rid)")
    case True
    then obtain rid where r: "check_hello (self_id s) hello = Inr (Some rid)" by blast
    define a where "a = take 12 rid @ ''@'' @ peername_addr pn"
    have inv1: "tcp_inv (adopt rid a i s)" using assms by (rule adopt_inv) (simp add: a_def)
    obtain s2 e where c: "call_handler h a hello (adopt rid a i s) = (s2, e)" by fastforce
    have "tcp_inv s2" using call_inv [OF inv1, of a hello] c by simp
    then have "tcp_inv (close_conn i s2)" "tcp_inv (spawn (ReadLoop a i) s2)"
      by (auto intro: tcp_inv_keeps)
    then show ?thesis
      using Msg r c by (cases e) (auto simp: handle_incoming_def Let_def a_def)
  qed (use assms in \<open>auto simp: handle_incoming_def Msg split: sum.splits option.splits\<close>)
qed (use assms in \<open>auto simp: handle_incoming_def\<close>)

lemma read_loop_step_inv:
  assumes "tcp_inv s"
  shows "tcp_inv (fst (read_loop_step h now a i s))"
proof (cases "stopped s \<or> conns s i = None")
  case True
  then show ?thesis using assms by (auto simp: read_loop_step_def end_read_loop_inv)
next
  case False
  then obtain c where c: "conns s i = Some c" by blast
  obtain c' out where r: "conn_recv now c = (c', out)" by fastforce
  define s1 where "s1 = s\<lparr>conns := (conns s)(i \<mapsto> c')\<rparr>"
  have inv1: "tcp_inv s1" unfolding s1_def by (rule tcp_inv_same [OF assms]) (auto simp: c)
  show ?thesis
  proof (cases out)
    case (Msg m)
    obtain s2 e where h: "call_handler h a m s1 = (s2, e)" by fastforce
    have "tcp_inv s2" using call_inv [OF inv1, of a m] h by simp
    then show ?thesis
      using False c r Msg h by (cases e) (auto simp: read_loop_step_def Let_def s1_def end_read_loop_inv)
  qed (use False c r inv1 in \<open>auto simp: read_loop_step_def Let_def s1_def end_read_loop_inv\<close>)
qed

lemma finish_connect_inv:
  assumes "tcp_inv s" "conns s i \<noteq> None" "i \<notin> snd ` set (peers s)"
  shows "tcp_inv (fst (finish_connect h canonical i ack s))"
proof (cases "\<exists>m rid. ack = Some (Msg m) \<and> py_get m ''type'' JNull = Inr (JStr (mt HELLO_ACK)) \<and>
    bindE (py_get m ''node_id'' (JStr [])) py_str = Inr rid")
  case True
  then obtain m rid where t: "ack = Some (Msg m)" "py_get m ''type'' JNull = Inr (JStr (mt HELLO_ACK))"
    "bindE (py_get m ''node_id'' (JStr [])) py_str = Inr rid" by blast
  define a where "a = take 12 rid @ ''@'' @ canonical"
  have inv1: "tcp_inv (adopt rid a i s)" using assms by (rule adopt_inv) (simp add: a_def)
  obtain s2 e where c: "call_handler h a m (adopt rid a i s) = (s2, e)" by fastforce
  have "tcp_inv s2" using call_inv [OF inv1, of a m] c by simp
  then show ?thesis
    using t c by (cases e) (auto simp: finish_connect_def Let_def a_def intro: tcp_inv_keeps)
next
  case False
  then show ?thesis
    using assms(1)
    by (cases ack) (auto simp: finish_connect_def Let_def split: recv_out.splits sum.splits if_splits)
qed

lemma finish_connect_conns:
  assumes "conns s i \<noteq> None"
  shows "conns (fst (finish_connect h canonical i ack s)) i \<noteq> None"
proof (cases "\<exists>m rid. ack = Some (Msg m) \<and> py_get m ''type'' JNull = Inr (JStr (mt HELLO_ACK)) \<and>
    bindE (py_get m ''node_id'' (JStr [])) py_str = Inr rid")
  case True
  then obtain m rid where t: "ack = Some (Msg m)" "py_get m ''type'' JNull = Inr (JStr (mt HELLO_ACK))"
    "bindE (py_get m ''node_id'' (JStr [])) py_str = Inr rid" by blast
  define a where "a = take 12 rid @ ''@'' @ canonical"
  obtain s2 e where c: "call_handler h a m (adopt rid a i s) = (s2, e)" by fastforce
  have "conns s2 i \<noteq> None"
    using keeps_table_dom [OF call_keeps [of "adopt rid a i s" a m], of i] c adopt_conns [of rid a i s i] assms by simp
  then show ?thesis
    using t c by (cases e) (auto simp: finish_connect_def Let_def a_def spawn_def)
next
  case False
  then show ?thesis
    using assms
    by (cases ack) (auto simp: finish_connect_def Let_def split: recv_out.splits sum.splits if_splits)
qed

lemma connect_to_peer_inv:
  assumes "tcp_inv s" "\<And>i ack. net = Opened i ack \<Longrightarrow> conns s i = None"
  shows "tcp_inv (fst (connect_to_peer h now ad hello net s))"
proof (cases net)
  case Refused
  then show ?thesis
    using assms(1) by (auto simp: connect_to_peer_def Let_def split: sum.splits option.splits)
next
  case (Opened i ack)
  have fresh: "i \<notin> snd ` set (peers s)"
    using assms Opened by (auto simp: tcp_inv_def)
  have new: "tcp_inv (s\<lparr>conns := (conns s)(i \<mapsto> new_conn c now)\<rparr>)" for c
    using assms(1) by (auto simp: tcp_inv_def)
  have fin: "tcp_inv (fst (finish_connect h c i ack s'))"
    if "keeps_table (s\<lparr>conns := (conns s)(i \<mapsto> new_conn c now)\<rparr>) s'" for c s'
  proof (rule finish_connect_inv)
    show "tcp_inv s'" by (rule tcp_inv_keeps [OF that new])
    show "conns s' i \<noteq> None" using keeps_table_dom [OF that, of i] by simp
    show "i \<notin> snd ` set (peers s')" using that fresh by (simp add: keeps_table_def)
  qed
  show ?thesis
  proof (cases "dial_target (tcp_port s) ad")
    case (Inr t)
    show ?thesis
    proof (cases t)
      case (Some hp)
      obtain host p where hp: "hp = (host, p)" by fastforce
      let ?s1 = "s\<lparr>conns := (conns s)(i \<mapsto> new_conn (canonical_addr host p) now)\<rparr>"
      obtain s2 e where snd: "send_conn i hello ?s1 = (s2, e)" by fastforce
      have k: "keeps_table ?s1 s2" using keeps_send_conn [of ?s1 i hello] snd by simp
      show ?thesis
        using assms(1) Inr Some hp Opened snd fin [OF k] fin [of _ ?s1] tcp_inv_keeps [OF k new]
        by (cases e) (auto simp: connect_to_peer_def Let_def)
    qed (use assms(1) Inr in \<open>auto simp: connect_to_peer_def\<close>)
  qed (use assms(1) in \<open>auto simp: connect_to_peer_def\<close>)
qed

lemma purge_dead_inv: "tcp_inv s \<Longrightarrow> tcp_inv (fst (purge_dead h as s))"
proof (induction as arbitrary: s)
  case (Cons a as)
  show ?case
  proof (cases "map_of (peers s) a")
    case (Some i)
    define s1 where "s1 = close_conn i (s\<lparr>peers := dpop a (peers s)\<rparr>)"
    have "tcp_inv s1" unfolding s1_def by (rule tcp_inv_pop [OF Cons.prems]) auto
    obtain s2 e where c: "call_handler h a bye_notice s1 = (s2, e)" by fastforce
    then have "tcp_inv s2" using call_inv [OF \<open>tcp_inv s1\<close>, of a bye_notice] by simp
    then show ?thesis
      using Some c Cons.IH [of s2] by (cases e) (simp_all add: s1_def)
  qed (simp add: Cons)
qed simp

lemma heartbeat_scan_keeps: "keeps_table s (fst (heartbeat_scan now hb ps s))"
proof (induction ps arbitrary: s)
  case (Cons p ps)
  obtain a i where p: "p = (a, i)" by fastforce
  obtain s1 e where snd: "send_conn i hb s = (s1, e)" by fastforce
  then have "keeps_table s s1" using keeps_send_conn [of s i hb] by simp
  then show ?case
    using Cons [of s1] p snd by (auto simp: Let_def split: prod.splits intro: keeps_table_trans)
qed simp

lemma heartbeat_tick_inv: "tcp_inv s \<Longrightarrow> tcp_inv (fst (heartbeat_tick ord h now ts s))"
proof -
  assume inv: "tcp_inv s"
  let ?hb = "heartbeat_msg (JStr (self_id s)) ts"
  obtain s1 dead where sc: "heartbeat_scan now ?hb (peers s) s = (s1, dead)" by fastforce
  then have "tcp_inv s1"
    using tcp_inv_keeps [OF heartbeat_scan_keeps inv, of now ?hb "peers s"] by simp
  then show ?thesis using sc by (simp add: heartbeat_tick_def purge_dead_inv)
qed

end


text \<open>A handler that takes the notice of a lost connection without raising.\<close>

locale quiet_handler = msg_handler +
  assumes notice_ok: "snd (h a bye_notice s) = None"
begin

lemma call_notice: "\<exists>s'. call_handler h a bye_notice s = (s', None)"
  using notice_ok [of a s] by (cases "h a bye_notice s") (auto simp: call_handler_def)

lemma purge_dead_peers:
  "snd (purge_dead h as s) = None \<and> peers (fst (purge_dead h as s)) = filter (\<lambda>kv. fst kv \<notin> set as) (peers s)"
proof (induction as arbitrary: s)
  case (Cons a as)
  show ?case
  proof (cases "map_of (peers s) a")
    case None
    then have "filter (\<lambda>kv. fst kv \<notin> set (a # as)) (peers s) = filter (\<lambda>kv. fst kv \<notin> set as) (peers s)"
      by (intro filter_cong) (auto simp: map_of_eq_None_iff)
    then show ?thesis using None Cons.IH [of s] by simp
  next
    case (Some i)
    define s1 where "s1 = close_conn i (s\<lparr>peers := dpop a (peers s)\<rparr>)"
    obtain s2 where c: "call_handler h a bye_notice s1 = (s2, None)" using call_notice by blast
    then have "peers s2 = dpop a (peers s)" using call_peers [of a bye_notice s1] by (simp add: s1_def)
    then show ?thesis
      using Some c Cons.IH [of s2] by (auto simp: s1_def AList.delete_eq intro!: filter_cong)
  qed
qed simp

lemma heartbeat_tick_peers:
  assumes "order_ok ord" "tcp_inv s"
  shows "snd (heartbeat_tick ord h now ts s) = None \<and>
    peers (fst (heartbeat_tick ord h now ts s)) =
      filter (\<lambda>kv. \<not> heartbeat_dead now (heartbeat_msg (JStr (self_id s)) ts) s (snd kv)) (peers s)"
proof -
  let ?hb = "heartbeat_msg (JStr (self_id s)) ts"
  obtain s1 dead where sc: "heartbeat_scan now ?hb (peers s) s = (s1, dead)" by fastforce
  have dist: "distinct (map snd (peers s))" "distinct (dkeys (peers s))"
    using assms(2) by (auto simp: tcp_inv_def)
  have dead: "set dead = fst ` set (filter (\<lambda>kv. heartbeat_dead now ?hb s (snd kv)) (peers s))"
    using heartbeat_scan_dead [OF dist(1), of now ?hb s] sc by simp
  have "peers s1 = peers s"
    using heartbeat_scan_keeps [of s now ?hb "peers s"] sc by (simp add: keeps_table_def)
  moreover have "fst kv \<notin> set dead \<longleftrightarrow> \<not> heartbeat_dead now ?hb s (snd kv)" if "kv \<in> set (peers s)" for kv
    using that dist(2) by (auto simp: dead) (metis eq_key_imp_eq_value prod.collapse)
  ultimately show ?thesis
    using purge_dead_peers [of "ord (set_of dead)" s1] sc assms(1)
    by (simp add: heartbeat_tick_def cong: filter_cong)
qed

end

section \<open>Invariants of the handler\<close>

lemma more_send_conn [simp]: "tcp.more (fst (send_conn i m s)) = tcp.more s"
  by (simp add: send_conn_def split: option.splits prod.splits)

lemma more_send_to [simp]: "tcp.more (fst (send_to a m s)) = tcp.more s"
  by (simp add: send_to_def split: option.splits)

lemma more_broadcast_to [simp]: "tcp.more (broadcast_to ps m ex s) = tcp.more s"
  by (induction ps m ex s rule: broadcast_to.induct) auto

lemma more_broadcast [simp]: "tcp.more (broadcast m ex s) = tcp.more s"
  by (simp add: broadcast_def)

lemma more_spawn [simp]: "tcp.more (spawn j s) = tcp.more s"
  by (simp add: spawn_def)

lemma more_heartbeat_scan: "tcp.more (fst (heartbeat_scan now hb ps s)) = tcp.more s"
proof (induction ps arbitrary: s)
  case (Cons p ps)
  obtain a i where p: "p = (a, i)" by fastforce
  obtain s1 e where snd: "send_conn i hb s = (s1, e)" by fastforce
  then have "tcp.more s1 = tcp.more s" using more_send_conn [of i hb s] by simp
  then show ?case using Cons.IH [of s1] p snd by (auto simp: Let_def split: prod.split)
qed simp

text \<open>
  A handler with an invariant of its own: a property of what the manager does not write (its
  owner's fields and the node id) that the handler preserves. Every operation of the manager
  then preserves it, although it calls the handler in between.
\<close>

lemma more_simps [simp]:
  "tcp.more (upd_conn i f s) = tcp.more s" "tcp.more (close_conn i s) = tcp.more s"
  "tcp.more (fst (remove_stale_peer p s)) = tcp.more s" "tcp.more (adopt rid a i s) = tcp.more s"
  by (auto simp: upd_conn_def close_conn_def remove_stale_peer_def adopt_def Let_def split: option.split)

lemma self_simps [simp]:
  "self_id (adopt rid a i s) = self_id s" "self_id (spawn j s) = self_id s"
  by (simp_all add: adopt_def Let_def spawn_def)

locale inv_handler = msg_handler +
  fixes P :: "'a tcp_scheme \<Rightarrow> bool"
  assumes P_handler: "P s \<Longrightarrow> P (fst (h a m s))"
    and P_same: "tcp.more s' = tcp.more s \<Longrightarrow> self_id s' = self_id s \<Longrightarrow> P s \<Longrightarrow> P s'"
begin

lemma P_call: "P s \<Longrightarrow> P (fst (call_handler h a m s))"
  by (simp add: call_handler_def P_handler)

lemma P_call_eq: "call_handler h a m s = (s', e) \<Longrightarrow> P s \<Longrightarrow> P s'"
  using P_call [of s a m] by simp

lemma P_close: "P s \<Longrightarrow> P (close_conn i s)"
  by (erule P_same [rotated 2]) simp_all

lemma P_peers: "P s \<Longrightarrow> P (s\<lparr>peers := ps\<rparr>)"
  by (erule P_same [rotated 2]) simp_all

lemma P_conns: "P s \<Longrightarrow> P (s\<lparr>conns := cs\<rparr>)"
  by (erule P_same [rotated 2]) simp_all

lemma P_spawn: "P s \<Longrightarrow> P (spawn j s)"
  by (erule P_same [rotated 2]) simp_all

lemma P_adopt: "P s \<Longrightarrow> P (adopt rid a i s)"
  by (erule P_same [rotated 2]) simp_all

lemma P_send: "send_conn i m s = (s', e) \<Longrightarrow> P s \<Longrightarrow> P s'"
  using more_send_conn [of i m s] keeps_send_conn [of s i m]
  by (intro P_same [of s' s]) (auto simp: keeps_table_def)

lemma P_end: "P s \<Longrightarrow> P (end_read_loop h a i s)"
  by (simp add: end_read_loop_def Let_def P_call P_peers P_close)

lemma P_incoming: "P s \<Longrightarrow> P (handle_incoming h pn i out s)"
  by (auto simp: handle_incoming_def Let_def intro!: P_close P_spawn
      dest: P_call_eq [OF _ P_adopt] split: recv_out.split sum.split option.split prod.split)

lemma P_read: "P s \<Longrightarrow> P (fst (read_loop_step h now a i s))"
  by (auto simp: read_loop_step_def Let_def intro!: P_end P_conns
      dest: P_call_eq [OF _ P_conns] split: recv_out.split option.split prod.split)

lemma P_finish: "P s \<Longrightarrow> P (fst (finish_connect h c i ack s))"
  by (auto simp: finish_connect_def Let_def intro!: P_close P_spawn
      dest: P_call_eq [OF _ P_adopt] split: recv_out.split sum.split option.split prod.split)

lemma P_connect: "P s \<Longrightarrow> P (fst (connect_to_peer h now ad hello net s))"
  by (auto simp: connect_to_peer_def Let_def intro!: P_finish P_conns
      dest: P_send [OF _ P_conns] split: dial_result.split sum.split option.split prod.split)

lemma P_purge: "P s \<Longrightarrow> P (fst (purge_dead h as s))"
proof (induction as arbitrary: s)
  case (Cons a as)
  show ?case
  proof (cases "map_of (peers s) a")
    case (Some i)
    define s1 where "s1 = close_conn i (s\<lparr>peers := dpop a (peers s)\<rparr>)"
    obtain s2 e where c: "call_handler h a bye_notice s1 = (s2, e)" by fastforce
    have "P s2" by (rule P_call_eq [OF c]) (simp add: s1_def P_close P_peers Cons.prems)
    then show ?thesis using Some c Cons.IH by (cases e) (simp_all add: s1_def)
  qed (simp add: Cons)
qed simp

lemma P_tick: "P s \<Longrightarrow> P (fst (heartbeat_tick ord h now ts s))"
proof -
  assume P: "P s"
  let ?hb = "heartbeat_msg (JStr (self_id s)) ts"
  obtain s1 dead where sc: "heartbeat_scan now ?hb (peers s) s = (s1, dead)" by fastforce
  have "P s1"
    using more_heartbeat_scan [of now ?hb "peers s" s] heartbeat_scan_keeps [of s now ?hb "peers s"] sc P
    by (intro P_same [of s1 s]) (auto simp: keeps_table_def)
  then show ?thesis using sc by (simp add: heartbeat_tick_def P_purge)
qed

end

lemma more_bye_all: "tcp.more (bye_all ps s) = tcp.more s \<and> self_id (bye_all ps s) = self_id s"
proof (induction ps s rule: bye_all.induct)
  case (2 a i ps s)
  then show ?case using keeps_send_conn [of s i bye_msg] by (simp add: keeps_table_def)
qed simp

lemma more_stop: "tcp.more (stop s) = tcp.more s \<and> self_id (stop s) = self_id s"
  using more_bye_all [of "peers s" "s\<lparr>stopped := True\<rparr>"] by (simp add: stop_def)

lemma stop_inv: "tcp_inv (stop s)"
  by (simp add: stop_def tcp_inv_def)

section \<open>Streams of messages on a connection\<close>

definition send_all :: "pydict list \<Rightarrow> conn \<Rightarrow> conn" where
  "send_all ms c = foldl (\<lambda>c m. fst (conn_send m c)) c ms"

fun recv_n :: "rat \<Rightarrow> nat \<Rightarrow> conn \<Rightarrow> recv_out list \<times> conn" where
  "recv_n now 0 c = ([], c)"
| "recv_n now (Suc k) c = (case conn_recv now c of (c', out) \<Rightarrow> apfst (Cons out) (recv_n now k c'))"

lemma send_all_sent:
  "c_alive c \<Longrightarrow> \<not> c_broken c \<Longrightarrow> list_all frame_ok ms \<Longrightarrow>
   c_sent (send_all ms c) = c_sent c @ concat (map frame_bytes ms)"
proof (induction ms arbitrary: c)
  case (Cons m ms)
  obtain fr where fr: "encode_frame m = Inr fr" using Cons.prems by (auto simp: frame_ok_def)
  then have "conn_send m c = (c\<lparr>c_sent := c_sent c @ fr\<rparr>, None)" using Cons.prems by (simp add: conn_send_ok)
  then show ?case
    using Cons.IH [of "c\<lparr>c_sent := c_sent c @ fr\<rparr>"] Cons.prems fr
    by (simp add: send_all_def frame_bytes_def)
qed (simp add: send_all_def)

lemma conn_recv_frame:
  "frame_ok m \<Longrightarrow> c_buf c = frame_bytes m @ rest \<Longrightarrow>
   conn_recv now c = (c\<lparr>c_buf := rest, c_last_read := now\<rparr>, Msg (JObj m))"
  by (auto simp: conn_recv_def frame_ok_def frame_bytes_def read_encode_frame)

lemma recv_n_frames:
  "list_all frame_ok ms \<Longrightarrow> c_buf c = concat (map frame_bytes ms) @ rest \<Longrightarrow>
   fst (recv_n now (length ms) c) = map (\<lambda>m. Msg (JObj m)) ms \<and> c_buf (snd (recv_n now (length ms) c)) = rest"
proof (induction ms arbitrary: c)
  case (Cons m ms)
  then have "conn_recv now c = (c\<lparr>c_buf := concat (map frame_bytes ms) @ rest, c_last_read := now\<rparr>, Msg (JObj m))"
    by (intro conn_recv_frame) auto
  then show ?case using Cons.IH Cons.prems by simp
qed simp

section \<open>Properties\<close>

text \<open>
  messages sent one after the other on a live connection arrive in order and unchanged:
  a receiver whose buffer holds the bytes the sender wrote reads exactly those messages, and
  what follows them stays in the buffer.
\<close>

lemma connection_fifo:
  assumes "c_alive c" "\<not> c_broken c" "c_sent c = []" "list_all frame_ok ms"
    "c_buf d = c_sent (send_all ms c) @ rest"
  shows "fst (recv_n now (length ms) d) = map (\<lambda>m. Msg (JObj m)) ms \<and>
    c_buf (snd (recv_n now (length ms) d)) = rest"
  using recv_n_frames [OF assms(4)] send_all_sent [OF assms(1,2,4)] assms(3,5) by simp

lemma connection_fifo_witness:
  "fst (recv_n 7 2 (new_conn ''h:1'' 0\<lparr>c_buf := c_sent (send_all [bye_msg, bye_msg] (new_conn ''h:2'' 0)) @ [65]\<rparr>))
     = [Msg (JObj bye_msg), Msg (JObj bye_msg)]"
  using connection_fifo [of "new_conn ''h:2'' 0" "[bye_msg, bye_msg]"
      "new_conn ''h:1'' 0\<lparr>c_buf := c_sent (send_all [bye_msg, bye_msg] (new_conn ''h:2'' 0)) @ [65]\<rparr>" "[65]" 7]
  by (simp add: new_conn_def bye_frame_ok numeral_2_eq_2)

lemma broadcast_conns:
  assumes "tcp_inv s" "(a, i) \<in> set (peers s)" "conns s i = Some c" "encode_frame m = Inr fr"
  shows "conns (broadcast m ex s) i = Some
      (if a \<in> set ex \<or> \<not> c_alive c then c
       else if c_broken c then c\<lparr>c_alive := False\<rparr> else c\<lparr>c_sent := c_sent c @ fr\<rparr>) \<and>
    peers (broadcast m ex s) = peers s"
proof -
  have "distinct (map snd (peers s))" using assms(1) by (simp add: tcp_inv_def)
  moreover from this have "b = a" if "(b, i) \<in> set (peers s)" for b
    using that assms(2) by (metis distinct_map fst_conv inj_onD snd_conv)
  then have ex: "(\<exists>b. (b, i) \<in> set (peers s) \<and> b \<notin> set ex) \<longleftrightarrow> a \<notin> set ex"
    using assms(2) by blast
  ultimately have "conns (broadcast m ex s) i =
      (if a \<notin> set ex then Some (fst (conn_send m c)) else Some c)"
    by (simp add: broadcast_def broadcast_to_conns ex assms(3))
  then show ?thesis
    using assms(4) keeps_broadcast [of s m ex] by (simp add: conn_send_def keeps_table_def)
qed

text \<open>
  C31: a broadcast writes exactly one frame on every live connection of the table whose
  address is not excluded, writes nothing on the others, finds out which ones are broken,
  and changes no entry of the table.
\<close>

theorem broadcast_delivers:
  assumes "tcp_inv s" "(a, i) \<in> set (peers s)" "conns s i = Some c" "encode_frame m = Inr fr"
  shows "conns (broadcast m ex s) i = Some
      (if a \<in> set ex \<or> \<not> c_alive c then c
       else if c_broken c then c\<lparr>c_alive := False\<rparr> else c\<lparr>c_sent := c_sent c @ fr\<rparr>) \<and>
    peers (broadcast m ex s) = peers s"
  using assms by (rule broadcast_conns)

definition demo_tcp :: tcp where
  "demo_tcp = \<lparr>self_id = ''me'', tcp_port = 7878, started = True, listening = True, stopped = False,
     conns = [0 \<mapsto> new_conn ''h:1'' 0, 1 \<mapsto> new_conn ''h:2'' 0],
     peers = [(''a@h:1'', 0), (''b@h:2'', 1)], has_handler = True, jobs = []\<rparr>"

lemma demo_tcp_inv: "tcp_inv demo_tcp" "one_per_id demo_tcp"
  by (simp_all add: tcp_inv_def demo_tcp_def one_per_id_def key_id_def first_field_def)

theorem broadcast_delivers_witness:
  "conns (broadcast bye_msg [''a@h:1''] demo_tcp) 1 = Some (new_conn ''h:2'' 0\<lparr>c_sent := frame_bytes bye_msg\<rparr>)"
proof -
  obtain fr where "encode_frame bye_msg = Inr fr" using bye_frame_ok by (auto simp: frame_ok_def)
  then show ?thesis
    using broadcast_delivers [of demo_tcp "''b@h:2''" 1 "new_conn ''h:2'' 0" bye_msg fr "[''a@h:1'']"] demo_tcp_inv
    by (simp add: demo_tcp_def new_conn_def frame_bytes_def)
qed

lemma bye_all_conns:
  "distinct (map snd ps) \<Longrightarrow> conns (bye_all ps s) i =
     (if i \<in> snd ` set ps then map_option (\<lambda>c. conn_close (fst (conn_send bye_msg c))) (conns s i) else conns s i)"
proof (induction ps arbitrary: s)
  case (Cons p ps)
  obtain a j where p: "p = (a, j)" by fastforce
  then show ?case
    using Cons.IH [of "upd_conn j conn_close (fst (send_conn j bye_msg s))"] Cons.prems
    by (auto simp: send_conn_self send_conn_other option.map_comp comp_def rev_image_eqI)
qed simp

text \<open>
  stopping the manager empties the table, closes the listening socket and every
  connection of the table, and says BYE exactly once on each live connection.
\<close>

lemma stop_closes_all:
  assumes "tcp_inv s" "(a, i) \<in> set (peers s)" "conns s i = Some c"
  shows "peers (stop s) = [] \<and> \<not> listening (stop s) \<and>
    (\<exists>c'. conns (stop s) i = Some c' \<and> c_closed c' \<and> \<not> c_alive c' \<and>
       c_sent c' = c_sent c @ (if c_alive c \<and> \<not> c_broken c then frame_bytes bye_msg else []))"
proof -
  have "distinct (map snd (peers s))" "i \<in> snd ` set (peers s)"
    using assms(1,2) by (auto simp: tcp_inv_def rev_image_eqI)
  then have "conns (stop s) i = Some (conn_close (fst (conn_send bye_msg c)))"
    using assms(3) by (simp add: stop_def bye_all_conns)
  moreover obtain fr where "encode_frame bye_msg = Inr fr" using bye_frame_ok by (auto simp: frame_ok_def)
  ultimately show ?thesis
    by (simp add: stop_def conn_close_def conn_send_def frame_bytes_def)
qed

lemma stop_closes_all_witness:
  "peers (stop demo_tcp) = [] \<and> (\<exists>c'. conns (stop demo_tcp) 0 = Some c' \<and> c_closed c')"
  using stop_closes_all [of demo_tcp "''a@h:1''" 0 "new_conn ''h:1'' 0"] demo_tcp_inv
  by (auto simp: demo_tcp_def)

end
