(* ===== verification/Lan.thy ===== *)
theory Lan
  imports Protocol
begin

text \<open>
  \<open>elo/transport/discovery.py\<close>: announcements on the local network. A manager has a multicast
  transport when the operating system gives it one, announces its node every ten seconds
  until it is stopped, and reports the peers that the datagrams of others reveal. Opening the
  socket and writing a datagram succeed or fail from outside (\<open>ok\<close>).
\<close>

section \<open>Datagrams\<close>

text \<open>\<open>_handle_multicast\<close>: the peer an announcement reveals. Exceptions drop the datagram.\<close>

definition handle_multicast :: "(json \<Rightarrow> string) \<Rightarrow> string \<Rightarrow> json \<Rightarrow> string \<Rightarrow> (json \<times> string) option" where
  "handle_multicast repr own msg ip =
     (case msg of
        JObj d \<Rightarrow>
          (let node_id = dget d ''node_id'' JNull; p = dget d ''port'' JNull in
           if dget d ''type'' JNull = JStr ''announce'' \<and> py_truthy node_id \<and> py_truthy p then
             (case node_id of
                JStr s \<Rightarrow> if take 12 s = take 12 own then None
                          else Some (node_id, ip @ '':'' @ py_format repr p)
              | JArr _ \<Rightarrow> Some (node_id, ip @ '':'' @ py_format repr p)
              | _ \<Rightarrow> None)
           else None)
      | _ \<Rightarrow> None)"

definition datagram_received :: "(json \<Rightarrow> string) \<Rightarrow> string \<Rightarrow> byte list \<Rightarrow> string \<Rightarrow> (json \<times> string) option" where
  "datagram_received repr own bytes ip =
     (case utf8_decode bytes of
        None \<Rightarrow> None
      | Some s \<Rightarrow> (case loads s of None \<Rightarrow> None | Some j \<Rightarrow> handle_multicast repr own j ip))"

definition announcement :: "string \<Rightarrow> nat \<Rightarrow> byte list" where
  "announcement own p = utf8_encode (dump file_opts
     (JObj [(''type'', JStr ''announce''), (''node_id'', JStr own), (''port'', JInt (int p))]))"

section \<open>The manager\<close>

datatype lan_transport = No_transport | Transport_open | Transport_closed

text \<open>\<open>lan_task\<close>: the task of \<open>_announce_loop\<close> runs; \<open>lan_sent\<close>: the datagrams that were written.\<close>

record lan =
  lan_id :: string
  lan_port :: nat
  lan_transport :: lan_transport
  lan_task :: bool
  lan_shutdown :: bool
  lan_sent :: "byte list list"

definition new_lan :: "string \<Rightarrow> nat \<Rightarrow> lan" where
  "new_lan own p = \<lparr>lan_id = own, lan_port = p, lan_transport = No_transport, lan_task = False,
     lan_shutdown = False, lan_sent = []\<rparr>"

definition lan_start :: "bool \<Rightarrow> lan \<Rightarrow> lan" where
  "lan_start ok l = (if ok then l\<lparr>lan_transport := Transport_open, lan_task := True\<rparr> else l)"

text \<open>One announcement, through the transport or else through a socket of its own.\<close>

definition lan_announce :: "bool \<Rightarrow> lan \<Rightarrow> lan" where
  "lan_announce ok l =
     (if ok then l\<lparr>lan_sent := lan_sent l @ [announcement (lan_id l) (lan_port l)]\<rparr> else l)"

text \<open>One round of \<open>_announce_loop\<close>, down to its pause; False ends the task.\<close>

definition lan_round :: "bool \<Rightarrow> lan \<Rightarrow> lan \<times> bool" where
  "lan_round ok l = (if lan_shutdown l then (l\<lparr>lan_task := False\<rparr>, False) else (lan_announce ok l, True))"

definition lan_receive :: "(json \<Rightarrow> string) \<Rightarrow> byte list \<Rightarrow> string \<Rightarrow> lan \<Rightarrow> (json \<times> string) option" where
  "lan_receive repr bytes ip l =
     (if lan_transport l = Transport_open then datagram_received repr (lan_id l) bytes ip else None)"

definition lan_stop :: "lan \<Rightarrow> lan" where
  "lan_stop l = l\<lparr>lan_shutdown := True, lan_task := False,
     lan_transport := (if lan_transport l = Transport_open then Transport_closed else lan_transport l)\<rparr>"

section \<open>Lemmas\<close>

text \<open>
  An announcement is understood by every other manager and ignored by its sender: the datagram
  reveals the sender's id and the address to dial, built from the sender's IP and its
  announced port.
\<close>

lemma announcement_received:
  assumes "own \<noteq> []" "p \<noteq> 0"
  shows "datagram_received repr other (announcement own p) ip =
    (if take 12 own = take 12 other then None else Some (JStr own, ip @ '':'' @ show_nat p))"
proof -
  let ?j = "JObj [(''type'', JStr ''announce''), (''node_id'', JStr own), (''port'', JInt (int p))]"
  have "loads (dump file_opts ?j) = Some ?j" by (rule file_code.dec_enc) simp
  then show ?thesis
    using assms unfolding datagram_received_def announcement_def
    by (simp add: handle_multicast_def dget_def show_int_def del: dump.simps)
qed

text \<open>Only announcements of the node itself are ever written.\<close>

definition lan_inv :: "lan \<Rightarrow> bool" where
  "lan_inv l \<longleftrightarrow> set (lan_sent l) \<subseteq> {announcement (lan_id l) (lan_port l)}
     \<and> (lan_task l \<longrightarrow> lan_transport l = Transport_open)"

lemma lan_inv [intro]:
  "lan_inv (new_lan own p)" "lan_inv l \<Longrightarrow> lan_inv (lan_start ok l)" "lan_inv l \<Longrightarrow> lan_inv (lan_announce ok l)"
  "lan_inv l \<Longrightarrow> lan_inv (fst (lan_round ok l))" "lan_inv l \<Longrightarrow> lan_inv (lan_stop l)"
  by (auto simp: lan_inv_def new_lan_def lan_start_def lan_announce_def lan_round_def lan_stop_def)

lemma lan_stopped:
  "lan_receive repr bytes ip (lan_stop l) = None" "snd (lan_round ok (lan_stop l)) = False"
  "lan_sent (fst (lan_round ok (lan_stop l))) = lan_sent l"
  by (simp_all add: lan_receive_def lan_stop_def lan_round_def)

end
