(* ===== verification/Routing.thy ===== *)
theory Routing
  imports Json
begin

text \<open>
  \<open>elo/transport/routing.py\<close>: the interest table. Capability names and interests come off
  the wire, so they are decoded values (usually strings); peers are addresses. An operation
  that can raise returns the state it leaves and the exception, since it may have changed
  part of the table before raising.
\<close>

type_synonym addr = string

record interest_table =
  local_caps :: "json list"
  local_interests :: "json list"
  peer_caps :: "(addr \<times> json list) list"
  peer_interests :: "(addr \<times> json list) list"
  forwarding :: "(json \<times> addr list) list"

definition empty_table :: interest_table where
  "empty_table = \<lparr>local_caps = [], local_interests = [], peer_caps = [], peer_interests = [], forwarding = []\<rparr>"

section \<open>Reading capability lists\<close>

text \<open>\<open>s.add(item.get("name", ""))\<close> for every item, stopping at the first exception.\<close>

definition item_name :: "json \<Rightarrow> exn + json" where
  "item_name item = bindE (py_get item ''name'' (JStr []))
     (\<lambda>n. if hashable n then Inr n else Inl TypeErr)"

fun add_items :: "json list \<Rightarrow> json list \<Rightarrow> json list \<times> exn option" where
  "add_items s [] = (s, None)"
| "add_items s (x # xs) = (case item_name x of
     Inl e \<Rightarrow> (s, Some e)
   | Inr n \<Rightarrow> add_items (set_add n s) xs)"

fun add_categories :: "json list \<Rightarrow> json \<Rightarrow> string list \<Rightarrow> json list \<times> exn option" where
  "add_categories s caps [] = (s, None)"
| "add_categories s caps (c # cs) =
     (case bindE (py_get caps c (JArr [])) py_iter of
        Inl e \<Rightarrow> (s, Some e)
      | Inr xs \<Rightarrow> (case add_items s xs of
          (s', Some e) \<Rightarrow> (s', Some e)
        | (s', None) \<Rightarrow> add_categories s' caps cs))"

definition cap_names :: "json list \<Rightarrow> json \<Rightarrow> json list \<times> exn option" where
  "cap_names s caps = add_categories s caps [''agents'', ''models'', ''tools'']"

text \<open>\<open>set(v)\<close>.\<close>

definition py_set :: "json \<Rightarrow> exn + json list" where
  "py_set v = bindE (py_iter v) (\<lambda>xs. if list_all hashable xs then Inr (set_of xs) else Inl TypeErr)"

section \<open>Local side\<close>

definition set_local_caps :: "json \<Rightarrow> interest_table \<Rightarrow> interest_table \<times> exn option" where
  "set_local_caps caps t = (case cap_names [] caps of (s, e) \<Rightarrow> (t\<lparr>local_caps := s\<rparr>, e))"

definition set_local_interests :: "json list \<Rightarrow> interest_table \<Rightarrow> exn + interest_table" where
  "set_local_interests interests t =
     bindE (py_set (JArr interests)) (\<lambda>s. Inr (t\<lparr>local_interests := s\<rparr>))"

definition has_local :: "json \<Rightarrow> interest_table \<Rightarrow> bool" where
  "has_local cap t \<longleftrightarrow> cap \<in> set (local_caps t)"

section \<open>Peers\<close>

definition fwd :: "interest_table \<Rightarrow> json \<Rightarrow> addr list" where
  "fwd t cap = dget (forwarding t) cap []"

definition fwd_add :: "addr \<Rightarrow> (json \<times> addr list) list \<Rightarrow> json \<Rightarrow> (json \<times> addr list) list" where
  "fwd_add a fw cap = dset cap (set_add a (dget fw cap [])) fw"

definition fwd_discard :: "addr \<Rightarrow> (json \<times> addr list) list \<Rightarrow> json \<Rightarrow> (json \<times> addr list) list" where
  "fwd_discard a fw cap = (case map_of fw cap of None \<Rightarrow> fw | Some s \<Rightarrow> dset cap (set_discard a s) fw)"

definition register_peer :: "addr \<Rightarrow> json \<Rightarrow> json \<Rightarrow> interest_table \<Rightarrow> interest_table \<times> exn option" where
  "register_peer a caps interests t =
     (case cap_names [] caps of
        (_, Some e) \<Rightarrow> (t, Some e)
      | (cap_set, None) \<Rightarrow>
          (let t1 = t\<lparr>peer_caps := dset a cap_set (peer_caps t)\<rparr> in
           case py_set interests of
             Inl e \<Rightarrow> (t1, Some e)
           | Inr s \<Rightarrow>
               (t1\<lparr>peer_interests := dset a s (peer_interests t1),
                   forwarding := foldl (fwd_add a) (forwarding t1) cap_set\<rparr>, None)))"

definition remove_peer :: "addr \<Rightarrow> interest_table \<Rightarrow> interest_table" where
  "remove_peer a t =
     (let old_caps = dget (peer_caps t) a [] in
      t\<lparr>peer_caps := dpop a (peer_caps t),
        forwarding := foldl (fwd_discard a) (forwarding t) old_caps,
        peer_interests := dpop a (peer_interests t)\<rparr>)"

text \<open>\<open>next(iter(peers))\<close>: the first peer in the iteration order \<open>ord\<close> of the set.\<close>

definition find_peer_for :: "(addr list \<Rightarrow> addr list) \<Rightarrow> json \<Rightarrow> interest_table \<Rightarrow> exn + addr option" where
  "find_peer_for ord cap t =
     (if \<not> hashable cap then Inl TypeErr
      else Inr (case ord (fwd t cap) of [] \<Rightarrow> None | p # _ \<Rightarrow> Some p))"

definition find_all_peers_for :: "json \<Rightarrow> interest_table \<Rightarrow> exn + addr list" where
  "find_all_peers_for cap t = (if hashable cap then Inr (fwd t cap) else Inl TypeErr)"

text \<open>\<open>any(capability.startswith(i.split(":")[0]) for i in interests)\<close>, in iteration order.\<close>

fun any_interest :: "string \<Rightarrow> json list \<Rightarrow> exn + bool" where
  "any_interest cap [] = Inr False"
| "any_interest cap (i # is) = (case i of
     JStr s \<Rightarrow> if starts_with cap (first_field (CHR '':'') s) then Inr True else any_interest cap is
   | _ \<Rightarrow> Inl AttributeErr)"

fun interested_peers :: "(json list \<Rightarrow> json list) \<Rightarrow> string \<Rightarrow> addr list \<Rightarrow> (addr \<times> json list) list \<Rightarrow> exn + addr list" where
  "interested_peers jord cap exclude [] = Inr []"
| "interested_peers jord cap exclude ((a, is) # ps) =
     (if a \<in> set exclude then interested_peers jord cap exclude ps
      else bindE (any_interest cap (jord is))
        (\<lambda>b. bindE (interested_peers jord cap exclude ps) (\<lambda>r. Inr (if b then a # r else r))))"

definition query_peers :: "(addr list \<Rightarrow> addr list) \<Rightarrow> (json list \<Rightarrow> json list) \<Rightarrow> string \<Rightarrow> addr list \<Rightarrow>
    interest_table \<Rightarrow> exn + addr list" where
  "query_peers ord jord cap exclude t =
     (let direct = filter (\<lambda>p. p \<notin> set exclude) (ord (fwd t (JStr cap))) in
      if direct \<noteq> [] then Inr direct
      else bindE (interested_peers jord cap exclude (peer_interests t))
        (\<lambda>r. Inr (if r \<noteq> [] then r else filter (\<lambda>p. p \<notin> set exclude) (dkeys (peer_caps t)))))"

definition known_peers :: "interest_table \<Rightarrow> addr list" where
  "known_peers t = dkeys (peer_caps t)"

definition get_peer_caps :: "addr \<Rightarrow> interest_table \<Rightarrow> json list \<times> json list" where
  "get_peer_caps a t = (dget (peer_caps t) a [], dget (peer_interests t) a [])"

section \<open>What the operations do to the forwarding table\<close>

lemma fwd_add_get: "dget (fwd_add a fw cap) c [] = (if c = cap then set_add a (dget fw cap []) else dget fw c [])"
  by (simp add: fwd_add_def)

lemma fwd_add_fold:
  "set (dget (foldl (fwd_add a) fw caps) c []) = set (dget fw c []) \<union> (if c \<in> set caps then {a} else {})"
  by (induction caps arbitrary: fw) (auto simp: fwd_add_get)

lemma fwd_discard_get:
  "dget (fwd_discard a fw cap) c [] = (if c = cap then set_discard a (dget fw cap []) else dget fw c [])"
  by (auto simp: fwd_discard_def set_discard_def dget_def split: option.splits)

lemma fwd_discard_fold:
  "set (dget (foldl (fwd_discard a) fw caps) c []) = set (dget fw c []) - (if c \<in> set caps then {a} else {})"
  by (induction caps arbitrary: fw) (auto simp: fwd_discard_get)

lemma fwd_add_distinct:
  "(\<forall>c. distinct (dget fw c [])) \<Longrightarrow> \<forall>c. distinct (dget (foldl (fwd_add a) fw caps) c [])"
  by (induction caps arbitrary: fw) (simp_all add: fwd_add_get)

lemma fwd_discard_distinct:
  "(\<forall>c. distinct (dget fw c [])) \<Longrightarrow> \<forall>c. distinct (dget (foldl (fwd_discard a) fw caps) c [])"
  by (induction caps arbitrary: fw) (simp_all add: fwd_discard_get)

lemma register_peer_ok:
  "register_peer a caps interests t = (t', None) \<longleftrightarrow>
   (\<exists>cs s. cap_names [] caps = (cs, None) \<and> py_set interests = Inr s \<and>
     t' = t\<lparr>peer_caps := dset a cs (peer_caps t), peer_interests := dset a s (peer_interests t),
            forwarding := foldl (fwd_add a) (forwarding t) cs\<rparr>)"
  by (auto simp: register_peer_def Let_def split: prod.splits option.splits sum.splits)

lemma fwd_register:
  "register_peer a caps interests t = (t', None) \<Longrightarrow> cap_names [] caps = (cs, None) \<Longrightarrow>
   set (fwd t' c) = set (fwd t c) \<union> (if c \<in> set cs then {a} else {})"
  by (auto simp: register_peer_ok fwd_def fwd_add_fold split: if_splits)

lemma fwd_remove:
  "set (fwd (remove_peer a t) c) = set (fwd t c) - (if c \<in> set (dget (peer_caps t) a []) then {a} else {})"
  by (simp add: remove_peer_def Let_def fwd_def fwd_discard_fold)

lemma find_peer_for_mem:
  "order_ok ord \<Longrightarrow> find_peer_for ord cap t = Inr (Some p) \<Longrightarrow> p \<in> set (fwd t cap)"
  by (auto simp: find_peer_for_def split: if_splits list.splits) (metis list.set_intros(1) order_ok_set)

lemma find_peer_for_none:
  assumes "order_ok ord" "hashable cap"
  shows "find_peer_for ord cap t = Inr None \<longleftrightarrow> fwd t cap = []"
proof -
  have "find_peer_for ord cap t = Inr None \<longleftrightarrow> ord (fwd t cap) = []"
    using assms(2) by (simp add: find_peer_for_def split: list.splits)
  then show ?thesis using assms(1) by simp
qed

lemma find_peer_for_some:
  "order_ok ord \<Longrightarrow> hashable cap \<Longrightarrow> fwd t cap \<noteq> [] \<Longrightarrow> \<exists>p. find_peer_for ord cap t = Inr (Some p)"
  using find_peer_for_none [of ord cap t] by (auto simp: find_peer_for_def split: list.splits)

text \<open>What every added name keeps holds of the names that were read.\<close>

lemma item_name_hashable: "item_name x = Inr n \<Longrightarrow> hashable n"
  by (auto simp: item_name_def bindE_Inr_iff split: if_splits)

lemma add_items_keeps:
  assumes "\<And>s n. P s \<Longrightarrow> hashable n \<Longrightarrow> P (set_add n s)"
  shows "add_items s xs = (cs, e) \<Longrightarrow> P s \<Longrightarrow> P cs"
  by (induction xs arbitrary: s) (auto split: sum.splits dest: item_name_hashable intro: assms)

lemma add_categories_keeps:
  assumes "\<And>s n. P s \<Longrightarrow> hashable n \<Longrightarrow> P (set_add n s)"
  shows "add_categories s caps ks = (cs, e) \<Longrightarrow> P s \<Longrightarrow> P cs"
proof (induction ks arbitrary: s)
  case (Cons k ks)
  show ?case
  proof (cases "bindE (py_get caps k (JArr [])) py_iter")
    case (Inl x)
    then show ?thesis using Cons.prems by simp
  next
    case (Inr xs)
    obtain s' e' where a: "add_items s xs = (s', e')" by fastforce
    have "P s'" using add_items_keeps [of P, OF assms a] Cons.prems(2) by blast
    then show ?thesis
      using Cons.prems(1) Cons.IH [of s'] Inr a by (auto split: option.splits)
  qed
qed simp

lemma cap_names_distinct: "cap_names [] caps = (cs, e) \<Longrightarrow> distinct cs"
  unfolding cap_names_def by (erule add_categories_keeps [of distinct, rotated]) simp_all

lemma cap_names_hashable: "cap_names [] caps = (cs, e) \<Longrightarrow> list_all hashable cs"
  unfolding cap_names_def
  by (erule add_categories_keeps [of "list_all hashable", rotated]) (simp_all add: list_all_iff)

section \<open>Sequences of registrations\<close>

datatype table_op = Reg addr json json | Rem addr

fun apply_op :: "table_op \<Rightarrow> interest_table \<Rightarrow> interest_table" where
  "apply_op (Reg a caps interests) t = fst (register_peer a caps interests t)"
| "apply_op (Rem a) t = remove_peer a t"

definition run_ops :: "table_op list \<Rightarrow> interest_table" where
  "run_ops ops = foldl (\<lambda>t op. apply_op op t) empty_table ops"

text \<open>A registration whose interests can be read, or that is refused before it changes anything.\<close>

fun well_formed_op :: "table_op \<Rightarrow> bool" where
  "well_formed_op (Reg a caps interests) \<longleftrightarrow> \<not> isl (py_set interests) \<or> snd (cap_names [] caps) \<noteq> None"
| "well_formed_op (Rem a) \<longleftrightarrow> True"

text \<open>Every known peer is routed to for each of its capabilities.\<close>

definition routes_ok :: "interest_table \<Rightarrow> bool" where
  "routes_ok t \<longleftrightarrow> (\<forall>a cs. map_of (peer_caps t) a = Some cs \<longrightarrow>
     (\<forall>c \<in> set cs. hashable c \<and> a \<in> set (fwd t c)))"

lemma register_peer_cases:
  "register_peer a caps interests t = (t', e) \<Longrightarrow> well_formed_op (Reg a caps interests) \<Longrightarrow>
   t' = t \<or> e = None"
  by (auto simp: register_peer_def Let_def split: prod.splits option.splits sum.splits)

lemma routes_ok_register:
  assumes "register_peer a caps interests t = (t', None)" "routes_ok t"
  shows "routes_ok t'"
proof -
  obtain cs s where r: "cap_names [] caps = (cs, None)" "py_set interests = Inr s"
    "t' = t\<lparr>peer_caps := dset a cs (peer_caps t), peer_interests := dset a s (peer_interests t),
            forwarding := foldl (fwd_add a) (forwarding t) cs\<rparr>"
    using assms(1) by (auto simp: register_peer_ok)
  have h: "list_all hashable cs" using cap_names_hashable [OF r(1)] .
  show ?thesis
    unfolding routes_ok_def
  proof (intro allI impI ballI)
    fix b bs c assume b: "map_of (peer_caps t') b = Some bs" "c \<in> set bs"
    show "hashable c \<and> b \<in> set (fwd t' c)"
    proof (cases "b = a")
      case True
      then have "bs = cs" using b(1) r(3) by simp
      then show ?thesis using b(2) h fwd_register [OF assms(1) r(1), of c] True by (simp add: list_all_iff)
    next
      case False
      then have "map_of (peer_caps t) b = Some bs" using b(1) r(3) by simp
      then show ?thesis using assms(2) b(2) fwd_register [OF assms(1) r(1), of c] by (auto simp: routes_ok_def)
    qed
  qed
qed

lemma routes_ok_remove: "routes_ok t \<Longrightarrow> routes_ok (remove_peer a t)"
  by (auto simp: routes_ok_def fwd_remove) (auto simp: remove_peer_def Let_def split: if_splits)

text \<open>Where the routes come from.\<close>

definition route_source :: "table_op list \<Rightarrow> interest_table \<Rightarrow> bool" where
  "route_source ops t \<longleftrightarrow> (\<forall>a c. a \<in> set (fwd t c) \<longrightarrow>
     (\<exists>caps interests. Reg a caps interests \<in> set ops \<and> c \<in> set (fst (cap_names [] caps))))"

lemma route_source_more: "route_source ops t \<Longrightarrow> route_source (ops @ [op]) t"
  by (fastforce simp: route_source_def)

lemma run_ops_snoc: "run_ops (ops @ [op]) = apply_op op (run_ops ops)"
  by (simp add: run_ops_def)

lemma run_ops_inv:
  "list_all well_formed_op ops \<Longrightarrow> routes_ok (run_ops ops) \<and> route_source ops (run_ops ops)"
proof (induction ops rule: rev_induct)
  case Nil
  then show ?case by (simp add: run_ops_def empty_table_def routes_ok_def route_source_def fwd_def)
next
  case (snoc op ops)
  then have IH: "routes_ok (run_ops ops)" "route_source ops (run_ops ops)" and wf: "well_formed_op op" by auto
  show ?case
  proof (cases op)
    case (Rem a)
    then show ?thesis
      using IH routes_ok_remove [of "run_ops ops" a] by (auto simp: run_ops_snoc route_source_def fwd_remove)
  next
    case (Reg a caps interests)
    obtain t' e where r: "register_peer a caps interests (run_ops ops) = (t', e)" by fastforce
    have t': "run_ops (ops @ [op]) = t'" using Reg r by (simp add: run_ops_snoc)
    show ?thesis
    proof (cases e)
      case None
      then obtain cs where cs: "cap_names [] caps = (cs, None)" using r by (auto simp: register_peer_ok)
      have f: "set (fwd t' c) = set (fwd (run_ops ops) c) \<union> (if c \<in> set cs then {a} else {})" for c
        using fwd_register [OF r [unfolded None] cs] .
      have "route_source (ops @ [op]) t'"
        unfolding route_source_def
      proof (intro allI impI)
        fix b c assume "b \<in> set (fwd t' c)"
        then consider "b \<in> set (fwd (run_ops ops) c)" | "b = a" "c \<in> set cs" by (auto simp: f split: if_splits)
        then show "\<exists>caps interests. Reg b caps interests \<in> set (ops @ [op]) \<and> c \<in> set (fst (cap_names [] caps))"
        proof cases
          case 1
          then show ?thesis using IH(2) by (fastforce simp: route_source_def)
        next
          case 2
          then show ?thesis using Reg cs by (intro exI [of _ caps] exI [of _ interests]) simp
        qed
      qed
      then show ?thesis using t' routes_ok_register [OF r [unfolded None] IH(1)] by simp
    next
      case (Some x)
      then have "t' = run_ops ops" using register_peer_cases [OF r] wf Reg by simp
      then show ?thesis using t' IH route_source_more by simp
    qed
  qed
qed

text \<open>
  registered capabilities are found. After any sequence of registrations and removals of
  peers, every capability of a known peer has a route, whatever the iteration order of the
  sets, and the peer it leads to did announce that capability in one of the registrations.
\<close>

lemma registered_capability_found:
  assumes "list_all well_formed_op ops" "order_ok ord"
    "map_of (peer_caps (run_ops ops)) a = Some cs" "c \<in> set cs"
  shows "\<exists>p caps interests. find_peer_for ord c (run_ops ops) = Inr (Some p) \<and>
    Reg p caps interests \<in> set ops \<and> c \<in> set (fst (cap_names [] caps))"
proof -
  have c: "hashable c" "a \<in> set (fwd (run_ops ops) c)"
    using run_ops_inv [OF assms(1)] assms(3,4) by (auto simp: routes_ok_def)
  then have "fwd (run_ops ops) c \<noteq> []" by auto
  then obtain p where p: "find_peer_for ord c (run_ops ops) = Inr (Some p)"
    using find_peer_for_some [OF assms(2) c(1)] by blast
  have "p \<in> set (fwd (run_ops ops) c)" by (rule find_peer_for_mem [OF assms(2) p])
  then show ?thesis using p run_ops_inv [OF assms(1)] by (auto simp: route_source_def)
qed

text \<open>
  a removed peer's routes go, but only those of its last registration: a capability it had
  announced before and dropped when it registered again still leads to it after it is gone.
\<close>

lemma stale_route_survives:
  assumes "cap_names [] caps1 = (cs1, None)" "cap_names [] caps2 = (cs2, None)"
    "py_set is1 = Inr s1" "py_set is2 = Inr s2" "c \<in> set cs1" "c \<notin> set cs2"
  shows "let t = run_ops [Reg a caps1 is1, Reg a caps2 is2, Rem a] in
    a \<notin> set (known_peers t) \<and> (\<forall>d \<in> set cs2. a \<notin> set (fwd t d)) \<and> a \<in> set (fwd t c)"
proof -
  obtain t1 where r1: "register_peer a caps1 is1 empty_table = (t1, None)"
    using assms(1,3) by (simp add: register_peer_def Let_def)
  obtain t2 where r2: "register_peer a caps2 is2 t1 = (t2, None)"
    using assms(2,4) by (simp add: register_peer_def Let_def)
  have p2: "dget (peer_caps t2) a [] = cs2"
    using r2 assms(2) by (auto simp: register_peer_ok dget_def)
  have "run_ops [Reg a caps1 is1, Reg a caps2 is2, Rem a] = remove_peer a t2"
    using r1 r2 by (simp add: run_ops_def)
  moreover have "a \<notin> set (known_peers (remove_peer a t2))"
    by (simp add: known_peers_def remove_peer_def Let_def)
  moreover have "a \<in> set (fwd t2 c)"
    using fwd_register [OF r1 assms(1), of c] fwd_register [OF r2 assms(2), of c] assms(5) by auto
  ultimately show ?thesis using assms(6) p2 by (simp add: fwd_remove)
qed

lemma names_of: "cap_names [] (JObj [(''agents'', JArr [JObj [(''name'', JStr x)]])]) = ([JStr x], None)"
  by (simp add: cap_names_def item_name_def dget_def set_add_def)

lemma no_interests: "py_set (JArr []) = Inr []"
  by (simp add: py_set_def)

lemma registered_capability_found_witness:
  "\<exists>p. find_peer_for (\<lambda>xs. xs) (JStr ''x'')
     (run_ops [Reg ''a@h:1'' (JObj [(''agents'', JArr [JObj [(''name'', JStr ''x'')]])]) (JArr [])]) = Inr (Some p)"
  using registered_capability_found [of "[Reg ''a@h:1'' (JObj [(''agents'', JArr [JObj [(''name'', JStr ''x'')]])]) (JArr [])]"
      "\<lambda>xs. xs" "''a@h:1''" "[JStr ''x'']" "JStr ''x''"]
  by (auto simp: run_ops_def register_peer_def names_of no_interests)

lemma stale_route_survives_witness:
  "''a@h:1'' \<in> set (fwd (run_ops [Reg ''a@h:1'' (JObj [(''agents'', JArr [JObj [(''name'', JStr ''x'')]])]) (JArr []),
     Reg ''a@h:1'' (JObj [(''agents'', JArr [JObj [(''name'', JStr ''y'')]])]) (JArr []), Rem ''a@h:1'']) (JStr ''x''))"
  using stale_route_survives [OF names_of names_of no_interests no_interests, of "JStr ''x''" "''x''" "''y''" "''a@h:1''"]
  by (simp add: Let_def)


section \<open>Whom to ask\<close>

lemma interested_peers_sub:
  "interested_peers jord cap ex ps = Inr r \<Longrightarrow> set r \<subseteq> fst ` set ps - set ex"
proof (induction ps arbitrary: r)
  case (Cons p ps)
  obtain a js where "p = (a, js)" by fastforce
  then show ?case
    using Cons by (auto simp: bindE_Inr_iff split: if_splits)
qed simp

text \<open>
  the peers a query goes to never include the excluded ones; when a peer that is not
  excluded has a route for the capability, exactly such peers are chosen, and otherwise the
  chosen ones are peers of the table.
\<close>

lemma query_targets:
  assumes "order_ok ord" "query_peers ord jord cap ex t = Inr ps"
  shows "set ps \<inter> set ex = {} \<and>
    (set (fwd t (JStr cap)) - set ex \<noteq> {} \<longrightarrow> set ps = set (fwd t (JStr cap)) - set ex) \<and>
    (set (fwd t (JStr cap)) - set ex = {} \<longrightarrow> set ps \<subseteq> set (dkeys (peer_interests t)) \<union> set (known_peers t))"
proof -
  define direct where "direct = filter (\<lambda>p. p \<notin> set ex) (ord (fwd t (JStr cap)))"
  have d: "set direct = set (fwd t (JStr cap)) - set ex" using assms(1) by (auto simp: direct_def)
  show ?thesis
  proof (cases "direct = []")
    case False
    then have "ps = direct" using assms(2) by (simp add: query_peers_def direct_def [symmetric])
    moreover have "set direct \<noteq> {}" using False by simp
    ultimately show ?thesis using d by auto
  next
    case True
    then obtain r where r: "interested_peers jord cap ex (peer_interests t) = Inr r"
      "ps = (if r \<noteq> [] then r else filter (\<lambda>p. p \<notin> set ex) (dkeys (peer_caps t)))"
      using assms(2) by (auto simp: query_peers_def direct_def [symmetric] bindE_Inr_iff)
    have "set direct = {}" using True by simp
    then show ?thesis
      using d r interested_peers_sub [OF r(1)] by (auto simp: known_peers_def split: if_splits)
  qed
qed

lemma query_targets_witness:
  "query_peers (\<lambda>xs. xs) (\<lambda>xs. xs) ''x'' [''b''] (empty_table\<lparr>forwarding := [(JStr ''x'', [''a'', ''b''])]\<rparr>) = Inr [''a''] \<and>
   set [''a''] \<inter> set [''b''] = {}"
  using query_targets [of "\<lambda>xs. xs" "\<lambda>xs. xs" "''x''" "[''b'']" "empty_table\<lparr>forwarding := [(JStr ''x'', [''a'', ''b''])]\<rparr>" "[''a'']"]
  by (simp add: query_peers_def fwd_def dget_def)

section \<open>The table as a relation\<close>

text \<open>
  What the table stands for: which peer has which capability. A registration replaces what
  the peer had, a removal forgets it.
\<close>

type_synonym provision = "(addr \<times> json) set"

fun provide :: "table_op \<Rightarrow> provision \<Rightarrow> provision" where
  "provide (Reg a caps interests) R = (case cap_names [] caps of
     (cs, None) \<Rightarrow> {x \<in> R. fst x \<noteq> a} \<union> {a} \<times> set cs
   | (cs, Some e) \<Rightarrow> R)"
| "provide (Rem a) R = {x \<in> R. fst x \<noteq> a}"

definition provided :: "interest_table \<Rightarrow> provision" where
  "provided t = {(a, c). c \<in> set (dget (peer_caps t) a [])}"

text \<open>A peer that registers again keeps what it had (or was removed before).\<close>

fun keeps_caps :: "table_op \<Rightarrow> interest_table \<Rightarrow> bool" where
  "keeps_caps (Reg a caps interests) t \<longleftrightarrow>
     \<not> isl (py_set interests) \<and> set (dget (peer_caps t) a []) \<subseteq> set (fst (cap_names [] caps))"
| "keeps_caps (Rem a) t \<longleftrightarrow> True"

definition exact_routes :: "interest_table \<Rightarrow> bool" where
  "exact_routes t \<longleftrightarrow> (\<forall>c. set (fwd t c) = {a. (a, c) \<in> provided t})"

lemma apply_op_refines:
  assumes "keeps_caps op t" "exact_routes t"
  shows "exact_routes (apply_op op t) \<and> provided (apply_op op t) = provide op (provided t)"
proof (cases op)
  case (Rem a)
  have "provided (remove_peer a t) = {x \<in> provided t. fst x \<noteq> a}"
    by (auto simp: provided_def remove_peer_def Let_def split: if_splits)
  moreover have "set (fwd (remove_peer a t) c) = {b. (b, c) \<in> provided t \<and> b \<noteq> a}" for c
    using assms(2) by (auto simp: fwd_remove exact_routes_def provided_def)
  ultimately show ?thesis using Rem by (auto simp: exact_routes_def)
next
  case (Reg a caps interests)
  obtain cs e where cs: "cap_names [] caps = (cs, e)" by fastforce
  obtain s where s: "py_set interests = Inr s" using assms(1) Reg by (cases "py_set interests") auto
  show ?thesis
  proof (cases e)
    case (Some x)
    then show ?thesis using assms(2) Reg cs by (simp add: register_peer_def)
  next
    case None
    then obtain t' where t': "register_peer a caps interests t = (t', None)"
      using cs s by (simp add: register_peer_def Let_def)
    then have p: "peer_caps t' = dset a cs (peer_caps t)" using cs None by (auto simp: register_peer_ok)
    have sub: "set (dget (peer_caps t) a []) \<subseteq> set cs" using assms(1) Reg cs by simp
    have pr: "provided t' = {x \<in> provided t. fst x \<noteq> a} \<union> {a} \<times> set cs"
      using p by (auto simp: provided_def split: if_splits)
    have "set (fwd t' c) = {b. (b, c) \<in> provided t'}" for c
      using fwd_register [OF t' cs [unfolded None], of c] assms(2) sub
      by (auto simp: provided_def p exact_routes_def split: if_splits)
    then show ?thesis using Reg t' cs None pr by (simp add: exact_routes_def)
  qed
qed

fun keeps_all_caps :: "table_op list \<Rightarrow> interest_table \<Rightarrow> bool" where
  "keeps_all_caps [] t \<longleftrightarrow> True"
| "keeps_all_caps (op # ops) t \<longleftrightarrow> keeps_caps op t \<and> keeps_all_caps ops (apply_op op t)"

lemma run_refines:
  "exact_routes t \<Longrightarrow> keeps_all_caps ops t \<Longrightarrow>
   exact_routes (foldl (\<lambda>t op. apply_op op t) t ops) \<and>
   provided (foldl (\<lambda>t op. apply_op op t) t ops) = foldl (\<lambda>R op. provide op R) (provided t) ops"
proof (induction ops arbitrary: t)
  case (Cons op ops)
  then show ?case using apply_op_refines [of op t] Cons.IH [of "apply_op op t"] by simp
qed simp

text \<open>
  The relation follows every sequence of registrations with well-formed interests, whether the
  peers keep their capabilities or not.
\<close>

lemma provided_apply: "well_formed_op op \<Longrightarrow> provided (apply_op op t) = provide op (provided t)"
proof (cases op)
  case (Rem a)
  then show ?thesis by (auto simp: provided_def remove_peer_def Let_def split: if_splits)
next
  case (Reg a caps interests)
  assume wf: "well_formed_op op"
  obtain cs e where cs: "cap_names [] caps = (cs, e)" by fastforce
  show ?thesis
  proof (cases e)
    case None
    then obtain s where s: "py_set interests = Inr s" using wf Reg cs by (cases "py_set interests") auto
    obtain t' where t': "register_peer a caps interests t = (t', None)"
      using cs s None by (simp add: register_peer_def Let_def)
    then have "peer_caps t' = dset a cs (peer_caps t)" using cs None by (auto simp: register_peer_ok)
    then show ?thesis using Reg t' cs None by (auto simp: provided_def split: if_splits)
  qed (simp add: Reg cs register_peer_def)
qed

lemma provided_run: "list_all well_formed_op ops \<Longrightarrow> provided (run_ops ops) = foldl (\<lambda>R op. provide op R) {} ops"
proof (induction ops rule: rev_induct)
  case Nil
  then show ?case by (simp add: run_ops_def provided_def empty_table_def)
next
  case (snoc op ops)
  then show ?case by (simp add: run_ops_snoc provided_apply)
qed

text \<open>
  C22: the interest table and the relation of who provides what. After any sequence of
  registrations with well-formed interests and removals, every peer that provides a capability
  is among the peers found for it, and every peer found has announced it in one of the
  registrations. When no registration drops a capability the peer had (its removal in between
  is allowed), the peers found are exactly those that provide it, and none is found only if
  nobody does. A registration that does drop one leaves the old route (\<open>stale_route_survives\<close>).
\<close>

theorem interest_table_refines:
  assumes "list_all well_formed_op ops" "hashable c" "order_ok ord"
  defines "R \<equiv> foldl (\<lambda>R op. provide op R) {} ops"
  shows "\<exists>ps. find_all_peers_for c (run_ops ops) = Inr ps \<and>
    {a. (a, c) \<in> R} \<subseteq> set ps \<and>
    (\<forall>a\<in>set ps. \<exists>caps interests. Reg a caps interests \<in> set ops \<and> c \<in> set (fst (cap_names [] caps))) \<and>
    (keeps_all_caps ops empty_table \<longrightarrow> set ps = {a. (a, c) \<in> R}) \<and>
    (find_peer_for ord c (run_ops ops) = Inr None \<longleftrightarrow> set ps = {})"
proof -
  let ?ps = "fwd (run_ops ops) c"
  have R: "provided (run_ops ops) = R" using provided_run [OF assms(1)] by (simp add: R_def)
  have e: "exact_routes empty_table"
    by (simp add: exact_routes_def provided_def empty_table_def fwd_def)
  have "exact_routes (run_ops ops)" if "keeps_all_caps ops empty_table"
    using run_refines [OF e that] by (simp add: run_ops_def)
  then have x: "keeps_all_caps ops empty_table \<longrightarrow> set ?ps = {a. (a, c) \<in> R}"
    using R by (simp add: exact_routes_def)
  have "{a. (a, c) \<in> R} \<subseteq> set ?ps"
  proof
    fix a assume "a \<in> {a. (a, c) \<in> R}"
    then have "c \<in> set (dget (peer_caps (run_ops ops)) a [])" by (simp add: R [symmetric] provided_def)
    then obtain cs where "map_of (peer_caps (run_ops ops)) a = Some cs" "c \<in> set cs"
      by (cases "map_of (peer_caps (run_ops ops)) a") (simp_all add: dget_def)
    then show "a \<in> set ?ps" using run_ops_inv [OF assms(1)] unfolding routes_ok_def by blast
  qed
  moreover have "\<forall>a\<in>set ?ps. \<exists>caps interests. Reg a caps interests \<in> set ops \<and> c \<in> set (fst (cap_names [] caps))"
    using run_ops_inv [OF assms(1)] by (simp add: route_source_def)
  moreover have "find_peer_for ord c (run_ops ops) = Inr None \<longleftrightarrow> set ?ps = {}"
    using find_peer_for_none [OF assms(3,2)] by simp
  ultimately show ?thesis using x assms(2) by (auto simp: find_all_peers_for_def)
qed

theorem interest_table_refines_witness:
  "\<exists>ps. find_all_peers_for (JStr ''x'')
     (run_ops [Reg ''a@h:1'' (JObj [(''agents'', JArr [JObj [(''name'', JStr ''x'')]])]) (JArr [])]) = Inr ps \<and> set ps = {''a@h:1''}"
proof -
  let ?ops = "[Reg ''a@h:1'' (JObj [(''agents'', JArr [JObj [(''name'', JStr ''x'')]])]) (JArr [])]"
  have w: "list_all well_formed_op ?ops" "hashable (JStr ''x'')" "order_ok (\<lambda>xs :: addr list. xs)" "keeps_all_caps ?ops empty_table"
    by (simp_all add: no_interests empty_table_def dget_def)
  have r: "{a. (a, JStr ''x'') \<in> foldl (\<lambda>R op. provide op R) {} ?ops} = {''a@h:1''}"
    by (simp add: names_of)
  show ?thesis using interest_table_refines [OF w(1-3)] w(4) unfolding r by (elim exE conjE) (rule exI, rule conjI, assumption, simp only: simp_thms)
qed

end
