(* ===== verification/Tracker.thy ===== *)
theory Tracker
  imports Json
begin

text \<open>
  \<open>elo/transport/tracker.py\<close>: a node's own registry of agents, models and tools, with its
  visibility and allowlist. The entries are the dictionaries the application registers; the
  ids tested against the allowlist come off the wire.
\<close>

record local_tracker =
  visibility :: string
  agents :: "pydict list"
  models :: "pydict list"
  tools :: "pydict list"
  allowlist :: "json list"
  tr_interests :: "json list"

definition new_tracker :: "string \<Rightarrow> local_tracker" where
  "new_tracker vis = \<lparr>visibility = vis, agents = [], models = [], tools = [], allowlist = [], tr_interests = []\<rparr>"

definition set_visibility :: "string \<Rightarrow> local_tracker \<Rightarrow> exn + local_tracker" where
  "set_visibility m t =
     (if m \<notin> {''public'', ''private''} then Inl ValueErr else Inr (t\<lparr>visibility := m\<rparr>))"

definition allow_peer :: "json \<Rightarrow> local_tracker \<Rightarrow> local_tracker" where
  "allow_peer nid t = t\<lparr>allowlist := set_add nid (allowlist t)\<rparr>"

definition revoke_peer :: "json \<Rightarrow> local_tracker \<Rightarrow> local_tracker" where
  "revoke_peer nid t = t\<lparr>allowlist := set_discard nid (allowlist t)\<rparr>"

definition is_allowed :: "json \<Rightarrow> local_tracker \<Rightarrow> exn + bool" where
  "is_allowed nid t =
     (if visibility t = ''public'' then Inr True
      else if hashable nid then Inr (nid \<in> set (allowlist t)) else Inl TypeErr)"

text \<open>\<open>register\<close>: an empty or missing list leaves the category as it was.\<close>

definition register :: "pydict list \<Rightarrow> pydict list \<Rightarrow> pydict list \<Rightarrow> local_tracker \<Rightarrow> local_tracker" where
  "register ags mds tls t =
     t\<lparr>agents := (if ags \<noteq> [] then ags else agents t),
       models := (if mds \<noteq> [] then mds else models t),
       tools := (if tls \<noteq> [] then tls else tools t)\<rparr>"

definition set_interests :: "json list \<Rightarrow> local_tracker \<Rightarrow> local_tracker" where
  "set_interests is t = t\<lparr>tr_interests := is\<rparr>"

definition caps_json :: "pydict list \<Rightarrow> pydict list \<Rightarrow> pydict list \<Rightarrow> json" where
  "caps_json ags mds tls = JObj [(''agents'', JArr (map JObj ags)), (''models'', JArr (map JObj mds)),
     (''tools'', JArr (map JObj tls))]"

definition caps :: "local_tracker \<Rightarrow> json" where
  "caps t = caps_json (agents t) (models t) (tools t)"

definition get_caps_for_peer :: "json \<Rightarrow> local_tracker \<Rightarrow> exn + json" where
  "get_caps_for_peer nid t =
     bindE (is_allowed nid t) (\<lambda>ok. Inr (if ok then caps t else caps_json [] [] []))"

definition get_public_caps :: "local_tracker \<Rightarrow> json" where
  "get_public_caps t = (if visibility t = ''public'' then caps t else caps_json [] [] [])"

definition has_capability :: "json \<Rightarrow> local_tracker \<Rightarrow> bool" where
  "has_capability name t \<longleftrightarrow>
     list_ex (\<lambda>item. dget item ''name'' JNull = name) (agents t @ models t @ tools t)"

text \<open>\<open>{"category": category, **item}\<close>: the entry's own keys win over the category.\<close>

definition with_category :: "string \<Rightarrow> pydict \<Rightarrow> pydict" where
  "with_category cat item = dict_of_pairs ((''category'', JStr cat) # item)"

definition match_in :: "string \<Rightarrow> json \<Rightarrow> pydict list \<Rightarrow> pydict option" where
  "match_in cat name items =
     map_option (with_category cat) (find (\<lambda>item. dget item ''name'' JNull = name) items)"

definition match_cap :: "json \<Rightarrow> local_tracker \<Rightarrow> pydict option" where
  "match_cap name t =
     (case match_in ''agents'' name (agents t) of
        Some r \<Rightarrow> Some r
      | None \<Rightarrow> (case match_in ''models'' name (models t) of
          Some r \<Rightarrow> Some r
        | None \<Rightarrow> match_in ''tools'' name (tools t)))"

section \<open>Lemmas\<close>

lemma find_None_iff_ex: "find P xs = None \<longleftrightarrow> \<not> list_ex P xs"
  by (auto simp: find_None_iff list_ex_iff)

lemma match_in_None:
  "match_in cat name items = None \<longleftrightarrow> \<not> list_ex (\<lambda>item. dget item ''name'' JNull = name) items"
  by (simp add: match_in_def find_None_iff_ex)

lemma match_cap_has: "match_cap name t \<noteq> None \<longleftrightarrow> has_capability name t"
  using match_in_None [of "''agents''" name "agents t"] match_in_None [of "''models''" name "models t"]
    match_in_None [of "''tools''" name "tools t"]
  by (cases "match_in ''agents'' name (agents t)"; cases "match_in ''models'' name (models t)")
    (auto simp: match_cap_def has_capability_def)

lemma get_caps_public: "visibility t = ''public'' \<Longrightarrow> get_caps_for_peer nid t = Inr (caps t)"
  by (simp add: get_caps_for_peer_def is_allowed_def)

lemma get_caps_private:
  "visibility t \<noteq> ''public'' \<Longrightarrow> hashable nid \<Longrightarrow>
   get_caps_for_peer nid t = Inr (if nid \<in> set (allowlist t) then caps t else caps_json [] [] [])"
  by (simp add: get_caps_for_peer_def is_allowed_def)

section \<open>Properties\<close>

text \<open>
  a private node shows its capabilities to its allowlist only. To a peer that has been
  allowed it gives all of them, to a peer that has been revoked (or was never allowed) none,
  allowing or revoking one peer changes nothing for another, and the HELLO it sends names none.
\<close>

lemma allowlist_guards_caps:
  assumes "visibility t = ''private''" "hashable nid" "hashable other" "other \<noteq> nid"
  shows "get_caps_for_peer nid (allow_peer nid t) = Inr (caps t) \<and>
    get_caps_for_peer nid (revoke_peer nid t) = Inr (caps_json [] [] []) \<and>
    get_caps_for_peer other (allow_peer nid t) = get_caps_for_peer other t \<and>
    get_caps_for_peer other (revoke_peer nid t) = get_caps_for_peer other t \<and>
    get_public_caps t = caps_json [] [] []"
  using assms
  by (simp add: get_caps_for_peer_def is_allowed_def allow_peer_def revoke_peer_def caps_def get_public_caps_def)

lemma allowlist_guards_caps_witness:
  "get_caps_for_peer (JStr ''a'') (revoke_peer (JStr ''a'') (new_tracker ''private'')) = Inr (caps_json [] [] [])"
  using allowlist_guards_caps [of "new_tracker ''private''" "JStr ''a''" "JStr ''b''"]
  by (simp add: new_tracker_def)

lemma match_in_name:
  "match_in cat name items = Some r \<Longrightarrow> list_all (\<lambda>i. distinct (dkeys i) \<and> ''category'' \<notin> set (dkeys i)) items \<Longrightarrow>
   dget r ''name'' JNull = name \<and> dget r ''category'' JNull = JStr cat"
proof -
  assume "match_in cat name items = Some r" and ok: "list_all (\<lambda>i. distinct (dkeys i) \<and> ''category'' \<notin> set (dkeys i)) items"
  then obtain i where i: "find (\<lambda>item. dget item ''name'' JNull = name) items = Some i" "r = with_category cat i"
    by (auto simp: match_in_def)
  have "i \<in> set items" "dget i ''name'' JNull = name"
    using find_SomeD [OF i(1)] by simp_all
  moreover from this ok have "distinct (dkeys ((''category'', JStr cat) # i))" by (auto simp: list_all_iff)
  then have "r = (''category'', JStr cat) # i"
    using dict_of_pairs_id [of "(''category'', JStr cat) # i"] i(2) by (simp add: with_category_def)
  ultimately show ?thesis by (simp add: dget_def)
qed

text \<open>
  the two ways of looking a capability up agree. \<open>match\<close> finds an entry exactly when
  \<open>has_capability\<close> holds, and on entries without a category of their own, what it returns has
  the name asked for and the category it was registered under.
\<close>

lemma match_agrees:
  shows "(match_cap name t \<noteq> None \<longleftrightarrow> has_capability name t) \<and>
    (match_cap name t = Some r \<and>
       list_all (\<lambda>i. distinct (dkeys i) \<and> ''category'' \<notin> set (dkeys i)) (agents t @ models t @ tools t) \<longrightarrow>
     dget r ''name'' JNull = name \<and> dget r ''category'' JNull \<in> {JStr ''agents'', JStr ''models'', JStr ''tools''})"
proof (rule conjI [OF match_cap_has], rule impI, elim conjE)
  assume m: "match_cap name t = Some r"
    and "list_all (\<lambda>i. distinct (dkeys i) \<and> ''category'' \<notin> set (dkeys i)) (agents t @ models t @ tools t)"
  then have ok: "list_all (\<lambda>i. distinct (dkeys i) \<and> ''category'' \<notin> set (dkeys i)) items"
    if "items \<in> {agents t, models t, tools t}" for items
    using that by auto
  from m consider "match_in ''agents'' name (agents t) = Some r" | "match_in ''models'' name (models t) = Some r"
    | "match_in ''tools'' name (tools t) = Some r"
    by (auto simp: match_cap_def split: option.splits)
  then show "dget r ''name'' JNull = name \<and> dget r ''category'' JNull \<in> {JStr ''agents'', JStr ''models'', JStr ''tools''}"
  proof cases
    case 1
    with match_in_name [OF 1 ok] show ?thesis by simp
  next
    case 2
    with match_in_name [OF 2 ok] show ?thesis by simp
  next
    case 3
    with match_in_name [OF 3 ok] show ?thesis by simp
  qed
qed

lemma match_agrees_witness:
  "match_cap (JStr ''x'') (register [[(''name'', JStr ''x'')]] [] [] (new_tracker ''public'')) \<noteq> None"
  using match_agrees [of "JStr ''x''" "register [[(''name'', JStr ''x'')]] [] [] (new_tracker ''public'')" "[]"]
  by (simp add: register_def has_capability_def new_tracker_def dget_def)

end
