(* ===== verification/Types.thy ===== *)
theory Types
  imports Protocol
begin

text \<open>
  \<open>elo/types.py\<close>: the data classes of the protocol and their conversions to and from
  dictionaries. \<open>asdict\<close> writes the fields in the order the class declares them. The
  fields a decoder fills with \<open>data.get\<close> hold any decoded value.
\<close>

record agent_cap =
  ac_name :: string
  ac_description :: string
  ac_model :: string

record model_cap =
  mc_name :: string
  mc_provider :: string
  mc_context :: int

record tool_cap =
  tc_name :: string
  tc_description :: string
  tc_version :: string

record capabilities =
  cap_agents :: "agent_cap list"
  cap_models :: "model_cap list"
  cap_tools :: "tool_cap list"

definition agent_cap_dict :: "agent_cap \<Rightarrow> json" where
  "agent_cap_dict c = JObj [(''name'', JStr (ac_name c)), (''description'', JStr (ac_description c)),
     (''model'', JStr (ac_model c))]"

definition model_cap_dict :: "model_cap \<Rightarrow> json" where
  "model_cap_dict c = JObj [(''name'', JStr (mc_name c)), (''provider'', JStr (mc_provider c)),
     (''context'', JInt (mc_context c))]"

definition tool_cap_dict :: "tool_cap \<Rightarrow> json" where
  "tool_cap_dict c = JObj [(''name'', JStr (tc_name c)), (''description'', JStr (tc_description c)),
     (''version'', JStr (tc_version c))]"

definition capabilities_to_dict :: "capabilities \<Rightarrow> pydict" where
  "capabilities_to_dict c =
     [(''agents'', JArr (map agent_cap_dict (cap_agents c))),
      (''models'', JArr (map model_cap_dict (cap_models c))),
      (''tools'', JArr (map tool_cap_dict (cap_tools c)))]"

record node_info =
  ni_name :: string
  ni_version :: string
  ni_started_at :: string
  ni_status :: string
  ni_public_key :: string
  ni_nats_url :: string
  ni_labels :: "(string \<times> string) list"

definition node_info_to_dict :: "node_info \<Rightarrow> pydict" where
  "node_info_to_dict n =
     [(''name'', JStr (ni_name n)), (''version'', JStr (ni_version n)),
      (''started_at'', JStr (ni_started_at n)), (''status'', JStr (ni_status n)),
      (''public_key'', JStr (ni_public_key n)), (''nats_url'', JStr (ni_nats_url n)),
      (''labels'', JObj (map (\<lambda>kv. (fst kv, JStr (snd kv))) (ni_labels n)))]"

record task =
  t_target :: json
  t_caller :: json
  t_capability :: json
  t_payload :: json
  t_id :: json
  t_protocol :: json
  t_type :: json
  t_timestamp :: json
  t_ttl_s :: json
  t_signature :: json

definition task_to_dict :: "task \<Rightarrow> pydict" where
  "task_to_dict t = dset ''type'' (JStr ''task'')
     [(''target'', t_target t), (''caller'', t_caller t), (''capability'', t_capability t),
      (''payload'', t_payload t), (''id'', t_id t), (''protocol'', t_protocol t), (''type'', t_type t),
      (''timestamp'', t_timestamp t), (''ttl_s'', t_ttl_s t), (''signature'', t_signature t)]"

definition task_from_dict :: "pydict \<Rightarrow> task" where
  "task_from_dict d =
     \<lparr>t_target = dget d ''target'' (JStr []), t_caller = dget d ''caller'' (JStr []),
      t_capability = dget d ''capability'' (JStr []), t_payload = dget d ''payload'' (JObj []),
      t_id = dget d ''id'' (JStr []), t_protocol = dget d ''protocol'' (JStr ''elo.v1''),
      t_type = JStr ''task'', t_timestamp = dget d ''timestamp'' (JInt 0),
      t_ttl_s = dget d ''ttl_s'' (JInt 60), t_signature = dget d ''signature'' (JStr [])\<rparr>"

record result =
  r_id :: json
  r_status :: string
  r_payload :: json
  r_error :: "(json \<times> json) option"
  r_protocol :: string
  r_type :: string

definition result_to_dict :: "result \<Rightarrow> pydict" where
  "result_to_dict r =
     (let d = dset ''type'' (JStr ''result'')
        [(''id'', r_id r), (''status'', JStr (r_status r)), (''payload'', r_payload r),
         (''error'', case r_error r of None \<Rightarrow> JNull
            | Some (c, m) \<Rightarrow> JObj [(''code'', c), (''message'', m)]),
         (''protocol'', JStr (r_protocol r)), (''type'', JStr (r_type r))]
      in if r_error r = None then dpop ''error'' d else d)"

definition result_success :: "json \<Rightarrow> json \<Rightarrow> result" where
  "result_success task_id payload =
     \<lparr>r_id = task_id, r_status = ''success'', r_payload = payload, r_error = None,
      r_protocol = ''elo.v1'', r_type = ''result''\<rparr>"

definition make_error :: "json \<Rightarrow> json \<Rightarrow> json \<Rightarrow> result" where
  "make_error task_id code message =
     \<lparr>r_id = task_id, r_status = ''error'', r_payload = JObj [], r_error = Some (code, message),
      r_protocol = ''elo.v1'', r_type = ''result''\<rparr>"

record event =
  e_event_type :: string
  e_data :: json
  e_id :: string
  e_protocol :: string
  e_type :: string
  e_timestamp :: int

definition event_to_dict :: "event \<Rightarrow> pydict" where
  "event_to_dict e = dset ''type'' (JStr ''event'')
     [(''event_type'', JStr (e_event_type e)), (''data'', e_data e), (''id'', JStr (e_id e)),
      (''protocol'', JStr (e_protocol e)), (''type'', JStr (e_type e)),
      (''timestamp'', JInt (e_timestamp e))]"

lemma task_from_to_dict: "t_type t = JStr ''task'' \<Longrightarrow> task_from_dict (task_to_dict t) = t"
  by (simp add: task_from_dict_def task_to_dict_def dget_def)

lemma wf_task_to_dict:
  "wf_dict (task_to_dict t) \<longleftrightarrow>
     list_all wf_json [t_target t, t_caller t, t_capability t, t_payload t, t_id t, t_protocol t,
       t_timestamp t, t_ttl_s t, t_signature t]"
  by (auto simp: wf_dict_def task_to_dict_def)

lemma result_error_key: "''error'' \<in> fst ` set (result_to_dict r) \<longleftrightarrow> r_error r \<noteq> None"
  by (auto simp: result_to_dict_def Let_def)

section \<open>Properties\<close>

text \<open>
  a task survives the wire. A task written with \<open>to_dict\<close>, framed and read back, is
  decoded by \<open>from_dict\<close> to the same task, and the bytes after its frame are untouched.
\<close>

lemma task_wire_roundtrip:
  assumes "t_type t = JStr ''task''" "wf_dict (task_to_dict t)" "encode_frame (task_to_dict t) = Inr fr"
  shows "\<exists>m. read_frame eof (fr @ rest) = Got (JObj m) rest \<and> task_from_dict m = t"
  using read_encode_frame [OF assms(2,3)] task_from_to_dict [OF assms(1)] by auto

definition demo_task :: task where
  "demo_task = task_from_dict [(''id'', JStr ''1''), (''target'', JStr ''x'')]"

lemma task_wire_roundtrip_witness: "\<exists>fr m. encode_frame (task_to_dict demo_task) = Inr fr \<and>
    read_frame True fr = Got (JObj m) [] \<and> task_from_dict m = demo_task"
proof -
  have wf: "t_type demo_task = JStr ''task''" "wf_dict (task_to_dict demo_task)"
    by (simp_all add: demo_task_def task_from_dict_def wf_task_to_dict dget_def)
  have "frame_ok (task_to_dict demo_task)"
    by (rule small_frame_ok [OF wf(2)])
      (simp add: demo_task_def task_from_dict_def task_to_dict_def dget_def utf8_encode_def utf8_char_def
        wire_opts_def dump_str_def esc_char_def MAX_PAYLOAD_SIZE_def Let_def show_int_def show_nat.simps dig_char_def)
  then obtain fr where fr: "encode_frame (task_to_dict demo_task) = Inr fr" by (auto simp: frame_ok_def)
  then show ?thesis using task_wire_roundtrip [OF wf fr, of True "[]"] by auto
qed

end
