(* ===== verification/Json_Canon.thy ===== *)
theory Json_Canon
  imports Json_Codec "HOL-Library.Multiset"
begin

text \<open>
  The canonical text of a value, which is what Elo signs: keys sorted, no spaces, ASCII
  only. Two values have the same canonical text exactly when they are equal as Python
  values, that is up to the order of the keys of their dictionaries.
\<close>

definition canon :: "json \<Rightarrow> string" where
  "canon j = dump canon_opts (sort_json j)"

text \<open>Python's \<open>==\<close> on decoded values; numbers of different types are kept apart.\<close>

fun json_eq :: "json \<Rightarrow> json \<Rightarrow> bool" where
  "json_eq (JArr xs) (JArr ys) \<longleftrightarrow> list_all2 json_eq xs ys"
| "json_eq (JObj a) (JObj b) \<longleftrightarrow> length a = length b \<and>
     (\<forall>kv \<in> set a. case map_of b (fst kv) of None \<Rightarrow> False | Some w \<Rightarrow> json_eq (snd kv) w)"
| "json_eq a b \<longleftrightarrow> a = b"

abbreviation sort_items :: "pydict \<Rightarrow> pydict" where
  "sort_items a \<equiv> map (\<lambda>kv. (fst kv, sort_json (snd kv))) a"

lemma sort_key_dict_eq:
  assumes "distinct (map fst a)" "distinct (map fst b)"
  shows "sort_key fst a = sort_key fst b \<longleftrightarrow> set a = set (b :: (string \<times> 'v) list)"
proof
  assume "set a = set b"
  then have "mset a = mset b"
    using assms by (metis distinct_map set_eq_iff_mset_eq_distinct)
  moreover have "inj_on fst (set a)" using assms(1) by (simp add: distinct_map)
  ultimately show "sort_key fst a = sort_key fst b"
    by (intro sort_key_inj_key_eq) simp_all
qed (metis set_sort)

lemma wf_sort_json: "wf_json j \<Longrightarrow> wf_json (sort_json j)"
proof (induction j rule: sort_json.induct)
  case (2 kvs)
  then show ?case
    by (fastforce simp: list_all_iff comp_def distinct_map [of fst] distinct_sort inj_on_def
        intro!: distinct_map [THEN iffD2])
qed (auto simp: list_all_iff)

lemma fst_item [simp]: "fst \<circ> (\<lambda>kv. (fst kv, f (snd kv))) = fst"
  by auto

lemma fst_sort_items: "map fst (sort_items a) = map fst a"
  by simp

lemma sort_items_mem:
  "distinct (map fst a) \<Longrightarrow> (k, v) \<in> set (sort_items a) \<longleftrightarrow> (\<exists>w. map_of a k = Some w \<and> v = sort_json w)"
  by (force simp: image_iff)

lemma card_sort_items: "distinct (map fst a) \<Longrightarrow> card (set (sort_items a)) = length a"
  using distinct_map [of fst "sort_items a"] distinct_card [of "sort_items a"] by simp

lemma dict_sub_eq:
  assumes "distinct (map fst a)" "distinct (map fst b)" "length a = length b"
    and "set (sort_items a) \<subseteq> set (sort_items b)"
  shows "set (sort_items a) = set (sort_items b)"
  using assms by (intro card_subset_eq) (simp_all add: card_sort_items del: set_map)

lemma sort_items_eq:
  assumes a: "distinct (map fst a)" and b: "distinct (map fst b)"
  shows "set (sort_items a) = set (sort_items b) \<longleftrightarrow>
    length a = length b \<and> (\<forall>kv\<in>set a. \<exists>w. map_of b (fst kv) = Some w \<and> sort_json (snd kv) = sort_json w)"
proof
  assume eq: "set (sort_items a) = set (sort_items b)"
  have "length a = length b"
    using card_sort_items [OF a] card_sort_items [OF b] eq by simp
  moreover have "\<exists>w. map_of b (fst kv) = Some w \<and> sort_json (snd kv) = sort_json w" if "kv \<in> set a" for kv
  proof -
    have "(fst kv, sort_json (snd kv)) \<in> set (sort_items b)"
      using that eq by auto
    then show ?thesis using sort_items_mem [OF b] by blast
  qed
  ultimately show "length a = length b \<and>
      (\<forall>kv\<in>set a. \<exists>w. map_of b (fst kv) = Some w \<and> sort_json (snd kv) = sort_json w)" by blast
next
  assume r: "length a = length b \<and>
      (\<forall>kv\<in>set a. \<exists>w. map_of b (fst kv) = Some w \<and> sort_json (snd kv) = sort_json w)"
  then have "set (sort_items a) \<subseteq> set (sort_items b)"
    using sort_items_mem [OF b] by fastforce
  then show "set (sort_items a) = set (sort_items b)"
    using dict_sub_eq [OF a b] r by blast
qed

lemma sort_json_atom:
  "(sort_json j = JNull) = (j = JNull)" "(sort_json j = JBool b) = (j = JBool b)"
  "(sort_json j = JInt i) = (j = JInt i)" "(sort_json j = JFloat x) = (j = JFloat x)"
  "(sort_json j = JStr s) = (j = JStr s)"
  by (cases j; simp)+

lemma json_eq_iff_sort: "wf_json a \<Longrightarrow> wf_json b \<Longrightarrow> json_eq a b \<longleftrightarrow> sort_json a = sort_json b"
proof (induction a b rule: json_eq.induct)
  case (1 xs ys)
  then show ?case
    by (auto simp: list_all2_conv_all_nth list_all_iff list_eq_iff_nth_eq)
next
  case (2 a b)
  then have d: "distinct (map fst a)" "distinct (map fst b)"
    and wf: "\<And>kv. kv \<in> set a \<Longrightarrow> wf_json (snd kv)" "\<And>k w. map_of b k = Some w \<Longrightarrow> wf_json w"
    by (auto simp: list_all_iff dest!: map_of_SomeD)
  have IH: "json_eq (snd kv) w \<longleftrightarrow> sort_json (snd kv) = sort_json w"
    if "kv \<in> set a" "map_of b (fst kv) = Some w" for kv w
    using 2 that wf by blast
  have "sort_json (JObj a) = sort_json (JObj b) \<longleftrightarrow> set (sort_items a) = set (sort_items b)"
    using sort_key_dict_eq [of "sort_items a" "sort_items b"] d by simp
  also have "\<dots> \<longleftrightarrow> json_eq (JObj a) (JObj b)"
    unfolding sort_items_eq [OF d] using IH by (force split: option.splits)
  finally show ?case by simp
qed (auto simp: sort_json_atom sort_json_atom [THEN eq_commute [THEN trans]])

lemma canon_eq_iff: "wf_json a \<Longrightarrow> wf_json b \<Longrightarrow> canon a = canon b \<longleftrightarrow> json_eq a b"
  by (simp add: canon_def canon_code.enc_inject wf_sort_json json_eq_iff_sort)

lemma loads_canon: "wf_json j \<Longrightarrow> loads (canon j) = Some (sort_json j)"
  by (simp add: canon_def canon_code.dec_enc wf_sort_json)

lemma json_eq_refl [simp]: "wf_json a \<Longrightarrow> json_eq a a"
  by (simp add: json_eq_iff_sort)

lemma canon_perm:
  assumes "wf_json (JObj a)" "set a = set b" "distinct (map fst b)"
  shows "canon (JObj a) = canon (JObj b)"
proof -
  have "sort_key fst (sort_items a) = sort_key fst (sort_items b)"
    using assms by (subst sort_key_dict_eq) auto
  then show ?thesis by (simp add: canon_def)
qed

text \<open>The canonical text is ASCII, so its UTF-8 encoding is one byte per character.\<close>

definition ascii :: "string \<Rightarrow> bool" where
  "ascii s \<longleftrightarrow> list_all (\<lambda>c. (of_char c :: nat) < 128) s"

lemma ascii_append [simp]: "ascii (a @ b) \<longleftrightarrow> ascii a \<and> ascii b"
  by (simp add: ascii_def)

lemma ascii_Cons [simp]: "ascii (c # b) \<longleftrightarrow> (of_char c :: nat) < 128 \<and> ascii b"
  by (simp add: ascii_def)

lemma ascii_Nil [simp]: "ascii []"
  by (simp add: ascii_def)

lemma ascii_digits: "list_all is_dig s \<Longrightarrow> ascii s"
  by (auto simp: ascii_def list_all_iff is_dig_def dest!: bspec)

lemma ascii_show_nat [simp]: "ascii (show_nat n)"
  by (rule ascii_digits) (rule show_nat_all_dig)

lemma hex_digit_ascii: "n < 16 \<Longrightarrow> (of_char (hex_digit n) :: nat) < 128"
  by (simp add: hex_digit_def)

lemma ascii_esc_char: "ascii (esc_char True c)"
proof -
  have "(of_char c :: nat) div 16 < 16" using char_bound [of c] by (intro less_mult_imp_div_less) simp
  then show ?thesis
    using hex_digit_ascii [of "of_char c div 16"] hex_digit_ascii [of "of_char c mod 16"]
    by (auto simp: esc_char_def Let_def)
qed

lemma ascii_dump_str: "ascii (dump_str True s)"
  by (induction s) (use ascii_esc_char in \<open>auto simp: dump_str_def\<close>)

lemma ascii_join: "ascii sep \<Longrightarrow> list_all ascii xs \<Longrightarrow> ascii (join sep xs)"
  by (induction sep xs rule: join.induct) auto

lemma ascii_dump:
  assumes "ensure_ascii opt" "ascii (item_sep opt)" "ascii (key_sep opt)"
  shows "ascii (dump opt j)"
proof (induction j)
  case (JFloat x)
  then show ?case
    by (cases x) (auto simp: Let_def intro: ascii_digits pad_digits_dig)
next
  case (JArr xs)
  then show ?case
    using assms by (auto simp: list_all_iff intro!: ascii_join)
next
  case (JObj kvs)
  then have "ascii (dump opt (snd kv))" if "kv \<in> set kvs" for kv
    using that by (cases kv) (auto simp: snds.simps)
  then show ?case
    using assms by (auto simp: list_all_iff ascii_dump_str intro!: ascii_join)
qed (use assms in \<open>auto simp: show_int_def ascii_dump_str\<close>)

lemma ascii_canon: "ascii (canon j)"
  by (simp add: canon_def ascii_dump canon_opts_def)

section \<open>Properties\<close>

text \<open>
  the texts of JSON values are read back. For each of the three ways the code writes JSON
  (frames, queue lines, canonical texts), reading the text of a value gives the value (for the
  canonical text, the value with its keys sorted).
\<close>

lemma json_roundtrip:
  assumes "wf_json j"
  shows "loads (dump wire_opts j) = Some j \<and> loads (dump file_opts j) = Some j \<and> loads (canon j) = Some (sort_json j)"
  using wire_code.dec_enc [OF assms] file_code.dec_enc [OF assms] loads_canon [OF assms] by simp

lemma json_roundtrip_witness:
  "loads (dump wire_opts (JObj [(''b'', JInt 2), (''a'', JArr [JNull, JStr ''x''])])) =
     Some (JObj [(''b'', JInt 2), (''a'', JArr [JNull, JStr ''x''])])"
  using json_roundtrip [of "JObj [(''b'', JInt 2), (''a'', JArr [JNull, JStr ''x''])]"] by simp

text \<open>
  the canonical text identifies a message up to the order of its keys. Two values have the
  same canonical text exactly when they are equal with the keys of their objects in any order,
  and the text is plain ASCII.
\<close>

lemma canonical_text:
  assumes "wf_json a" "wf_json b"
  shows "(canon a = canon b \<longleftrightarrow> json_eq a b) \<and> ascii (canon a)"
  using canon_eq_iff [OF assms] ascii_canon by simp

lemma canonical_text_witness:
  "canon (JObj [(''a'', JInt 1), (''b'', JNull)]) = canon (JObj [(''b'', JNull), (''a'', JInt 1)])"
  using canonical_text [of "JObj [(''a'', JInt 1), (''b'', JNull)]" "JObj [(''b'', JNull), (''a'', JInt 1)]"]
  by simp


text \<open>
  The JSON reader always ends, and what it gives is a JSON value. The fuel of the model is
  never what stops it: any larger fuel gives the same answer on every text, and objects it
  builds have each key once.
\<close>

lemma json_reader_total:
  assumes "2 * length s < f"
  shows "loads s = (case scan_value f (skip_ws s) of
      Some (j, r) \<Rightarrow> if skip_ws r = [] then Some j else None | None \<Rightarrow> None) \<and>
    pred_option wf_json (loads s)"
proof
  show "loads s = (case scan_value f (skip_ws s) of
      Some (j, r) \<Rightarrow> if skip_ws r = [] then Some j else None | None \<Rightarrow> None)"
    by (rule loads_fuel [OF assms])
  show "pred_option wf_json (loads s)"
    using wf_loads [of s] by (cases "loads s") (simp_all only: option.pred_inject)
qed

lemma json_reader_total_witness: "pred_option wf_json (loads ''[1,'')"
  by (rule json_reader_total [THEN conjunct2, of "''[1,''" 100]) simp

end
