(* ===== verification/Base64.thy ===== *)
theory Base64
  imports Json_Canon Protocol
begin

text \<open>
  URL-safe base64 as Python's \<open>base64\<close> module computes it: the encoder, with the padding
  stripped as Elo does, and the lenient decoder, which skips characters outside the
  alphabet and stops at a complete padding.
\<close>

definition b64_char :: "nat \<Rightarrow> char" where
  "b64_char n = (if n < 26 then char_of (65 + n)
     else if n < 52 then char_of (97 + (n - 26))
     else if n < 62 then char_of (48 + (n - 52))
     else if n = 62 then CHR ''-'' else CHR ''_'')"

text \<open>
  The decoder translates \<open>-\<close> and \<open>_\<close> to \<open>+\<close> and \<open>/\<close> first, so it takes all four.
\<close>

definition b64_val :: "char \<Rightarrow> nat option" where
  "b64_val c = (let n = (of_char c :: nat) in
     if 65 \<le> n \<and> n \<le> 90 then Some (n - 65)
     else if 97 \<le> n \<and> n \<le> 122 then Some (n - 71)
     else if 48 \<le> n \<and> n \<le> 57 then Some (n + 4)
     else if n = 45 \<or> n = 43 then Some 62
     else if n = 95 \<or> n = 47 then Some 63
     else None)"

text \<open>\<open>urlsafe_b64encode(bs).rstrip(b"=")\<close>.\<close>

fun b64_encode :: "byte list \<Rightarrow> string" where
  "b64_encode [] = []"
| "b64_encode [a] = [b64_char (unat a div 4), b64_char (unat a mod 4 * 16)]"
| "b64_encode [a, b] =
     [b64_char (unat a div 4), b64_char (unat a mod 4 * 16 + unat b div 16), b64_char (unat b mod 16 * 4)]"
| "b64_encode (a # b # c # bs) =
     b64_char (unat a div 4) # b64_char (unat a mod 4 * 16 + unat b div 16) #
     b64_char (unat b mod 16 * 4 + unat c div 64) # b64_char (unat c mod 64) # b64_encode bs"

text \<open>
  \<open>binascii.a2b_base64\<close>, not strict: position in the current group of four, the bits left
  over, and the number of padding characters seen since the last data character.
\<close>

fun a2b :: "nat \<Rightarrow> nat \<Rightarrow> nat \<Rightarrow> string \<Rightarrow> byte list option" where
  "a2b qp left pads [] = (if qp = 0 then Some [] else None)"
| "a2b qp left pads (c # cs) =
     (if c = CHR ''='' then
        (if 2 \<le> qp \<and> 4 \<le> qp + (pads + 1) then Some []
         else a2b qp left (if 2 \<le> qp then pads + 1 else pads) cs)
      else (case b64_val c of
        None \<Rightarrow> a2b qp left pads cs
      | Some v \<Rightarrow>
          if qp = 0 then a2b 1 v 0 cs
          else if qp = 1 then map_option (Cons (word_of_nat (left * 4 + v div 16))) (a2b 2 (v mod 16) 0 cs)
          else if qp = 2 then map_option (Cons (word_of_nat (left * 16 + v div 4))) (a2b 3 (v mod 4) 0 cs)
          else map_option (Cons (word_of_nat (left * 64 + v))) (a2b 0 0 0 cs)))"

text \<open>\<open>urlsafe_b64decode(s + "==")\<close>: a ValueError on text that is not ASCII or not base64.\<close>

definition b64_decode_padded :: "string \<Rightarrow> exn + byte list" where
  "b64_decode_padded s =
     (if ascii s then (case a2b 0 0 0 (s @ ''=='') of None \<Rightarrow> Inl ValueErr | Some bs \<Rightarrow> Inr bs)
      else Inl ValueErr)"

lemma b64_cases:
  fixes n :: nat
  assumes "n < 64"
  obtains "n < 26" | "26 \<le> n" "n < 52" | "52 \<le> n" "n < 62" | "n = 62" | "n = 63"
  using assms by linarith

lemma b64_val_char: "n < 64 \<Longrightarrow> b64_val (b64_char n) = Some n"
  by (erule b64_cases) (auto simp: b64_val_def b64_char_def Let_def)

lemma b64_char_code: "n < 64 \<Longrightarrow> (of_char (b64_char n) :: nat) < 128 \<and> (of_char (b64_char n) :: nat) \<noteq> 61
    \<and> (of_char (b64_char n) :: nat) \<noteq> 64"
  by (erule b64_cases) (auto simp: b64_char_def)

lemma b64_char_not_pad [simp]: "n < 64 \<Longrightarrow> b64_char n \<noteq> CHR ''=''"
  using b64_char_code [of n] by auto

lemma byte_bound: "unat (b :: byte) < 256"
  using unsigned_less [of b] by simp

lemma split_digits: "x < k \<Longrightarrow> (y * k + x) div k = (y :: nat) \<and> (y * k + x) mod k = x"
  by simp

lemma div_below: "(n :: nat) < k * m \<Longrightarrow> n div m < k"
  by (rule less_mult_imp_div_less)

text \<open>The six-bit groups of bytes are below 64, and the decoder puts the bytes together again.\<close>

lemma b64_parts:
  "unat (a :: byte) div 4 < 64" "unat a mod 4 * 16 < 64" "unat a mod 16 * 4 < 64" "unat a mod 64 < 64"
  "unat a mod 4 * 16 + unat (b :: byte) div 16 < 64" "unat a mod 16 * 4 + unat b div 64 < 64"
proof -
  have a: "unat a div 4 < 64" and b: "unat b div 16 < 16" "unat b div 64 < 4"
    using byte_bound [of a] byte_bound [of b] by (auto intro!: div_below)
  have m: "unat a mod 4 < 4" "unat a mod 16 < 16" by simp_all
  show "unat a div 4 < 64" by fact
  show "unat a mod 4 * 16 < 64" "unat a mod 16 * 4 < 64" using m by linarith+
  show "unat a mod 64 < 64" by simp
  show "unat a mod 4 * 16 + unat b div 16 < 64" "unat a mod 16 * 4 + unat b div 64 < 64"
    using m b by linarith+
qed

lemma b64_rejoin:
  "unat (a :: byte) div 4 * 4 + (unat a mod 4 * 16 + unat (b :: byte) div 16) div 16 = unat a"
  "(unat a mod 4 * 16 + unat b div 16) mod 16 = unat b div 16"
  "unat b div 16 * 16 + (unat b mod 16 * 4 + unat c div 64) div 4 = unat b"
  "(unat b mod 16 * 4 + unat (c :: byte) div 64) mod 4 = unat c div 64"
proof -
  have b: "unat b div 16 < 16" and c: "unat c div 64 < 4"
    using byte_bound [of b] byte_bound [of c] by (auto intro!: div_below)
  show "unat a div 4 * 4 + (unat a mod 4 * 16 + unat b div 16) div 16 = unat a"
    "(unat a mod 4 * 16 + unat b div 16) mod 16 = unat b div 16"
    using split_digits [OF b, of "unat a mod 4"] by simp_all
  show "unat b div 16 * 16 + (unat b mod 16 * 4 + unat c div 64) div 4 = unat b"
    "(unat b mod 16 * 4 + unat c div 64) mod 4 = unat c div 64"
    using split_digits [OF c, of "unat b mod 16"] by simp_all
qed

text \<open>One data character at each position of its group.\<close>

lemma a2b_step:
  assumes "v < 64"
  shows "a2b 0 l p (b64_char v # cs) = a2b (Suc 0) v 0 cs"
    "a2b (Suc 0) l p (b64_char v # cs) = map_option (Cons (word_of_nat (l * 4 + v div 16))) (a2b 2 (v mod 16) 0 cs)"
    "a2b 2 l p (b64_char v # cs) = map_option (Cons (word_of_nat (l * 16 + v div 4))) (a2b 3 (v mod 4) 0 cs)"
    "a2b 3 l p (b64_char v # cs) = map_option (Cons (word_of_nat (l * 64 + v))) (a2b 0 0 0 cs)"
  using b64_val_char [OF assms] b64_char_not_pad [OF assms] by simp_all

lemma a2b_pad: "a2b 0 l p ''=='' = Some []" "a2b 2 l 0 ''=='' = Some []" "a2b 3 l 0 ''=='' = Some []"
  by simp_all

declare a2b.simps [simp del]

lemma a2b_encode: "a2b 0 l p (b64_encode bs @ ''=='') = Some bs"
proof (induction bs arbitrary: l p rule: b64_encode.induct)
  case 1
  then show ?case by (simp add: a2b_pad)
next
  case (2 a)
  show ?case
    using b64_rejoin(1) [of a 0] by (simp add: a2b_step b64_parts a2b_pad)
next
  case (3 a b)
  show ?case
    using b64_rejoin(1,2) [of a b] b64_rejoin(3) [of b 0] by (simp add: a2b_step b64_parts a2b_pad)
next
  case (4 a b c bs)
  show ?case
    using b64_rejoin [of a b] b64_rejoin(3,4) [of b c] 4 by (simp add: a2b_step b64_parts)
qed

lemma b64_codes:
  "c \<in> set (b64_encode bs) \<Longrightarrow> (of_char c :: nat) < 128 \<and> (of_char c :: nat) \<noteq> 61 \<and> (of_char c :: nat) \<noteq> 64"
  by (induction bs rule: b64_encode.induct) (auto simp: b64_char_code b64_parts)

lemma ascii_b64: "ascii (b64_encode bs)"
  by (auto simp: ascii_def list_all_iff dest!: b64_codes)

lemma b64_decode_encode: "b64_decode_padded (b64_encode bs) = Inr bs"
  by (simp add: b64_decode_padded_def ascii_b64 a2b_encode)

interpretation b64: codec b64_encode "\<lambda>s. case b64_decode_padded s of Inl _ \<Rightarrow> None | Inr bs \<Rightarrow> Some bs" "\<lambda>_. True"
  by unfold_locales (simp add: b64_decode_encode)

lemma length_b64: "length (b64_encode bs) = (4 * length bs + 2) div 3"
  by (induction bs rule: b64_encode.induct) auto

lemma b64_no_at: "CHR ''@'' \<notin> set (b64_encode bs)"
  using b64_codes [of "CHR ''@''" bs] by auto

text \<open>The decoder never gives more bits than its characters hold, six each, and those left over.\<close>

lemma a2b_length: "a2b qp left pads cs = Some bs \<Longrightarrow> qp \<le> 3 \<Longrightarrow>
   8 * length bs \<le> 6 * length cs + (if qp = 0 then 0 else 8 - 2 * qp)"
proof (induction cs arbitrary: qp left pads bs)
  case Nil
  then show ?case by (auto simp: a2b.simps split: if_splits)
next
  case (Cons c cs)
  show ?case
  proof (cases "c = CHR ''=''")
    case True
    then show ?thesis
      using Cons.prems Cons.IH [of qp left _ bs] by (fastforce simp: a2b.simps split: if_splits)
  next
    case False
    show ?thesis
    proof (cases "b64_val c")
      case None
      then show ?thesis
        using Cons.prems Cons.IH [of qp left pads bs] False by (simp add: a2b.simps)
    next
      case (Some v)
      have eq: "a2b qp left pads (c # cs) =
          (if qp = 0 then a2b 1 v 0 cs
           else map_option (Cons (word_of_nat (if qp = 1 then left * 4 + v div 16
               else if qp = 2 then left * 16 + v div 4 else left * 64 + v)))
             (if qp = 1 then a2b 2 (v mod 16) 0 cs else if qp = 2 then a2b 3 (v mod 4) 0 cs else a2b 0 0 0 cs))"
        using False Some by (simp add: a2b.simps)
      show ?thesis
      proof (cases "qp = 0")
        case True
        then show ?thesis using Cons.prems Cons.IH [of 1 v 0 bs] eq by simp
      next
        case False
        then consider "qp = 1" | "qp = 2" | "qp = 3" using Cons.prems(2) by linarith
        then show ?thesis
        proof cases
          case 1
          then obtain xs where "a2b 2 (v mod 16) 0 cs = Some xs" "length bs = Suc (length xs)"
            using eq [symmetric, unfolded Cons.prems(1)] by auto
          then show ?thesis using Cons.IH [of 2 "v mod 16" 0 xs] 1 by simp
        next
          case 2
          then obtain xs where "a2b 3 (v mod 4) 0 cs = Some xs" "length bs = Suc (length xs)"
            using eq [symmetric, unfolded Cons.prems(1)] by auto
          then show ?thesis using Cons.IH [of 3 "v mod 4" 0 xs] 2 by simp
        next
          case 3
          then obtain xs where "a2b 0 0 0 cs = Some xs" "length bs = Suc (length xs)"
            using eq [symmetric, unfolded Cons.prems(1)] by auto
          then show ?thesis using Cons.IH [of 0 0 0 xs] 3 by simp
        qed
      qed
    qed
  qed
qed

lemma b64_size: "length (b64_encode bs) \<le> 2 * length bs"
  by (induction bs rule: b64_encode.induct) auto

lemma b64_encode_Nil [simp]: "b64_encode bs = [] \<longleftrightarrow> bs = []"
  by (cases bs rule: b64_encode.cases) auto

end
