(* ===== verification/Security.thy ===== *)
theory Security
  imports Base64
begin

text \<open>
  \<open>elo/security.py\<close>: identities, node ids and signatures. The ed25519 primitives come from
  the \<open>cryptography\<close> package, so they are parameters: a record of functions that every
  definition using them takes. What the code relies on is named below (\<open>ed_ok\<close>).
\<close>

type_synonym privkey = "byte list"
type_synonym pubkey = "byte list"

text \<open>
  The primitives: the public key of a private key, loading a public key from raw bytes (None
  for the ValueError), the raw bytes of a public key, signing and verification, and the
  PKCS8 PEM form of a private key (writing and loading it).
\<close>

record ed25519 =
  ed_public :: "privkey \<Rightarrow> pubkey"
  ed_load :: "byte list \<Rightarrow> pubkey option"
  ed_raw :: "pubkey \<Rightarrow> byte list"
  ed_sign :: "privkey \<Rightarrow> byte list \<Rightarrow> byte list"
  ed_verify :: "pubkey \<Rightarrow> byte list \<Rightarrow> byte list \<Rightarrow> bool"
  ed_pem :: "privkey \<Rightarrow> byte list"
  ed_load_pem :: "byte list \<Rightarrow> privkey option"

text \<open>
  Documented behaviour of the package: a raw public key has 32 bytes and only 32 bytes load,
  loading inverts the raw form, a signature made with a private key verifies under its public
  key, and the PEM form of a private key loads back.
\<close>

definition ed_ok :: "ed25519 \<Rightarrow> bool" where
  "ed_ok ed \<longleftrightarrow>
     (\<forall>sk. length (ed_raw ed (ed_public ed sk)) = 32) \<and>
     (\<forall>sk. ed_load ed (ed_raw ed (ed_public ed sk)) = Some (ed_public ed sk)) \<and>
     (\<forall>raw. length raw \<noteq> 32 \<longrightarrow> ed_load ed raw = None) \<and>
     (\<forall>sk m. ed_verify ed (ed_public ed sk) (ed_sign ed sk m) m) \<and>
     (\<forall>sk. ed_load_pem ed (ed_pem ed sk) = Some sk)"

section \<open>Node ids\<close>

definition pubkey_to_id :: "ed25519 \<Rightarrow> pubkey \<Rightarrow> string" where
  "pubkey_to_id ed pk = b64_encode (ed_raw ed pk)"

definition id_to_pubkey :: "ed25519 \<Rightarrow> string \<Rightarrow> exn + pubkey" where
  "id_to_pubkey ed node_id = bindE (b64_decode_padded node_id)
     (\<lambda>raw. case ed_load ed raw of None \<Rightarrow> Inl ValueErr | Some pk \<Rightarrow> Inr pk)"

section \<open>Signatures\<close>

definition canonical_bytes :: "json \<Rightarrow> byte list" where
  "canonical_bytes payload = utf8_encode (canon payload)"

definition sign_message :: "ed25519 \<Rightarrow> privkey \<Rightarrow> pydict \<Rightarrow> string" where
  "sign_message ed sk payload = b64_encode (ed_sign ed sk (canonical_bytes (JObj payload)))"

text \<open>
  \<open>verify_signature\<close>: any exception while decoding or verifying the signature gives False. The
  signature is whatever the message carries; \<open>signature_b64 + "=="\<close> fails on what is not a
  string, inside the \<open>try\<close>.
\<close>

definition verify_signature :: "ed25519 \<Rightarrow> pubkey \<Rightarrow> pydict \<Rightarrow> json \<Rightarrow> bool" where
  "verify_signature ed pk payload signature_b64 =
     (case bindE (py_str signature_b64) b64_decode_padded of
        Inl _ \<Rightarrow> False
      | Inr sig \<Rightarrow> ed_verify ed pk sig (canonical_bytes (JObj payload)))"

section \<open>Identities\<close>

record identity =
  private_key :: privkey
  public_key :: pubkey

definition generate_identity :: "ed25519 \<Rightarrow> privkey \<Rightarrow> privkey \<times> pubkey" where [simp]:
  "generate_identity ed sk = (sk, ed_public ed sk)"

definition identity_of :: "ed25519 \<Rightarrow> privkey \<Rightarrow> identity" where
  "identity_of ed sk = (case generate_identity ed sk of (sk, pk) \<Rightarrow> \<lparr>private_key = sk, public_key = pk\<rparr>)"

definition node_id_of :: "ed25519 \<Rightarrow> identity \<Rightarrow> string" where
  "node_id_of ed i = pubkey_to_id ed (public_key i)"

definition identity_sign :: "ed25519 \<Rightarrow> identity \<Rightarrow> pydict \<Rightarrow> string" where
  "identity_sign ed i payload = sign_message ed (private_key i) payload"

definition identity_verify :: "ed25519 \<Rightarrow> identity \<Rightarrow> pydict \<Rightarrow> json \<Rightarrow> bool" where
  "identity_verify ed i payload sig = verify_signature ed (public_key i) payload sig"

text \<open>
  A key directory holds the seed file and its permission bits, or no seed file.
  \<open>save_identity\<close> writes the PEM text and restricts the file to its owner.
\<close>

type_synonym seed_file = "(byte list \<times> nat) option"

definition save_identity :: "ed25519 \<Rightarrow> privkey \<Rightarrow> seed_file \<Rightarrow> seed_file" where
  "save_identity ed sk dir = Some (ed_pem ed sk, 6 * 64)"

definition load_identity :: "ed25519 \<Rightarrow> seed_file \<Rightarrow> exn + identity" where
  "load_identity ed dir =
     (case dir of
        None \<Rightarrow> Inl FileNotFoundErr
      | Some (pem, _) \<Rightarrow>
          (case ed_load_pem ed pem of
             None \<Rightarrow> Inl ValueErr
           | Some sk \<Rightarrow> Inr (identity_of ed sk)))"

text \<open>\<open>generate_and_save_identity\<close>: \<open>sk\<close> is the key the package generates.\<close>

definition generate_and_save_identity :: "ed25519 \<Rightarrow> privkey \<Rightarrow> seed_file \<Rightarrow> (pubkey \<times> privkey) \<times> seed_file" where
  "generate_and_save_identity ed sk dir =
     (case generate_identity ed sk of (sk, pk) \<Rightarrow> ((pk, sk), save_identity ed sk dir))"

section \<open>Lemmas\<close>

lemma canonical_bytes_eq_iff:
  "wf_json a \<Longrightarrow> wf_json b \<Longrightarrow> canonical_bytes a = canonical_bytes b \<longleftrightarrow> json_eq a b"
  unfolding canonical_bytes_def using utf8.enc_inject canon_eq_iff by blast

lemma sort_json_size: "text_size (sort_json j) = text_size j"
proof (induction j)
  case (JArr xs)
  then show ?case by (simp add: comp_def cong: map_cong)
next
  case (JObj kvs)
  let ?f = "\<lambda>kv. 6 * length (fst kv) + text_size (snd kv) + 6"
  have s: "sum_list (map ?f (sort_key fst ys)) = sum_list (map ?f ys)" for ys :: pydict
  proof -
    have "mset (map ?f (sort_key fst ys)) = mset (map ?f ys)" by simp
    then show ?thesis by (simp only: flip: sum_mset_sum_list)
  qed
  have "map ?f (map (\<lambda>kv. (fst kv, sort_json (snd kv))) kvs) = map ?f kvs"
    using JObj by (auto simp: snds.simps)
  then show ?case by (simp only: sort_json.simps text_size.simps s)
qed simp_all

lemma canonical_size: "length (canonical_bytes j) \<le> 2 * text_size j"
proof -
  have "length (canon j) \<le> text_size j"
    using dump_size [of canon_opts "sort_json j"] by (simp add: canon_def sort_json_size canon_opts_def)
  then show ?thesis using utf8_size [of "canon j"] by (simp add: canonical_bytes_def)
qed

lemma id_roundtrip:
  "ed_ok ed \<Longrightarrow> id_to_pubkey ed (pubkey_to_id ed (ed_public ed sk)) = Inr (ed_public ed sk)"
  by (simp add: id_to_pubkey_def pubkey_to_id_def b64_decode_encode ed_ok_def)

lemma node_id_length: "ed_ok ed \<Longrightarrow> length (node_id_of ed (identity_of ed sk)) = 43"
  by (simp add: node_id_of_def identity_of_def pubkey_to_id_def length_b64 ed_ok_def)

lemma node_id_no_at: "CHR ''@'' \<notin> set (node_id_of ed i)"
  by (simp add: node_id_of_def pubkey_to_id_def b64_no_at)

lemma verify_signature_str:
  "verify_signature ed pk m (JStr (b64_encode sig)) = ed_verify ed pk sig (canonical_bytes (JObj m))"
  by (simp add: verify_signature_def b64_decode_encode)

lemma verify_signature_iff:
  "verify_signature ed pk m s \<longleftrightarrow>
   (\<exists>t sig. s = JStr t \<and> b64_decode_padded t = Inr sig \<and> ed_verify ed pk sig (canonical_bytes (JObj m)))"
  by (cases s) (auto simp: verify_signature_def split: sum.splits)

lemma verify_sign:
  "ed_ok ed \<Longrightarrow> verify_signature ed (ed_public ed sk) m (JStr (sign_message ed sk m))"
  by (simp add: sign_message_def verify_signature_str ed_ok_def)

lemma verify_json_eq:
  "wf_dict a \<Longrightarrow> wf_dict b \<Longrightarrow> json_eq (JObj a) (JObj b) \<Longrightarrow>
   verify_signature ed pk a s = verify_signature ed pk b s"
  unfolding wf_dict_def verify_signature_def by (subst canonical_bytes_eq_iff [THEN iffD2]) simp_all

lemma short_id_no_key:
  assumes "ed_ok ed" "length node_id < 40"
  shows "id_to_pubkey ed node_id = Inl ValueErr"
proof (cases "b64_decode_padded node_id")
  case (Inl e)
  then show ?thesis
    by (auto simp: id_to_pubkey_def b64_decode_padded_def split: if_splits option.splits)
next
  case (Inr raw)
  then have "a2b 0 0 0 (node_id @ ''=='') = Some raw"
    by (auto simp: b64_decode_padded_def split: if_splits option.splits)
  from a2b_length [OF this] have "length raw \<noteq> 32"
    using assms(2) by simp
  then show ?thesis
    using Inr assms(1) by (simp add: id_to_pubkey_def ed_ok_def)
qed

text \<open>A concrete instance of the hypotheses, for the witnesses.\<close>

definition toy_ed :: ed25519 where
  "toy_ed = \<lparr>ed_public = (\<lambda>sk. take 32 (sk @ replicate 32 0)),
     ed_load = (\<lambda>raw. if length raw = 32 then Some raw else None),
     ed_raw = (\<lambda>pk. pk),
     ed_sign = (\<lambda>sk m. take 32 (sk @ replicate 32 0) @ m),
     ed_verify = (\<lambda>pk s m. s = pk @ m),
     ed_pem = (\<lambda>sk. sk),
     ed_load_pem = Some\<rparr>"

lemma toy_ed_ok: "ed_ok toy_ed"
  by (auto simp: ed_ok_def toy_ed_def min_def)

section \<open>Properties\<close>

text \<open>
  C27: a node id is its public key. The id of a node has 43 characters, none of them the
  separator of peer addresses, it decodes to the key it was made from, and a message the node
  signs verifies under the decoded key.
\<close>

theorem node_id_is_key:
  assumes "ed_ok ed"
  shows "length (node_id_of ed (identity_of ed sk)) = 43 \<and>
    CHR ''@'' \<notin> set (node_id_of ed (identity_of ed sk)) \<and>
    (\<exists>pk. id_to_pubkey ed (node_id_of ed (identity_of ed sk)) = Inr pk \<and>
       verify_signature ed pk m (JStr (identity_sign ed (identity_of ed sk) m)))"
proof -
  have "id_to_pubkey ed (node_id_of ed (identity_of ed sk)) = Inr (ed_public ed sk)"
    using id_roundtrip [OF assms, of sk] by (simp add: node_id_of_def identity_of_def)
  then show ?thesis
    using node_id_length [OF assms] node_id_no_at verify_sign [OF assms, of sk m]
    by (simp add: identity_sign_def identity_of_def)
qed

theorem node_id_is_key_witness: "length (node_id_of toy_ed (identity_of toy_ed [1, 2])) = 43"
  using node_id_is_key [OF toy_ed_ok, of "[1, 2]" "[]"] by simp

text \<open>
  C25: a signature covers the whole message and nothing of its layout. Messages that differ
  only in the order of keys have the same signed bytes, so each verifies exactly when the other
  does; messages that differ in anything else have different signed bytes.
\<close>

theorem signature_covers_message:
  assumes "wf_dict a" "wf_dict b"
  shows "(canonical_bytes (JObj a) = canonical_bytes (JObj b) \<longleftrightarrow> json_eq (JObj a) (JObj b)) \<and>
    (json_eq (JObj a) (JObj b) \<longrightarrow> verify_signature ed pk a s = verify_signature ed pk b s)"
  using canonical_bytes_eq_iff [of "JObj a" "JObj b"] verify_json_eq [OF assms, of ed pk s] assms
  by (simp add: wf_dict_def)

theorem signature_covers_message_witness:
  "canonical_bytes (JObj [(''a'', JInt 1)]) \<noteq> canonical_bytes (JObj [(''a'', JInt 2)])"
  using signature_covers_message [of "[(''a'', JInt 1)]" "[(''a'', JInt 2)]" toy_ed "[]" JNull]
  by (simp add: wf_dict_def)

text \<open>
  a saved identity is loaded back. After an identity is generated and saved, whatever the
  directory held before, loading gives the same keys and the same node id, and only the owner
  can read or write the file.
\<close>

lemma identity_saved_and_loaded:
  assumes "ed_ok ed" "generate_and_save_identity ed sk dir = ((pub, priv), dir')"
  shows "load_identity ed dir' = Inr \<lparr>private_key = priv, public_key = pub\<rparr> \<and>
    (\<exists>pem. dir' = Some (pem, 384)) \<and> load_identity ed None = Inl FileNotFoundErr"
  using assms
  by (auto simp: generate_and_save_identity_def save_identity_def load_identity_def identity_of_def ed_ok_def)

lemma identity_saved_and_loaded_witness:
  "load_identity toy_ed (snd (generate_and_save_identity toy_ed [9] None)) =
     Inr \<lparr>private_key = [9], public_key = ed_public toy_ed [9]\<rparr>"
  using identity_saved_and_loaded [OF toy_ed_ok, of "[9]" None "ed_public toy_ed [9]" "[9]"
      "snd (generate_and_save_identity toy_ed [9] None)"]
  by (simp add: generate_and_save_identity_def)

end
