(* ===== verification/Node.thy ===== *)
theory Node
  imports Tcp Lan Routing Tracker Types Security
begin

text \<open>
  \<open>elo/node.py\<close>: the state of a node, its helpers and the handlers of the protocol. A
  handler takes the environment of the call, the address of the peer, the message and the
  node, and returns the node with the exception it raises, if any. A handler runs to its end
  before the next one starts.
\<close>

section \<open>Environment and state\<close>

text \<open>
  What a call reads from outside: the ed25519 package, the iteration orders of sets, the two
  clocks, whether the queue file can be accessed, the text of an exception, the text Python
  gives a list or a dictionary in a formatted string, and whether multicast works.
\<close>

record env =
  ed :: ed25519
  ord_addr :: "addr list \<Rightarrow> addr list"
  ord_val :: "json list \<Rightarrow> json list"
  mono :: rat
  wall :: rat
  queue_io :: io
  exn_text :: "exn \<Rightarrow> string"
  repr_text :: "json \<Rightarrow> string"
  multicast :: bool

record node = tcp +
  nname :: string
  nversion :: string
  initial_peers :: "string list"
  verify_peers :: bool
  heartbeat_interval :: nat
  ident :: identity
  pending_queue :: queue_file
  flushing_pending :: bool
  reconnect_backoff :: "(string \<times> nat) list"
  reconnecting_peers :: "string list"
  started_at :: rat
  last_heartbeat_received :: rat
  tracker_host :: string
  routing :: interest_table
  tracker :: local_tracker
  task_handler :: "(task \<Rightarrow> exn + json) option"
  shutdown_event :: bool
  pending_results :: "(string \<times> result option) list"
  pending_queries :: "(string \<times> (json list \<times> bool)) list"
  pubkey_cache :: "(json \<times> (pubkey \<times> rat)) list"
  cache_ttl_s :: rat
  msg_count :: "(string \<times> (nat \<times> rat)) list"
  hello_count :: "(string \<times> rat) list"
  seen_queries :: "(json \<times> rat) list"
  last_peers :: "string option"
  discovery :: "lan option"

definition seen_query_ttl :: rat where "seen_query_ttl = 60"

text \<open>
  \<open>Node.__init__\<close>: the identity and the tracker host read from the environment are arguments;
  \<open>tr\<close> is the visibility or a tracker host.
\<close>

definition init_node :: "ed25519 \<Rightarrow> string \<Rightarrow> nat \<Rightarrow> string list \<Rightarrow> string \<Rightarrow> string list \<Rightarrow> string \<Rightarrow>
    identity \<Rightarrow> bool \<Rightarrow> nat \<Rightarrow> string \<Rightarrow> rat \<Rightarrow> queue_file \<Rightarrow> string option \<Rightarrow> node" where
  "init_node e nm prt prs tr allow ver ide verify hb env_host now q lp =
     (let mode = tr \<in> {''public'', ''private''};
          vis = (if mode then tr else ''public'')
      in \<lparr>self_id = node_id_of e ide, tcp_port = prt, started = False, listening = False, stopped = False,
          conns = Map.empty, peers = [], has_handler = False, jobs = [],
          nname = nm, nversion = ver, initial_peers = prs, verify_peers = verify, heartbeat_interval = hb,
          ident = ide, pending_queue = q, flushing_pending = False, reconnect_backoff = [],
          reconnecting_peers = [], started_at = now, last_heartbeat_received = 0,
          tracker_host = (if mode then env_host else tr), routing = empty_table,
          tracker = foldl (\<lambda>t nid. allow_peer (JStr nid) t) (new_tracker vis) allow,
          task_handler = None, shutdown_event = False, pending_results = [], pending_queries = [],
          pubkey_cache = [], cache_ttl_s = of_nat (hb * 5), msg_count = [], hello_count = [],
          seen_queries = [], last_peers = lp, discovery = None\<rparr>)"

definition connected :: "node \<Rightarrow> bool" where
  "connected n \<longleftrightarrow> started n"

definition metrics :: "node \<Rightarrow> pydict" where
  "metrics n = [(''node_id'', JStr (take 12 (self_id n))), (''port'', JInt (int (tcp_port n))),
     (''peers_connected'', JInt (int (peer_count n))),
     (''peer_addresses'', JArr (map JStr (peer_addresses n))),
     (''tracker'', JStr (visibility (tracker n))),
     (''caps'', JInt (int (length (local_caps (routing n)))))]"

section \<open>The cache of last peers\<close>

definition line_break :: "char \<Rightarrow> bool" where
  "line_break c \<longleftrightarrow> (of_char c :: nat) \<in> {10, 11, 12, 13, 28, 29, 30, 133}"

fun py_splitlines :: "string \<Rightarrow> string list" where
  "py_splitlines [] = []"
| "py_splitlines (c # s) =
     (if line_break c then [] # py_splitlines s
      else (case s of
         [] \<Rightarrow> [[c]]
       | d # s' \<Rightarrow> if line_break d then [c] # py_splitlines s'
                  else (case py_splitlines s of [] \<Rightarrow> [[c]] | l # ls \<Rightarrow> (c # l) # ls)))"

definition load_last_peers :: "string option \<Rightarrow> string list" where
  "load_last_peers f = (case f of
     None \<Rightarrow> []
   | Some s \<Rightarrow> filter (\<lambda>l. l \<noteq> []) (map py_strip (py_splitlines (univ_newlines s))))"

definition save_last_peers :: "string list \<Rightarrow> string option \<Rightarrow> string option" where
  "save_last_peers ps f = Some (join [CHR 0x0A] (take 10 (set_of (ps @ load_last_peers f))))"

section \<open>Addresses\<close>

definition raw_address :: "string \<Rightarrow> string" where
  "raw_address a = (if CHR ''@'' \<in> set a then last_field (CHR ''@'') a else a)"

definition id_prefix :: "string \<Rightarrow> string" where
  "id_prefix a = (if CHR ''@'' \<in> set a then first_field (CHR ''@'') a else [])"

definition is_outbound_target :: "string \<Rightarrow> node \<Rightarrow> bool" where
  "is_outbound_target a n \<longleftrightarrow>
     (tracker_host n \<noteq> [] \<and> tracker_host n = raw_address a) \<or> raw_address a \<in> set (initial_peers n)"

definition build_hello_msg :: "env \<Rightarrow> node \<Rightarrow> pydict" where
  "build_hello_msg E n = hello_msg (JStr (self_id n)) (get_public_caps (tracker n))
     (ord_val E (local_interests (routing n))) (visibility (tracker n)) (nversion n)"

section \<open>Known peers\<close>

definition peer_entry :: "env \<Rightarrow> node \<Rightarrow> string \<Rightarrow> json" where
  "peer_entry E n a = (case get_peer_caps a (routing n) of (cs, is) \<Rightarrow>
     JObj [(''addr'', JStr a), (''node_id'', JStr (id_prefix a)), (''caps'', JArr (ord_val E cs)),
           (''interests'', JArr (ord_val E is))])"

definition get_known_peers :: "env \<Rightarrow> node \<Rightarrow> json list" where
  "get_known_peers E n = map (peer_entry E n) (known_peers (routing n))"

section \<open>The pubkey cache\<close>

definition get_caller_pubkey :: "env \<Rightarrow> json \<Rightarrow> node \<Rightarrow> node \<times> (exn + pubkey option)" where
  "get_caller_pubkey E nid n =
     (if \<not> hashable nid then (n, Inl TypeErr)
      else
        (case map_of (pubkey_cache n) nid of
           Some (pk, expires) \<Rightarrow>
             if wall E < expires then (n, Inr (Some pk))
             else (let n1 = n\<lparr>pubkey_cache := dpop nid (pubkey_cache n)\<rparr> in
                   case bindE (py_str nid) (id_to_pubkey (ed E)) of
                     Inl _ \<Rightarrow> (n1, Inr None)
                   | Inr pk' \<Rightarrow> (n1\<lparr>pubkey_cache := dset nid (pk', wall E + cache_ttl_s n) (pubkey_cache n1)\<rparr>,
                                Inr (Some pk')))
         | None \<Rightarrow>
             (case bindE (py_str nid) (id_to_pubkey (ed E)) of
                Inl _ \<Rightarrow> (n, Inr None)
              | Inr pk' \<Rightarrow> (n\<lparr>pubkey_cache := dset nid (pk', wall E + cache_ttl_s n) (pubkey_cache n)\<rparr>,
                           Inr (Some pk')))))"

section \<open>Handlers\<close>

text \<open>A send inside \<open>try: ... except Exception: pass\<close>.\<close>

definition try_send :: "string \<Rightarrow> pydict \<Rightarrow> node \<Rightarrow> node" where
  "try_send a m n = fst (send_to a m n)"

definition remember_peer :: "string \<Rightarrow> node \<Rightarrow> node" where
  "remember_peer a n =
     (let raw = raw_address a in
      if CHR '':'' \<in> set raw then n\<lparr>last_peers := save_last_peers [raw] (last_peers n)\<rparr> else n)"

definition on_hello :: "env \<Rightarrow> string \<Rightarrow> pydict \<Rightarrow> node \<Rightarrow> node \<times> exn option" where
  "on_hello E a msg n =
     (case register_peer a (dget msg ''caps'' (JObj [])) (dget msg ''interests'' (JArr [])) (routing n) of
        (t, Some e) \<Rightarrow> (n\<lparr>routing := t\<rparr>, Some e)
      | (t, None) \<Rightarrow>
          (let n1 = n\<lparr>routing := t\<rparr> in
           if dget msg ''type'' JNull = JStr (mt HELLO) then
             (let vis = visibility (tracker n1);
                  known = (if vis \<in> {''public'', ''private''}
                           then Some (filter (\<lambda>p. py_get p ''addr'' (JStr []) \<noteq> Inr (JStr a)) (get_known_peers E n1))
                           else None)
              in case get_caps_for_peer (dget msg ''node_id'' (JStr [])) (tracker n1) of
                   Inl e \<Rightarrow> (n1, Some e)
                 | Inr cs \<Rightarrow>
                     (let ack = hello_ack_msg (JStr (self_id n1)) cs (ord_val E (local_interests (routing n1))) vis known
                      in (spawn FlushPending (remember_peer a (try_send a ack n1)), None)))
           else (spawn FlushPending (remember_peer a n1), None)))"

text \<open>
  The connections to the peers a HELLO_ACK lists. A task started with an address that is not
  a string raises at once and changes nothing.
\<close>

fun spawn_known :: "string \<Rightarrow> pydict \<Rightarrow> json list \<Rightarrow> node \<Rightarrow> node \<times> exn option" where
  "spawn_known a hello [] n = (n, None)"
| "spawn_known a hello (p # ps) n =
     (case py_get p ''addr'' (JStr []) of
        Inl e \<Rightarrow> (n, Some e)
      | Inr (JStr x) \<Rightarrow>
          spawn_known a hello ps
            (if x \<noteq> [] \<and> x \<noteq> a \<and> x \<notin> set (peer_addresses n) then spawn (ConnectTo x hello) n else n)
      | Inr _ \<Rightarrow> spawn_known a hello ps n)"

definition on_hello_ack :: "env \<Rightarrow> string \<Rightarrow> pydict \<Rightarrow> node \<Rightarrow> node \<times> exn option" where
  "on_hello_ack E a msg n =
     (case on_hello E a msg n of
        (n1, Some e) \<Rightarrow> (n1, Some e)
      | (n1, None) \<Rightarrow>
          (let known = dget msg ''known_peers'' JNull in
           if \<not> py_truthy known then (n1, None)
           else (case py_iter known of
                   Inl e \<Rightarrow> (n1, Some e)
                 | Inr ps \<Rightarrow> spawn_known a (build_hello_msg E n1) ps n1)))"

text \<open>\<open>ttl > 1\<close> and \<open>ttl - 1\<close> on a decoded value.\<close>

fun ttl_gt_1 :: "json \<Rightarrow> exn + bool" where
  "ttl_gt_1 (JInt i) = Inr (i > 1)"
| "ttl_gt_1 (JBool _) = Inr False"
| "ttl_gt_1 (JFloat (Dec m k)) = Inr (dec_val m k > 1)"
| "ttl_gt_1 (JFloat PInf) = Inr True"
| "ttl_gt_1 (JFloat _) = Inr False"
| "ttl_gt_1 _ = Inl TypeErr"

fun ttl_minus_1 :: "json \<Rightarrow> json" where
  "ttl_minus_1 (JInt i) = JInt (i - 1)"
| "ttl_minus_1 (JFloat (Dec m k)) = JFloat (Dec (m - 10 ^ k) k)"
| "ttl_minus_1 j = j"

definition query_nodes :: "env \<Rightarrow> string \<Rightarrow> json \<Rightarrow> node \<Rightarrow> json list" where
  "query_nodes E a capability n =
     map (\<lambda>x. JObj [(''addr'', JStr x), (''node_id'', JStr (id_prefix x)),
                    (''caps'', JArr (ord_val E (fst (get_peer_caps x (routing n)))))])
       (filter (\<lambda>x. x \<noteq> a) (known_peers (routing n)))
     @ (if has_capability capability (tracker n)
        then [JObj [(''node_id'', JStr (take 12 (self_id n))), (''addr'', JStr a)]] else [])"

definition purge_seen :: "rat \<Rightarrow> (json \<times> rat) list \<Rightarrow> (json \<times> rat) list" where
  "purge_seen now seen = filter (\<lambda>kv. \<not> now - snd kv > seen_query_ttl) seen"

text \<open>
  The rest of \<open>_on_query\<close>, for a query taken up: answer the asker, or else pass the query on.
\<close>

definition answer_or_forward :: "env \<Rightarrow> string \<Rightarrow> pydict \<Rightarrow> node \<Rightarrow> node \<times> exn option" where
  "answer_or_forward E a msg n =
     (let capability = dget msg ''capability'' (JStr []);
          query_id = dget msg ''id'' (JStr []);
          ttl = dget msg ''ttl'' (JInt 5);
          origin = dget msg ''origin'' (JStr []);
          nodes = query_nodes E a capability n
      in if nodes \<noteq> [] then (try_send a (query_resp_msg query_id nodes) n, None)
         else (case ttl_gt_1 ttl of
                 Inl e \<Rightarrow> (n, Some e)
               | Inr False \<Rightarrow> (n, None)
               | Inr True \<Rightarrow>
                   (broadcast (query_msg capability query_id (ttl_minus_1 ttl)
                      (if py_truthy origin then origin else JStr (self_id n))) [a] n, None)))"

definition on_query :: "env \<Rightarrow> string \<Rightarrow> pydict \<Rightarrow> node \<Rightarrow> node \<times> exn option" where
  "on_query E a msg n =
     (let query_id = dget msg ''id'' (JStr []); origin = dget msg ''origin'' (JStr [])
      in if py_truthy origin \<and> origin = JStr (self_id n) then (n, None)
         else
           (let n1 = n\<lparr>seen_queries := purge_seen (wall E) (seen_queries n)\<rparr> in
            if \<not> hashable query_id then (n1, Some TypeErr)
            else if query_id \<in> set (dkeys (seen_queries n1)) then (n1, None)
            else answer_or_forward E a msg
                   (n1\<lparr>seen_queries := dset query_id (wall E) (seen_queries n1)\<rparr>)))"

text \<open>The key of a table of strings that a decoded value names.\<close>

definition str_key :: "json \<Rightarrow> exn + string option" where
  "str_key j = (if \<not> hashable j then Inl TypeErr
     else Inr (case j of JStr s \<Rightarrow> Some s | _ \<Rightarrow> None))"

definition lookup_key :: "(string \<times> 'v) list \<Rightarrow> json \<Rightarrow> exn + (string \<times> 'v) option" where
  "lookup_key d j = bindE (str_key j) (\<lambda>k. Inr (case k of
     None \<Rightarrow> None
   | Some s \<Rightarrow> (case map_of d s of None \<Rightarrow> None | Some v \<Rightarrow> Some (s, v))))"

definition on_query_resp :: "string \<Rightarrow> pydict \<Rightarrow> node \<Rightarrow> node \<times> exn option" where
  "on_query_resp a msg n =
     (case lookup_key (pending_queries n) (dget msg ''id'' (JStr [])) of
        Inl e \<Rightarrow> (n, Some e)
      | Inr None \<Rightarrow> (n, None)
      | Inr (Some (qid, (collected, ev))) \<Rightarrow>
          (let nodes = dget msg ''nodes'' (JArr []) in
           if \<not> py_truthy nodes then (n, None)
           else (case py_iter nodes of
                   Inl e \<Rightarrow> (n, Some e)
                 | Inr xs \<Rightarrow> (n\<lparr>pending_queries := dset qid (collected @ xs, True) (pending_queries n)\<rparr>, None))))"

definition on_interest_update :: "string \<Rightarrow> pydict \<Rightarrow> node \<Rightarrow> node \<times> exn option" where
  "on_interest_update a msg n =
     (let existing = fst (get_peer_caps a (routing n));
          caps = JObj [(''agents'', JArr (map (\<lambda>c. JObj [(''name'', c)]) existing)),
                       (''tools'', JArr []), (''models'', JArr [])]
      in case register_peer a caps (dget msg ''interests'' (JArr [])) (routing n) of
           (t, e) \<Rightarrow> (n\<lparr>routing := t\<rparr>, e))"

subsection \<open>Tasks\<close>

definition without_signature :: "pydict \<Rightarrow> pydict" where
  "without_signature msg = filter (\<lambda>kv. fst kv \<noteq> ''signature'') msg"

text \<open>What the signature check of \<open>_on_task\<close> decides: go on, reject, or an exception.\<close>

datatype sig_check = Sig_ok | Sig_bad

definition check_task_signature :: "env \<Rightarrow> pydict \<Rightarrow> node \<Rightarrow> node \<times> (exn + sig_check)" where
  "check_task_signature E msg n =
     (let caller_id = dget msg ''caller'' (JStr []); sig = dget msg ''signature'' JNull in
      if verify_peers n \<and> py_truthy sig \<and> py_truthy caller_id then
        (case get_caller_pubkey E caller_id n of
           (n1, Inl e) \<Rightarrow> (n1, Inl e)
         | (n1, Inr None) \<Rightarrow> (n1, Inr Sig_ok)
         | (n1, Inr (Some pk)) \<Rightarrow>
             (n1, Inr (if verify_signature (ed E) pk (without_signature msg) sig then Sig_ok else Sig_bad)))
      else (n, Inr Sig_ok))"

definition error_dict :: "string \<Rightarrow> string \<Rightarrow> json" where
  "error_dict code message = JObj [(''code'', JStr code), (''message'', JStr message)]"

definition incoming_task :: "env \<Rightarrow> pydict \<Rightarrow> task" where
  "incoming_task E msg =
     \<lparr>t_target = dget msg ''target'' (JStr []), t_caller = dget msg ''caller'' (JStr []),
      t_capability = dget msg ''capability'' (JStr []), t_payload = dget msg ''payload'' (JObj []),
      t_id = dget msg ''id'' (JStr []), t_protocol = JStr ''elo.v1'', t_type = JStr ''task'',
      t_timestamp = JInt \<lfloor>wall E\<rfloor>, t_ttl_s = dget msg ''ttl_s'' (JInt 60),
      t_signature = dget msg ''signature'' (JStr [])\<rparr>"

text \<open>\<open>int(x)\<close> cuts towards zero.\<close>

definition py_trunc :: "rat \<Rightarrow> int" where
  "py_trunc x = (if x < 0 then \<lceil>x\<rceil> else \<lfloor>x\<rfloor>)"

definition health_payload :: "env \<Rightarrow> node \<Rightarrow> json" where
  "health_payload E n = JObj [(''node_id'', JStr (self_id n)), (''peers_count'', JInt (int (peer_count n))),
     (''uptime_seconds'', JInt (py_trunc (wall E - started_at n))),
     (''last_heartbeat'', JInt (py_trunc (last_heartbeat_received n))), (''version'', JStr (nversion n))]"

definition run_task :: "env \<Rightarrow> pydict \<Rightarrow> node \<Rightarrow> exn + json" where
  "run_task E msg n =
     (if dget msg ''capability'' (JStr []) = JStr ''health'' then Inr (health_payload E n)
      else (case task_handler n of
              Some f \<Rightarrow> f (incoming_task E msg)
            | None \<Rightarrow> Inr (JObj [(''message'', JStr ''no handler registered'')])))"

text \<open>The slice \<open>caller_id[:12]\<close> in the log line raises on a value that is not a sequence.\<close>

fun sliceable :: "json \<Rightarrow> bool" where
  "sliceable (JStr _) = True"
| "sliceable (JArr _) = True"
| "sliceable _ = False"

definition signed_result :: "env \<Rightarrow> json \<Rightarrow> json \<Rightarrow> node \<Rightarrow> pydict" where
  "signed_result E task_id payload n =
     (let r = result_msg task_id ''success'' (if payload = JNull then None else Some payload) None []
      in dset ''signature'' (JStr (identity_sign (ed E) (ident n) (without_signature r))) r)"

definition task_body :: "env \<Rightarrow> string \<Rightarrow> pydict \<Rightarrow> node \<Rightarrow> node \<times> exn option" where
  "task_body E a msg n =
     (let task_id = dget msg ''id'' (JStr []); caller_id = dget msg ''caller'' (JStr []) in
      case check_task_signature E msg n of
        (n1, Inl e) \<Rightarrow> (n1, Some e)
      | (n1, Inr Sig_bad) \<Rightarrow>
          send_to a (result_msg task_id ''error'' None (Some (error_dict ''BAD_SIGNATURE'' ''Invalid signature'')) []) n1
      | (n1, Inr Sig_ok) \<Rightarrow>
          if py_truthy caller_id \<and> \<not> sliceable caller_id then (n1, Some TypeErr)
          else (case run_task E msg n1 of
                  Inl e \<Rightarrow> (n1, Some e)
                | Inr payload \<Rightarrow> send_to a (signed_result E task_id payload n1) n1))"

definition on_task :: "env \<Rightarrow> string \<Rightarrow> pydict \<Rightarrow> node \<Rightarrow> node" where
  "on_task E a msg n =
     (case task_body E a msg n of
        (n1, None) \<Rightarrow> n1
      | (n1, Some e) \<Rightarrow>
          try_send a (result_msg (dget msg ''id'' (JStr ''unknown'')) ''error'' None
            (Some (error_dict ''INTERNAL'' (exn_text E e))) []) n1)"

subsection \<open>Results\<close>

definition check_result_signature :: "env \<Rightarrow> string \<Rightarrow> pydict \<Rightarrow> node \<Rightarrow> node \<times> (exn + sig_check)" where
  "check_result_signature E a msg n =
     (let sig = dget msg ''signature'' JNull; peer_node_id = id_prefix a in
      if verify_peers n \<and> py_truthy sig \<and> peer_node_id \<noteq> [] then
        (case get_caller_pubkey E (JStr peer_node_id) n of
           (n1, Inl e) \<Rightarrow> (n1, Inl e)
         | (n1, Inr None) \<Rightarrow> (n1, Inr Sig_ok)
         | (n1, Inr (Some pk)) \<Rightarrow>
             (n1, Inr (if verify_signature (ed E) pk (without_signature msg) sig then Sig_ok else Sig_bad)))
      else (n, Inr Sig_ok))"

definition result_of_msg :: "pydict \<Rightarrow> exn + result" where
  "result_of_msg msg =
     (let task_id = dget msg ''id'' (JStr []); err = dget msg ''error'' JNull in
      if dget msg ''status'' (JStr ''error'') = JStr ''success''
      then Inr (result_success task_id (dget msg ''payload'' (JObj [])))
      else if py_truthy err then
        bindE (py_get err ''code'' (JStr ''UNKNOWN'')) (\<lambda>code.
        bindE (py_get err ''message'' (JStr [])) (\<lambda>m. Inr (make_error task_id code m)))
      else Inr (make_error task_id (JStr ''UNKNOWN'') (JStr [])))"

definition on_result :: "env \<Rightarrow> string \<Rightarrow> pydict \<Rightarrow> node \<Rightarrow> node \<times> exn option" where
  "on_result E a msg n =
     (case check_result_signature E a msg n of
        (n1, Inl e) \<Rightarrow> (n1, Some e)
      | (n1, Inr Sig_bad) \<Rightarrow> (n1, None)
      | (n1, Inr Sig_ok) \<Rightarrow>
          (case lookup_key (pending_results n1) (dget msg ''id'' (JStr [])) of
             Inl e \<Rightarrow> (n1, Some e)
           | Inr (Some (tid, None)) \<Rightarrow>
               (case result_of_msg msg of
                  Inl e \<Rightarrow> (n1, Some e)
                | Inr r \<Rightarrow> (n1\<lparr>pending_results := dset tid (Some r) (pending_results n1)\<rparr>, None))
           | Inr _ \<Rightarrow> (n1, None)))"

definition on_bye :: "string \<Rightarrow> node \<Rightarrow> node" where
  "on_bye a n =
     (let n1 = n\<lparr>routing := remove_peer a (routing n)\<rparr> in
      if is_outbound_target a n1 then spawn (Reconnect (raw_address a)) n1 else n1)"

section \<open>The dispatcher\<close>

definition dispatch :: "env \<Rightarrow> json \<Rightarrow> string \<Rightarrow> pydict \<Rightarrow> node \<Rightarrow> node \<times> exn option" where
  "dispatch E ty a msg n =
     (if ty = JStr (mt HELLO) then on_hello E a msg n
      else if ty = JStr (mt HELLO_ACK) then on_hello_ack E a msg n
      else if ty = JStr (mt QUERY) then on_query E a msg n
      else if ty = JStr (mt QUERY_RESP) then on_query_resp a msg n
      else if ty = JStr (mt INTEREST_UPDATE) then on_interest_update a msg n
      else if ty = JStr (mt TASK) then (on_task E a msg n, None)
      else if ty = JStr (mt RESULT) then on_result E a msg n
      else if ty = JStr (mt HEARTBEAT) then (n\<lparr>last_heartbeat_received := wall E\<rparr>, None)
      else (n, None))"

text \<open>The counter of messages in the current window of a peer, this message included.\<close>

definition bump_count :: "rat \<Rightarrow> string \<Rightarrow> (string \<times> (nat \<times> rat)) list \<Rightarrow> nat \<times> rat" where
  "bump_count now a mc =
     (case dget mc a (0, now) of (c, w) \<Rightarrow>
        (case (if now - w > 60 then (0, now) else (c, w)) of (c', w') \<Rightarrow> (c' + 1, w')))"

definition handle_message :: "env \<Rightarrow> string \<Rightarrow> json \<Rightarrow> node \<Rightarrow> node \<times> exn option" where
  "handle_message E a j n =
     (case j of
        JObj msg \<Rightarrow>
          (let ty = dget msg ''type'' (JStr []); now = mono E in
           if ty = JStr (mt HELLO) \<and> now - dget (hello_count n) a 0 < 60 then (n, None)
           else
             (let n1 = (if ty = JStr (mt HELLO) then n\<lparr>hello_count := dset a now (hello_count n)\<rparr> else n);
                  cw = bump_count now a (msg_count n1);
                  n2 = n1\<lparr>msg_count := dset a cw (msg_count n1)\<rparr>
              in if ty = JStr (mt BYE) then (on_bye a n2, None)
                 else if fst cw > 100 then (n2, None)
                 else dispatch E ty a msg n2))
      | _ \<Rightarrow> (n, Some AttributeErr))"

section \<open>What the handlers leave alone\<close>

declare mt.simps [simp del]

named_theorems keeps_intros \<open>steps that leave the table of peers to the manager\<close>

text \<open>Fields of the node are written outside the manager's part of the record.\<close>

lemma keeps_fields [keeps_intros]:
  "keeps_table r n \<Longrightarrow> keeps_table r (n\<lparr>routing := t\<rparr>)"
  "keeps_table r n \<Longrightarrow> keeps_table r (n\<lparr>last_peers := l\<rparr>)"
  "keeps_table r n \<Longrightarrow> keeps_table r (n\<lparr>seen_queries := q\<rparr>)"
  "keeps_table r n \<Longrightarrow> keeps_table r (n\<lparr>pubkey_cache := p\<rparr>)"
  "keeps_table r n \<Longrightarrow> keeps_table r (n\<lparr>pending_queries := pq\<rparr>)"
  "keeps_table r n \<Longrightarrow> keeps_table r (n\<lparr>pending_results := pr\<rparr>)"
  "keeps_table r n \<Longrightarrow> keeps_table r (n\<lparr>msg_count := mc\<rparr>)"
  "keeps_table r n \<Longrightarrow> keeps_table r (n\<lparr>hello_count := hc\<rparr>)"
  "keeps_table r n \<Longrightarrow> keeps_table r (n\<lparr>last_heartbeat_received := hb\<rparr>)"
  by (simp_all add: keeps_table_def)

lemma keeps_steps [keeps_intros]:
  "keeps_table r n \<Longrightarrow> keeps_table r (fst (send_to a m n))"
  "keeps_table r n \<Longrightarrow> keeps_table r (try_send a m n)"
  "keeps_table r n \<Longrightarrow> keeps_table r (broadcast m ex n)"
  "keeps_table r n \<Longrightarrow> keeps_table r (spawn j n)"
  unfolding try_send_def by (erule keeps_table_trans; blast)+

lemma keeps_send_to_eq [keeps_intros]:
  fixes n :: node
  shows "send_to a m n = (n', e) \<Longrightarrow> keeps_table r n \<Longrightarrow> keeps_table r n'"
  using keeps_steps(1) [of r n a m] by simp

lemma keeps_remember [keeps_intros]: "keeps_table r n \<Longrightarrow> keeps_table r (remember_peer a n)"
  by (auto simp: remember_peer_def Let_def intro: keeps_intros)

lemma keeps_hello: "keeps_table r n \<Longrightarrow> keeps_table r (fst (on_hello E a msg n))"
  by (auto simp: on_hello_def Let_def intro!: keeps_intros split: prod.splits option.splits sum.splits)

lemma keeps_spawn_known: "keeps_table r n \<Longrightarrow> keeps_table r (fst (spawn_known a hello ps n))"
proof (induction ps arbitrary: n)
  case (Cons p ps)
  have "keeps_table r (spawn j n)" for j using Cons.prems by (rule keeps_intros)
  then show ?case
    using Cons by (auto split: sum.splits json.splits)
qed simp

lemma keeps_hello_ack: "keeps_table r n \<Longrightarrow> keeps_table r (fst (on_hello_ack E a msg n))"
  using keeps_hello [of r n E a msg]
  by (auto simp: on_hello_ack_def Let_def intro: keeps_spawn_known split: prod.splits option.splits sum.splits)

lemma keeps_answer: "keeps_table r n \<Longrightarrow> keeps_table r (fst (answer_or_forward E a msg n))"
  by (auto simp: answer_or_forward_def Let_def intro!: keeps_intros split: sum.splits bool.splits)

lemma keeps_query: "keeps_table r n \<Longrightarrow> keeps_table r (fst (on_query E a msg n))"
  by (auto simp: on_query_def Let_def intro!: keeps_answer keeps_intros)

lemma keeps_query_resp: "keeps_table r n \<Longrightarrow> keeps_table r (fst (on_query_resp a msg n))"
  by (auto simp: on_query_resp_def Let_def intro!: keeps_intros split: sum.splits option.splits prod.splits)

lemma keeps_interest: "keeps_table r n \<Longrightarrow> keeps_table r (fst (on_interest_update a msg n))"
  by (auto simp: on_interest_update_def Let_def intro!: keeps_intros split: prod.splits)

lemma keeps_pubkey: "keeps_table r n \<Longrightarrow> keeps_table r (fst (get_caller_pubkey E nid n))"
  by (auto simp: get_caller_pubkey_def Let_def intro!: keeps_intros split: option.splits prod.splits sum.splits)

lemma keeps_task_sig: "keeps_table r n \<Longrightarrow> keeps_table r (fst (check_task_signature E msg n))"
  using keeps_pubkey [of r n E "dget msg ''caller'' (JStr [])"]
  by (auto simp: check_task_signature_def Let_def split: prod.splits sum.splits option.splits)

lemma keeps_result_sig: "keeps_table r n \<Longrightarrow> keeps_table r (fst (check_result_signature E a msg n))"
  using keeps_pubkey [of r n E "JStr (id_prefix a)"]
  by (auto simp: check_result_signature_def Let_def split: prod.splits sum.splits option.splits)

lemma keeps_task_body:
  assumes "keeps_table r n"
  shows "keeps_table r (fst (task_body E a msg n))"
proof -
  obtain n1 res where c: "check_task_signature E msg n = (n1, res)" by fastforce
  have k: "keeps_table r n1" using keeps_task_sig [OF assms, of E msg] c by simp
  show ?thesis
  proof (cases res)
    case (Inr s)
    then show ?thesis
      using c keeps_steps(1) [OF k] k
      by (cases s) (auto simp: task_body_def Let_def split: sum.split)
  qed (use c k in \<open>simp add: task_body_def Let_def\<close>)
qed

lemma keeps_task:
  assumes "keeps_table r n"
  shows "keeps_table r (on_task E a msg n)"
proof -
  obtain n1 e where "task_body E a msg n = (n1, e)" by fastforce
  then show ?thesis
    using keeps_task_body [OF assms, of E a msg] keeps_steps(2) [of r n1 a]
    by (cases e) (auto simp: on_task_def)
qed

lemma keeps_result:
  assumes "keeps_table r n"
  shows "keeps_table r (fst (on_result E a msg n))"
proof -
  obtain n1 res where c: "check_result_signature E a msg n = (n1, res)" by fastforce
  have k: "keeps_table r n1" using keeps_result_sig [OF assms, of E a msg] c by simp
  show ?thesis
  proof (cases res)
    case (Inr s)
    then show ?thesis
      using c k keeps_fields(6) [OF k]
      by (cases s) (auto simp: on_result_def split: sum.split option.split)
  qed (use c k in \<open>simp add: on_result_def\<close>)
qed

lemma keeps_bye: "keeps_table r n \<Longrightarrow> keeps_table r (on_bye a n)"
  by (auto simp: on_bye_def Let_def intro!: keeps_intros)

lemma keeps_dispatch: "keeps_table r n \<Longrightarrow> keeps_table r (fst (dispatch E ty a msg n))"
  by (auto simp: dispatch_def intro!: keeps_hello keeps_hello_ack keeps_query keeps_query_resp keeps_interest
      keeps_task keeps_result keeps_intros)

text \<open>The node after the counters of the rate limits are updated.\<close>

definition count_message :: "rat \<Rightarrow> string \<Rightarrow> json \<Rightarrow> node \<Rightarrow> node" where
  "count_message now a ty n =
     (let n1 = (if ty = JStr (mt HELLO) then n\<lparr>hello_count := dset a now (hello_count n)\<rparr> else n)
      in n1\<lparr>msg_count := dset a (bump_count now a (msg_count n1)) (msg_count n1)\<rparr>)"

definition hello_flood :: "rat \<Rightarrow> string \<Rightarrow> json \<Rightarrow> node \<Rightarrow> bool" where
  "hello_flood now a ty n \<longleftrightarrow> ty = JStr (mt HELLO) \<and> now - dget (hello_count n) a 0 < 60"

lemma handle_message_JObj:
  "handle_message E a (JObj msg) n =
     (let ty = dget msg ''type'' (JStr []) in
      if hello_flood (mono E) a ty n then (n, None)
      else if ty = JStr (mt BYE) then (on_bye a (count_message (mono E) a ty n), None)
      else if fst (bump_count (mono E) a (msg_count n)) > 100 then (count_message (mono E) a ty n, None)
      else dispatch E ty a msg (count_message (mono E) a ty n))"
proof -
  have hc: "msg_count (n\<lparr>hello_count := d\<rparr>) = msg_count n" for d
    by simp
  show ?thesis
    unfolding handle_message_def hello_flood_def count_message_def Let_def json.case
    by (cases "dget msg ''type'' (JStr []) = JStr (mt HELLO)") (simp_all only: simp_thms if_True if_False hc)
qed

lemma keeps_count: "keeps_table n (count_message now a ty n)"
  by (simp add: count_message_def Let_def keeps_table_def)

lemma keeps_handle: "keeps_table n (fst (handle_message E a j n))"
proof (cases j)
  case (JObj msg)
  have "keeps_table n (fst (dispatch E ty a msg (count_message now a ty n)))"
    "keeps_table n (on_bye a (count_message now a ty n))" for now ty
    by (rule keeps_dispatch keeps_bye, rule keeps_count)+
  then show ?thesis
    by (simp add: JObj handle_message_JObj Let_def keeps_count)
qed (simp_all add: handle_message_def)

lemma bye_notice_ok: "snd (handle_message E a bye_notice n) = None"
  by (simp add: handle_message_def bye_notice_def dget_def Let_def)

text \<open>The node's dispatcher is a handler in the manager's sense, and takes lost connections quietly.\<close>

interpretation node_handler: msg_handler "handle_message E" for E
  by unfold_locales (rule keeps_handle)

interpretation node_quiet: quiet_handler "handle_message E" for E
  by unfold_locales (rule bye_notice_ok)

section \<open>What sending leaves of the node\<close>

lemma same_more:
  fixes n n' :: node
  assumes "tcp.more n' = tcp.more n"
  shows "routing n' = routing n"
    "tracker n' = tracker n"
    "msg_count n' = msg_count n"
    "hello_count n' = hello_count n"
    "seen_queries n' = seen_queries n"
    "pending_queries n' = pending_queries n"
    "pending_results n' = pending_results n"
    "pubkey_cache n' = pubkey_cache n"
    "task_handler n' = task_handler n"
    "verify_peers n' = verify_peers n"
    "ident n' = ident n"
    "pending_queue n' = pending_queue n"
    "tracker_host n' = tracker_host n"
    "initial_peers n' = initial_peers n"
    "reconnect_backoff n' = reconnect_backoff n"
    "reconnecting_peers n' = reconnecting_peers n"
    "shutdown_event n' = shutdown_event n"
    "cache_ttl_s n' = cache_ttl_s n"
    "last_peers n' = last_peers n"
    "discovery n' = discovery n"
  using assms by (cases n; cases n'; simp)+

lemmas node_send_to [simp] = same_more [OF more_send_to]
lemmas node_broadcast [simp] = same_more [OF more_broadcast]
lemmas node_spawn [simp] = same_more [OF more_spawn]

lemma more_try_send [simp]: "tcp.more (try_send a m n) = tcp.more n"
  by (simp add: try_send_def)

lemmas node_try_send [simp] = same_more [OF more_try_send]

section \<open>What each handler writes\<close>

text \<open>The counters of the rate limits belong to the dispatcher: no handler touches them.\<close>

lemma remember_peer_more [simp]:
  "hello_count (remember_peer a n) = hello_count n" "msg_count (remember_peer a n) = msg_count n" "seen_queries (remember_peer a n) = seen_queries n"
  "routing (remember_peer a n) = routing n" "pending_results (remember_peer a n) = pending_results n"
  "pubkey_cache (remember_peer a n) = pubkey_cache n" "tracker (remember_peer a n) = tracker n"
  "peers (remember_peer a n) = peers n" "conns (remember_peer a n) = conns n" "jobs (remember_peer a n) = jobs n"
  "pending_queries (remember_peer a n) = pending_queries n"
  by (simp_all add: remember_peer_def Let_def)

lemma on_hello_keeps [simp]:
  "hello_count (fst (on_hello E a msg n)) = hello_count n" "msg_count (fst (on_hello E a msg n)) = msg_count n"
  "seen_queries (fst (on_hello E a msg n)) = seen_queries n"
  "pending_results (fst (on_hello E a msg n)) = pending_results n"
  "pubkey_cache (fst (on_hello E a msg n)) = pubkey_cache n"
  by (auto simp: on_hello_def Let_def split: prod.splits option.splits sum.splits)

lemma spawn_known_more [simp]: "tcp.more (fst (spawn_known a hello ps n)) = tcp.more n"
  by (induction ps arbitrary: n) (auto split: sum.split json.split)

lemmas spawn_known_keeps [simp] = same_more [OF spawn_known_more]

lemma more_hello_ack: "tcp.more (fst (on_hello_ack E a msg n)) = tcp.more (fst (on_hello E a msg n))"
proof -
  obtain n1 e where c: "on_hello E a msg n = (n1, e)" by fastforce
  show ?thesis
    by (simp add: on_hello_ack_def c Let_def split: option.split sum.split)
qed

lemmas on_hello_ack_fields = same_more [OF more_hello_ack]

lemma on_hello_ack_keeps [simp]:
  "hello_count (fst (on_hello_ack E a msg n)) = hello_count n"
  "msg_count (fst (on_hello_ack E a msg n)) = msg_count n"
  "seen_queries (fst (on_hello_ack E a msg n)) = seen_queries n"
  "pending_results (fst (on_hello_ack E a msg n)) = pending_results n"
  "pubkey_cache (fst (on_hello_ack E a msg n)) = pubkey_cache n"
  by (simp_all add: on_hello_ack_fields)

lemma more_answer [simp]: "tcp.more (fst (answer_or_forward E a msg n)) = tcp.more n"
  by (simp add: answer_or_forward_def Let_def split: sum.split bool.split)

lemmas answer_fields [simp] = same_more [OF more_answer]

lemma on_query_keeps [simp]:
  "hello_count (fst (on_query E a msg n)) = hello_count n" "msg_count (fst (on_query E a msg n)) = msg_count n"
  "pending_results (fst (on_query E a msg n)) = pending_results n"
  "pubkey_cache (fst (on_query E a msg n)) = pubkey_cache n"
  "routing (fst (on_query E a msg n)) = routing n"
  by (simp_all add: on_query_def Let_def)

lemma on_query_resp_keeps [simp]:
  "hello_count (fst (on_query_resp a msg n)) = hello_count n" "msg_count (fst (on_query_resp a msg n)) = msg_count n"
  "seen_queries (fst (on_query_resp a msg n)) = seen_queries n"
  "pending_results (fst (on_query_resp a msg n)) = pending_results n"
  "pubkey_cache (fst (on_query_resp a msg n)) = pubkey_cache n"
  "routing (fst (on_query_resp a msg n)) = routing n"
  by (auto simp: on_query_resp_def Let_def split: sum.split option.split prod.split)

lemma on_interest_keeps [simp]:
  "hello_count (fst (on_interest_update a msg n)) = hello_count n" "msg_count (fst (on_interest_update a msg n)) = msg_count n"
  "seen_queries (fst (on_interest_update a msg n)) = seen_queries n"
  "pending_results (fst (on_interest_update a msg n)) = pending_results n"
  "pubkey_cache (fst (on_interest_update a msg n)) = pubkey_cache n"
  by (auto simp: on_interest_update_def Let_def split: prod.split)

lemma pubkey_keeps [simp]:
  "hello_count (fst (get_caller_pubkey E nid n)) = hello_count n" "msg_count (fst (get_caller_pubkey E nid n)) = msg_count n"
  "seen_queries (fst (get_caller_pubkey E nid n)) = seen_queries n"
  "pending_results (fst (get_caller_pubkey E nid n)) = pending_results n"
  "routing (fst (get_caller_pubkey E nid n)) = routing n"
  "peers (fst (get_caller_pubkey E nid n)) = peers n"
  "conns (fst (get_caller_pubkey E nid n)) = conns n"
  "task_handler (fst (get_caller_pubkey E nid n)) = task_handler n"
  "pending_queue (fst (get_caller_pubkey E nid n)) = pending_queue n"
  by (auto simp: get_caller_pubkey_def Let_def split: option.split prod.split sum.split)

lemma fst_task_sig [simp]:
  "fst (check_task_signature E msg n) =
     (if verify_peers n \<and> py_truthy (dget msg ''signature'' JNull) \<and> py_truthy (dget msg ''caller'' (JStr []))
      then fst (get_caller_pubkey E (dget msg ''caller'' (JStr [])) n) else n)"
  by (simp add: check_task_signature_def Let_def split: prod.split sum.split option.split)

lemma fst_result_sig [simp]:
  "fst (check_result_signature E a msg n) =
     (if verify_peers n \<and> py_truthy (dget msg ''signature'' JNull) \<and> id_prefix a \<noteq> []
      then fst (get_caller_pubkey E (JStr (id_prefix a)) n) else n)"
  by (simp add: check_result_signature_def Let_def split: prod.split sum.split option.split)

lemma more_task_body: "tcp.more (fst (task_body E a msg n)) = tcp.more (fst (check_task_signature E msg n))"
proof -
  obtain n1 res where c: "check_task_signature E msg n = (n1, res)" by fastforce
  show ?thesis
    unfolding task_body_def Let_def c by (simp split: sum.split sig_check.split)
qed

lemma more_on_task: "tcp.more (on_task E a msg n) = tcp.more (fst (check_task_signature E msg n))"
proof -
  obtain n1 e where c: "task_body E a msg n = (n1, e)" by fastforce
  have "tcp.more (on_task E a msg n) = tcp.more n1"
    unfolding on_task_def c by (simp split: option.split)
  then show ?thesis using more_task_body [of E a msg n] c by (simp only: fst_conv)
qed

lemmas on_task_fields = same_more [OF more_on_task]

lemma on_task_keeps [simp]:
  "hello_count (on_task E a msg n) = hello_count n" "msg_count (on_task E a msg n) = msg_count n"
  "seen_queries (on_task E a msg n) = seen_queries n"
  "pending_results (on_task E a msg n) = pending_results n"
  "routing (on_task E a msg n) = routing n"
  by (simp_all add: on_task_fields)

lemma on_bye_keeps [simp]:
  "hello_count (on_bye a n) = hello_count n" "msg_count (on_bye a n) = msg_count n"
  "seen_queries (on_bye a n) = seen_queries n" "pending_results (on_bye a n) = pending_results n"
  "pubkey_cache (on_bye a n) = pubkey_cache n" "routing (on_bye a n) = remove_peer a (routing n)"
  by (simp_all add: on_bye_def Let_def)

lemma on_result_eq:
  "on_result E a msg n =
     (case check_result_signature E a msg n of
        (n1, Inr Sig_ok) \<Rightarrow>
          (case lookup_key (pending_results n) (dget msg ''id'' (JStr [])) of
             Inl e \<Rightarrow> (n1, Some e)
           | Inr (Some (tid, None)) \<Rightarrow>
               (case result_of_msg msg of
                  Inl e \<Rightarrow> (n1, Some e)
                | Inr r \<Rightarrow> (n1\<lparr>pending_results := dset tid (Some r) (pending_results n)\<rparr>, None))
           | Inr _ \<Rightarrow> (n1, None))
      | (n1, Inr Sig_bad) \<Rightarrow> (n1, None)
      | (n1, Inl e) \<Rightarrow> (n1, Some e))"
proof -
  obtain n1 res where c: "check_result_signature E a msg n = (n1, res)" by fastforce
  moreover have "pending_results (fst (check_result_signature E a msg n)) = pending_results n" by simp
  ultimately have "pending_results n1 = pending_results n" by (simp only: fst_conv)
  then show ?thesis
    by (simp add: on_result_def c split: sum.split sig_check.split option.split prod.split)
qed

lemma on_result_keeps [simp]:
  "hello_count (fst (on_result E a msg n)) = hello_count n" "msg_count (fst (on_result E a msg n)) = msg_count n"
  "seen_queries (fst (on_result E a msg n)) = seen_queries n"
  "routing (fst (on_result E a msg n)) = routing n"
  "conns (fst (on_result E a msg n)) = conns n"
proof -
  obtain n1 res where c: "check_result_signature E a msg n = (n1, res)" by fastforce
  then have n1: "n1 = fst (check_result_signature E a msg n)" by simp
  have "hello_count n1 = hello_count n" "msg_count n1 = msg_count n" "seen_queries n1 = seen_queries n"
    "routing n1 = routing n" "conns n1 = conns n"
    by (simp_all add: n1)
  then show "hello_count (fst (on_result E a msg n)) = hello_count n"
    "msg_count (fst (on_result E a msg n)) = msg_count n"
    "seen_queries (fst (on_result E a msg n)) = seen_queries n"
    "routing (fst (on_result E a msg n)) = routing n"
    "conns (fst (on_result E a msg n)) = conns n"
    by (simp_all add: on_result_def c split: sum.split sig_check.split option.split prod.split)
qed

lemma dispatch_keeps [simp]:
  "hello_count (fst (dispatch E ty a msg n)) = hello_count n"
  "msg_count (fst (dispatch E ty a msg n)) = msg_count n"
  by (simp_all add: dispatch_def)

lemma count_message_keeps [simp]:
  "seen_queries (count_message now a ty n) = seen_queries n" "routing (count_message now a ty n) = routing n"
  "pending_results (count_message now a ty n) = pending_results n"
  "pubkey_cache (count_message now a ty n) = pubkey_cache n"
  "conns (count_message now a ty n) = conns n" "peers (count_message now a ty n) = peers n"
  "pending_queue (count_message now a ty n) = pending_queue n"
  "msg_count (count_message now a ty n) = dset a (bump_count now a (msg_count n)) (msg_count n)"
  "hello_count (count_message now a ty n) = (if ty = JStr (mt HELLO) then dset a now (hello_count n) else hello_count n)"
  by (simp_all add: count_message_def Let_def)

section \<open>A concrete node\<close>

definition demo_env :: env where
  "demo_env = \<lparr>ed = toy_ed, ord_addr = (\<lambda>xs. xs), ord_val = (\<lambda>xs. xs), mono = 100, wall = 100,
     queue_io = Io_ok, exn_text = (\<lambda>_. ''e''), repr_text = (\<lambda>_. ''r''), multicast = True\<rparr>"

definition demo_node :: node where
  "demo_node = (init_node toy_ed ''demo'' 7878 [] ''public'' [] ''0.5.1'' (identity_of toy_ed []) True 30 [] 0 None None)
     \<lparr>started := True, listening := True, has_handler := True, conns := [0 \<mapsto> new_conn ''h:1'' 0],
      peers := [(''abc@h:1'', 0)]\<rparr>"

lemma demo_env [simp]:
  "ed demo_env = toy_ed" "ord_addr demo_env xs = xs" "ord_val demo_env ys = ys" "mono demo_env = 100"
  "wall demo_env = 100" "queue_io demo_env = Io_ok" "exn_text demo_env x = ''e''" "multicast demo_env"
  by (simp_all add: demo_env_def)

lemma demo_node [simp]:
  "self_id demo_node = node_id_of toy_ed (identity_of toy_ed [])" "ident demo_node = identity_of toy_ed []"
  "tcp_port demo_node = 7878" "started demo_node" "has_handler demo_node"
  "conns demo_node = [0 \<mapsto> new_conn ''h:1'' 0]" "peers demo_node = [(''abc@h:1'', 0)]"
  "jobs demo_node = []" "verify_peers demo_node" "routing demo_node = empty_table"
  "tracker demo_node = new_tracker ''public''" "task_handler demo_node = None" "pubkey_cache demo_node = []"
  "hello_count demo_node = []" "msg_count demo_node = []" "seen_queries demo_node = []"
  "pending_results demo_node = []" "pending_queries demo_node = []" "pending_queue demo_node = None"
  "flushing_pending demo_node = False" "shutdown_event demo_node = False" "reconnecting_peers demo_node = []"
  "reconnect_backoff demo_node = []" "tracker_host demo_node = []" "initial_peers demo_node = []" "discovery demo_node = None"
  by (simp_all add: demo_node_def init_node_def Let_def)

lemma demo_id [simp]: "length (node_id_of toy_ed (identity_of toy_ed sk)) = 43"
  "node_id_of toy_ed (identity_of toy_ed sk) \<noteq> []" "[] \<noteq> node_id_of toy_ed (identity_of toy_ed sk)"
  using node_id_length [OF toy_ed_ok, of sk] by auto

lemma demo_node_inv: "tcp_inv demo_node" "one_per_id demo_node"
  by (auto simp: tcp_inv_def one_per_id_def key_id_def first_field_def)

end
