(* ===== verification/Node_Props.thy ===== *)
theory Node_Props
  imports Node
begin

text \<open>
  What the protocol handlers of a node guarantee, over single messages and over sequences of
  messages in any order: the rate limits, the handling of queries, tasks and results, the
  handshake, and the invariants of the table of peers under the node's own dispatcher.
\<close>

section \<open>Sequences of messages\<close>

definition handle_all :: "(env \<times> string \<times> json) list \<Rightarrow> node \<Rightarrow> node" where
  "handle_all evs n = foldl (\<lambda>n (E, a, j). fst (handle_message E a j n)) n evs"

lemma handle_all_Nil [simp]: "handle_all [] n = n"
  by (simp add: handle_all_def)

lemma handle_all_Cons [simp]: "handle_all ((E, a, j) # evs) n = handle_all evs (fst (handle_message E a j n))"
  by (simp add: handle_all_def)

lemma handle_all_keeps:
  assumes "P n" "\<And>E b j n. (E, b, j) \<in> set evs \<Longrightarrow> P n \<Longrightarrow> P (fst (handle_message E b j n))"
  shows "P (handle_all evs n)"
  using assms
proof (induction evs arbitrary: n)
  case (Cons e evs)
  obtain E b j where "e = (E, b, j)" by (cases e)
  then show ?case using Cons by simp
qed simp

text \<open>What one message does to the counters.\<close>

definition msg_type :: "json \<Rightarrow> json" where
  "msg_type j = (case j of JObj msg \<Rightarrow> dget msg ''type'' (JStr []) | _ \<Rightarrow> JNull)"

lemma hello_count_step:
  "hello_count (fst (handle_message E b j n)) =
     (if msg_type j = JStr (mt HELLO) \<and> \<not> hello_flood (mono E) b (msg_type j) n
      then dset b (mono E) (hello_count n) else hello_count n)"
  by (cases j) (simp_all add: msg_type_def handle_message_JObj Let_def, simp_all add: handle_message_def hello_flood_def)

lemma msg_count_step:
  "msg_count (fst (handle_message E b (JObj msg) n)) =
     (if hello_flood (mono E) b (dget msg ''type'' (JStr [])) n then msg_count n
      else dset b (bump_count (mono E) b (msg_count n)) (msg_count n))"
  by (simp add: handle_message_JObj Let_def)

text \<open>
  C28: one HELLO a minute. Once a HELLO of a peer has been accepted, every HELLO that comes
  from the same address within the next 60 seconds changes nothing at all, whatever other
  messages the node handles in between.
\<close>

theorem hello_rate_limit:
  assumes "dget m0 ''type'' (JStr []) = JStr (mt HELLO)" "\<not> hello_flood (mono E0) a (JStr (mt HELLO)) n0"
    and "\<forall>(E, b, j) \<in> set evs. mono E < mono E0 + 60"
    and "dget msg ''type'' (JStr []) = JStr (mt HELLO)" "mono E < mono E0 + 60"
  shows "handle_message E a (JObj msg) (handle_all ((E0, a, JObj m0) # evs) n0) =
    (handle_all ((E0, a, JObj m0) # evs) n0, None)"
proof -
  define n1 where "n1 = fst (handle_message E0 a (JObj m0) n0)"
  have "map_of (hello_count n1) a = Some (mono E0)"
    using assms(1,2) by (simp add: n1_def hello_count_step msg_type_def)
  then have "map_of (hello_count (handle_all evs n1)) a = Some (mono E0)"
  proof (rule handle_all_keeps [where P = "\<lambda>n. map_of (hello_count n) a = Some (mono E0)"])
    fix E' b j and n :: node
    assume e: "(E', b, j) \<in> set evs" and t: "map_of (hello_count n) a = Some (mono E0)"
    have "mono E' < mono E0 + 60" using assms(3) e by auto
    then have "hello_flood (mono E') a (msg_type j) n" if "msg_type j = JStr (mt HELLO)"
      using t that by (simp add: hello_flood_def dget_def)
    then show "map_of (hello_count (fst (handle_message E' b j n))) a = Some (mono E0)"
      using t by (auto simp: hello_count_step)
  qed
  then have "hello_flood (mono E) a (JStr (mt HELLO)) (handle_all evs n1)"
    using assms(5) by (simp add: hello_flood_def dget_def)
  then show ?thesis
    using assms(4) by (simp add: handle_message_JObj n1_def)
qed

theorem hello_rate_limit_witness:
  "handle_message demo_env ''x@h:9'' (JObj [(''type'', JStr (mt HELLO))])
     (fst (handle_message demo_env ''x@h:9'' (JObj [(''type'', JStr (mt HELLO))]) demo_node)) =
   (fst (handle_message demo_env ''x@h:9'' (JObj [(''type'', JStr (mt HELLO))]) demo_node), None)"
  using hello_rate_limit [of "[(''type'', JStr (mt HELLO))]" demo_env "''x@h:9''" demo_node "[]"
      "[(''type'', JStr (mt HELLO))]" demo_env]
  by (simp add: hello_flood_def dget_def)

text \<open>The messages of a list that count against an address.\<close>

definition counted :: "string \<Rightarrow> env \<times> string \<times> json \<Rightarrow> bool" where
  "counted a e \<longleftrightarrow> (case e of (E, b, j) \<Rightarrow> b = a \<and> (\<exists>msg. j = JObj msg) \<and> msg_type j \<noteq> JStr (mt HELLO))"

definition window_inv :: "rat \<Rightarrow> string \<Rightarrow> nat \<Rightarrow> node \<Rightarrow> bool" where
  "window_inv t0 a k n \<longleftrightarrow> k \<le> fst (dget (msg_count n) a (0, t0)) \<and> t0 \<le> snd (dget (msg_count n) a (0, t0))"

lemma window_bump:
  assumes "window_inv t0 a k n" "t0 \<le> now" "now \<le> t0 + 60"
  shows "Suc k \<le> fst (bump_count now a (msg_count n)) \<and> t0 \<le> snd (bump_count now a (msg_count n))"
  using assms by (auto simp: window_inv_def bump_count_def dget_def split: option.splits prod.splits)

lemma window_step:
  assumes "window_inv t0 a k n" "t0 \<le> mono E" "mono E \<le> t0 + 60"
  shows "window_inv t0 a (if counted a (E, b, j) then Suc k else k) (fst (handle_message E b j n))"
proof (cases j)
  case (JObj msg)
  show ?thesis
  proof (cases "hello_flood (mono E) b (dget msg ''type'' (JStr [])) n \<or> b \<noteq> a")
    case True
    then show ?thesis
      using assms(1) JObj
      by (auto simp: window_inv_def msg_count_step counted_def msg_type_def hello_flood_def dget_dset)
  next
    case False
    then show ?thesis
      using window_bump [OF assms] JObj
      by (auto simp: window_inv_def msg_count_step dget_dset)
  qed
qed (use assms(1) in \<open>simp_all add: handle_message_def counted_def\<close>)

lemma window_all:
  "window_inv t0 a k n \<Longrightarrow> \<forall>(E, b, j) \<in> set evs. t0 \<le> mono E \<and> mono E \<le> t0 + 60 \<Longrightarrow>
   window_inv t0 a (k + length (filter (counted a) evs)) (handle_all evs n)"
proof (induction evs arbitrary: n k)
  case (Cons e evs)
  obtain E b j where e: "e = (E, b, j)" by (cases e)
  have "window_inv t0 a (if counted a e then Suc k else k) (fst (handle_message E b j n))"
    using window_step [OF Cons.prems(1), of E b j] Cons.prems(2) e by simp
  from Cons.IH [OF this] show ?case using Cons.prems(2) e by (auto split: if_splits)
qed simp

text \<open>
  In the counter's own window, once 100 messages of an address have been counted, every
  further message from it that is not a BYE changes at most the two rate counters.
\<close>

lemma over_limit_dropped:
  assumes "100 < fst (bump_count (mono E) a (msg_count n))" "dget msg ''type'' (JStr []) \<noteq> JStr (mt BYE)"
  shows "\<exists>mc hc. handle_message E a (JObj msg) n = (n\<lparr>msg_count := mc, hello_count := hc\<rparr>, None)"
proof -
  have "fst (handle_message E a (JObj msg) n) \<in> {n, count_message (mono E) a (dget msg ''type'' (JStr [])) n}
      \<and> snd (handle_message E a (JObj msg) n) = None"
    using assms by (simp add: handle_message_JObj Let_def)
  moreover have "n = n\<lparr>msg_count := msg_count n, hello_count := hello_count n\<rparr>" by simp
  moreover have "\<exists>mc hc. count_message (mono E) a (dget msg ''type'' (JStr [])) n = n\<lparr>msg_count := mc, hello_count := hc\<rparr>"
    by (rule exI [of _ "msg_count (count_message (mono E) a (dget msg ''type'' (JStr [])) n)"],
        rule exI [of _ "hello_count (count_message (mono E) a (dget msg ''type'' (JStr [])) n)"])
      (simp add: count_message_def Let_def)
  ultimately show ?thesis by (metis insertE prod.collapse singletonD)
qed

lemma full_window_drops:
  assumes "\<And>c w. map_of (msg_count n) a = Some (c, w) \<Longrightarrow> t0 \<le> w"
    and "\<forall>(E, b, j) \<in> set evs. t0 \<le> mono E \<and> mono E \<le> t0 + 60"
    and "100 \<le> length (filter (counted a) evs)"
    and "t0 \<le> mono E" "mono E \<le> t0 + 60" "dget msg ''type'' (JStr []) \<noteq> JStr (mt BYE)"
  shows "\<exists>mc hc. handle_message E a (JObj msg) (handle_all evs n) =
    ((handle_all evs n)\<lparr>msg_count := mc, hello_count := hc\<rparr>, None)"
proof -
  have "window_inv t0 a 0 n" using assms(1) by (auto simp: window_inv_def dget_def split: option.splits)
  from window_all [OF this assms(2)] have w: "window_inv t0 a 100 (handle_all evs n)"
    using assms(3) by (simp add: window_inv_def)
  from window_bump [OF this assms(4,5)] have "100 < fst (bump_count (mono E) a (msg_count (handle_all evs n)))" by simp
  then show ?thesis using assms(6) by (rule over_limit_dropped)
qed

text \<open>
  A message takes effect when its handling raises or changes anything but the rate counters.
  How many messages of an address, other than BYEs, take effect along a list of events.
\<close>

definition takes_effect :: "env \<Rightarrow> string \<Rightarrow> pydict \<Rightarrow> node \<Rightarrow> bool" where
  "takes_effect E a msg n \<longleftrightarrow>
     (\<nexists>mc hc. handle_message E a (JObj msg) n = (n\<lparr>msg_count := mc, hello_count := hc\<rparr>, None))"

definition counts_as :: "string \<Rightarrow> env \<times> string \<times> json \<Rightarrow> node \<Rightarrow> bool" where
  "counts_as a e n \<longleftrightarrow> (case e of (E, b, j) \<Rightarrow> b = a \<and>
     (case j of JObj msg \<Rightarrow> dget msg ''type'' (JStr []) \<noteq> JStr (mt BYE) \<and> takes_effect E a msg n | _ \<Rightarrow> False))"

fun effects :: "string \<Rightarrow> (env \<times> string \<times> json) list \<Rightarrow> node \<Rightarrow> nat" where
  "effects a [] n = 0"
| "effects a ((E, b, j) # evs) n =
     (if counts_as a (E, b, j) n then 1 else 0) + effects a evs (fst (handle_message E b j n))"

text \<open>What the counter lets through in the 60 seconds from \<open>t0\<close>: the rest of a window that began before, and a whole one.\<close>

definition allowance :: "rat \<Rightarrow> string \<Rightarrow> node \<Rightarrow> nat" where
  "allowance t0 a n = (case map_of (msg_count n) a of
     None \<Rightarrow> 100 | Some (c, w) \<Rightarrow> if t0 \<le> w then 100 - c else 100 - c + 100)"

lemma allowance_bump:
  assumes "t0 \<le> now" "now \<le> t0 + 60" "map_of (msg_count n') a = Some (bump_count now a (msg_count n))"
  shows "(if fst (bump_count now a (msg_count n)) \<le> 100 then 1 else 0) + allowance t0 a n' \<le> allowance t0 a n"
  using assms by (auto simp: allowance_def bump_count_def dget_def split: option.splits prod.splits)

lemma allowance_step:
  assumes "t0 \<le> mono E" "mono E \<le> t0 + 60"
  shows "(if counts_as a (E, b, j) n then 1 else 0) + allowance t0 a (fst (handle_message E b j n)) \<le> allowance t0 a n"
proof (cases j)
  case (JObj msg)
  show ?thesis
  proof (cases "hello_flood (mono E) b (dget msg ''type'' (JStr [])) n \<or> b \<noteq> a")
    case True
    have "\<not> counts_as a (E, b, j) n"
    proof (cases "b = a")
      case True
      then have h: "handle_message E a (JObj msg) n = (n, None)"
        using \<open>hello_flood _ _ _ _ \<or> b \<noteq> a\<close> by (simp add: handle_message_JObj Let_def)
      have "\<exists>mc hc. handle_message E a (JObj msg) n = (n\<lparr>msg_count := mc, hello_count := hc\<rparr>, None)"
        unfolding h by (rule exI [of _ "msg_count n"], rule exI [of _ "hello_count n"]) simp
      then show ?thesis using JObj by (simp add: counts_as_def takes_effect_def)
    qed (simp add: counts_as_def)
    moreover have "allowance t0 a (fst (handle_message E b j n)) = allowance t0 a n"
      using True JObj by (auto simp: allowance_def msg_count_step map_of_dset)
    ultimately show ?thesis by simp
  next
    case False
    then have "b = a" "\<not> hello_flood (mono E) a (dget msg ''type'' (JStr [])) n" by auto
    then have "map_of (msg_count (fst (handle_message E b j n))) a = Some (bump_count (mono E) a (msg_count n))"
      using JObj by (simp add: msg_count_step)
    from allowance_bump [OF assms this] show ?thesis
      using over_limit_dropped [of E a n msg] False JObj
      by (auto simp: counts_as_def takes_effect_def split: if_splits)
  qed
qed (simp_all add: handle_message_def counts_as_def)

lemma effects_allowed:
  "\<forall>(E, b, j) \<in> set evs. t0 \<le> mono E \<and> mono E \<le> t0 + 60 \<Longrightarrow> effects a evs n \<le> allowance t0 a n"
proof (induction evs arbitrary: n)
  case (Cons e evs)
  obtain E b j where e: "e = (E, b, j)" by (cases e)
  have "effects a evs (fst (handle_message E b j n)) \<le> allowance t0 a (fst (handle_message E b j n))"
    by (rule Cons.IH) (use Cons.prems in simp)
  moreover have "(if counts_as a (E, b, j) n then 1 else 0) + allowance t0 a (fst (handle_message E b j n)) \<le> allowance t0 a n"
    by (rule allowance_step) (use Cons.prems e in auto)
  ultimately show ?case by (simp add: e)
qed simp

text \<open>
  C29: the limit on messages. Whatever arrives within 60 seconds, at most 200 messages of an
  address other than BYEs take any effect: at most 100 in what is left of the window the
  counter had open, and at most 100 in the window that opens then. If no window was open at the
  beginning, it is at most 100. Every message beyond changes at most the two rate counters.
\<close>

theorem message_rate_limit:
  assumes "\<forall>(E, b, j) \<in> set evs. t0 \<le> mono E \<and> mono E \<le> t0 + 60"
  shows "effects a evs n \<le> 200 \<and>
    ((\<forall>c w. map_of (msg_count n) a = Some (c, w) \<longrightarrow> t0 \<le> w) \<longrightarrow> effects a evs n \<le> 100)"
  using effects_allowed [OF assms, of a n]
  by (auto simp: allowance_def split: option.splits prod.splits if_splits)

theorem message_rate_limit_witness:
  "effects ''a'' (replicate 101 (demo_env, ''a'', JObj [(''type'', JStr (mt HEARTBEAT))])) demo_node \<le> 100"
  using message_rate_limit [of "replicate 101 (demo_env, ''a'', JObj [(''type'', JStr (mt HEARTBEAT))])" 100 "''a''" demo_node]
  by (simp del: replicate.simps effects.simps)

lemma known_remove [simp]: "a \<notin> set (known_peers (remove_peer a t))"
  by (simp add: known_peers_def remove_peer_def Let_def)

lemma bye_always:
  assumes "dget msg ''type'' (JStr []) = JStr (mt BYE)"
  shows "handle_message E a (JObj msg) n = (on_bye a (count_message (mono E) a (JStr (mt BYE)) n), None)"
  using assms by (simp add: handle_message_JObj hello_flood_def Let_def)



section \<open>Queries\<close>

lemma purge_seen_keeps:
  "map_of seen q = Some t \<Longrightarrow> now \<le> t + seen_query_ttl \<Longrightarrow> map_of (purge_seen now seen) q = Some t"
  by (induction seen) (auto simp: purge_seen_def split: if_splits)

lemma on_query_seen_eq:
  "seen_queries (fst (on_query E a msg n)) =
     (let q = dget msg ''id'' (JStr []); p = purge_seen (wall E) (seen_queries n) in
      if py_truthy (dget msg ''origin'' (JStr [])) \<and> dget msg ''origin'' (JStr []) = JStr (self_id n) then seen_queries n
      else if \<not> hashable q \<or> q \<in> set (dkeys p) then p else dset q (wall E) p)"
proof (cases "py_truthy (dget msg ''origin'' (JStr [])) \<and> dget msg ''origin'' (JStr []) = JStr (self_id n)")
  case True
  then show ?thesis unfolding on_query_def Let_def if_P [OF True] by simp
next
  case False
  then show ?thesis
    unfolding on_query_def Let_def if_not_P [OF False] by simp
qed

lemma on_query_dup:
  assumes "hashable (dget msg ''id'' (JStr []))"
    "dget msg ''id'' (JStr []) \<in> set (dkeys (purge_seen (wall E) (seen_queries n)))"
  shows "on_query E a msg n = (n, None) \<or>
    on_query E a msg n = (n\<lparr>seen_queries := purge_seen (wall E) (seen_queries n)\<rparr>, None)"
  using assms unfolding on_query_def Let_def by simp

lemma on_query_seen:
  assumes "map_of (seen_queries n) q = Some t" "wall E \<le> t + seen_query_ttl"
  shows "map_of (seen_queries (fst (on_query E a msg n))) q = Some t"
  using purge_seen_keeps [OF assms] assms(1) map_of_SomeD [OF purge_seen_keeps [OF assms]]
  by (auto simp: on_query_seen_eq Let_def rev_image_eqI)

lemma seen_step:
  assumes "map_of (seen_queries n) q = Some t" "wall E \<le> t + seen_query_ttl"
  shows "map_of (seen_queries (fst (handle_message E b j n))) q = Some t"
proof (cases j)
  case (JObj msg)
  have "map_of (seen_queries (count_message now b ty n)) q = Some t" for now ty
    using assms(1) by simp
  from on_query_seen [OF this assms(2)] show ?thesis
    using assms(1) by (simp add: JObj handle_message_JObj Let_def dispatch_def)
qed (use assms(1) in \<open>simp_all add: handle_message_def\<close>)

lemma on_query_marks:
  assumes "hashable (dget msg ''id'' (JStr []))" "map_of (seen_queries n) (dget msg ''id'' (JStr [])) = None"
    "dget msg ''origin'' (JStr []) \<noteq> JStr (self_id n)"
  shows "map_of (seen_queries (fst (on_query E a msg n))) (dget msg ''id'' (JStr [])) = Some (wall E)"
proof -
  have "dget msg ''id'' (JStr []) \<notin> fst ` set (purge_seen (wall E) (seen_queries n))"
    using assms(2) by (auto simp: purge_seen_def map_of_eq_None_iff rev_image_eqI)
  then show ?thesis
    using assms(1,3) by (simp add: on_query_seen_eq Let_def)
qed

text \<open>
  C18: a query is processed once. After a node has taken up a query id, any query with the
  same id within the next 60 seconds, from any peer and after any other messages, is neither
  answered nor forwarded: only expired ids leave the list of seen queries.
\<close>

theorem query_processed_once:
  assumes "hashable q" "map_of (seen_queries n) q = None" "dget m0 ''id'' (JStr []) = q"
    "dget m0 ''origin'' (JStr []) \<noteq> JStr (self_id n)"
    and "\<forall>(E, b, j) \<in> set evs. wall E \<le> wall E0 + 60"
    and "dget msg ''id'' (JStr []) = q" "wall E \<le> wall E0 + 60"
  shows "\<exists>sq. on_query E b msg (handle_all evs (fst (on_query E0 a m0 n))) =
    ((handle_all evs (fst (on_query E0 a m0 n)))\<lparr>seen_queries := sq\<rparr>, None)"
proof -
  let ?n = "handle_all evs (fst (on_query E0 a m0 n))"
  have "map_of (seen_queries (fst (on_query E0 a m0 n))) q = Some (wall E0)"
    using on_query_marks [of m0 n E0 a] assms(1-4) by simp
  then have "map_of (seen_queries ?n) q = Some (wall E0)"
    by (rule handle_all_keeps) (use assms(5) in \<open>auto intro!: seen_step simp: seen_query_ttl_def\<close>)
  then have "map_of (purge_seen (wall E) (seen_queries ?n)) q = Some (wall E0)"
    by (rule purge_seen_keeps) (use assms(7) in \<open>simp add: seen_query_ttl_def\<close>)
  then have "q \<in> set (dkeys (purge_seen (wall E) (seen_queries ?n)))"
    by (metis domI dom_map_of_conv_image_fst set_map)
  from on_query_dup [of msg E ?n b] this have
    "on_query E b msg ?n = (?n, None) \<or>
     on_query E b msg ?n = (?n\<lparr>seen_queries := purge_seen (wall E) (seen_queries ?n)\<rparr>, None)"
    using assms(1,6) by simp
  moreover have "?n = ?n\<lparr>seen_queries := seen_queries ?n\<rparr>" by simp
  ultimately show ?thesis by metis
qed

theorem query_processed_once_witness:
  "\<exists>sq. on_query demo_env ''b'' [(''id'', JStr ''q1'')]
      (handle_all [(demo_env, ''a'', JObj [(''type'', JStr (mt BYE))])]
         (fst (on_query demo_env ''a'' [(''id'', JStr ''q1'')] demo_node))) =
    ((handle_all [(demo_env, ''a'', JObj [(''type'', JStr (mt BYE))])]
         (fst (on_query demo_env ''a'' [(''id'', JStr ''q1'')] demo_node)))\<lparr>seen_queries := sq\<rparr>, None)"
  by (rule query_processed_once [where q = "JStr ''q1''"]) (auto simp: dget_def)

section \<open>Results\<close>

lemma lookup_key_Some:
  "lookup_key d j = Inr (Some (k, v)) \<Longrightarrow> map_of d k = Some v \<and> j = JStr k"
  by (auto simp: lookup_key_def str_key_def split: json.splits option.splits if_splits)

lemma on_result_first:
  assumes "map_of (pending_results n) tid = Some (Some r)"
  shows "map_of (pending_results (fst (on_result E a msg n))) tid = Some (Some r)"
proof -
  obtain n1 res where c: "check_result_signature E a msg n = (n1, res)" by fastforce
  then have n1: "n1 = fst (check_result_signature E a msg n)" by simp
  have p: "pending_results n1 = pending_results n" by (simp add: n1)
  show ?thesis
  proof (cases "\<exists>t. res = Inr Sig_ok \<and> lookup_key (pending_results n) (dget msg ''id'' (JStr [])) = Inr (Some (t, None))")
    case True
    then obtain t where t: "res = Inr Sig_ok"
      "lookup_key (pending_results n) (dget msg ''id'' (JStr [])) = Inr (Some (t, None))" by blast
    then have "t \<noteq> tid" using lookup_key_Some [OF t(2)] assms by auto
    then show ?thesis
      using assms t c p by (simp add: on_result_def split: sum.split)
  next
    case False
    then have "fst (on_result E a msg n) = n1"
      by (auto simp: on_result_def c p split: sum.split sig_check.split option.split)
    then show ?thesis using assms p by simp
  qed
qed

text \<open>
  C30: the first result wins. Once the result of a task has been set, no message of any peer,
  in any order, changes it: a later result for the same task is ignored.
\<close>

theorem first_result_wins:
  assumes "map_of (pending_results n) tid = Some (Some r)"
  shows "map_of (pending_results (handle_all evs n)) tid = Some (Some r)"
  using assms
proof (rule handle_all_keeps)
  fix E b j and n :: node
  assume t: "map_of (pending_results n) tid = Some (Some r)"
  show "map_of (pending_results (fst (handle_message E b j n))) tid = Some (Some r)"
  proof (cases j)
    case (JObj msg)
    have "map_of (pending_results (count_message now b ty n)) tid = Some (Some r)" for now ty
      using t by simp
    from on_result_first [OF this] show ?thesis
      using t by (simp add: JObj handle_message_JObj Let_def dispatch_def)
  qed (use t in \<open>simp_all add: handle_message_def\<close>)
qed

theorem first_result_wins_witness:
  "map_of (pending_results (handle_all [(demo_env, ''abc@h:1'', JObj [(''type'', JStr (mt RESULT)), (''id'', JStr ''t'')])]
     (demo_node\<lparr>pending_results := [(''t'', Some (result_success (JStr ''t'') JNull))]\<rparr>))) ''t'' =
   Some (Some (result_success (JStr ''t'') JNull))"
  by (rule first_result_wins) simp

section \<open>Sending to a live peer\<close>

text \<open>The address \<open>a\<close> names the live connection \<open>c\<close>.\<close>

definition live_peer :: "'a tcp_scheme \<Rightarrow> string \<Rightarrow> cid \<Rightarrow> conn \<Rightarrow> bool" where
  "live_peer s a i c \<longleftrightarrow> map_of (peers s) a = Some i \<and> conns s i = Some c \<and> c_alive c \<and> \<not> c_broken c"

lemma send_to_live:
  assumes "live_peer s a i c"
  shows "send_to a m s = (case encode_frame m of
      Inl e \<Rightarrow> (s\<lparr>conns := (conns s)(i \<mapsto> c\<lparr>c_alive := False\<rparr>)\<rparr>, Some e)
    | Inr fr \<Rightarrow> (s\<lparr>conns := (conns s)(i \<mapsto> c\<lparr>c_sent := c_sent c @ fr\<rparr>)\<rparr>, None))"
  using assms by (simp add: live_peer_def send_to_def send_conn_def conn_send_def split: sum.split)

lemma send_to_dead:
  "map_of (peers s) a = Some i \<Longrightarrow> conns s i = Some c \<Longrightarrow> \<not> c_alive c \<Longrightarrow>
   send_to a m s = (s\<lparr>conns := (conns s)(i \<mapsto> c)\<rparr>, Some ConnectionErr)"
  by (simp add: send_to_def send_conn_def conn_send_def)

lemma live_peer_cong: "peers n' = peers n \<Longrightarrow> conns n' = conns n \<Longrightarrow> live_peer n' a i c = live_peer n a i c"
  by (simp add: live_peer_def)

lemma demo_live: "live_peer demo_node ''abc@h:1'' 0 (new_conn ''h:1'' 0)"
  by (simp add: live_peer_def new_conn_def)

section \<open>Tasks\<close>

definition cache_ok :: "ed25519 \<Rightarrow> node \<Rightarrow> bool" where
  "cache_ok e n \<longleftrightarrow> (\<forall>nid pk x. map_of (pubkey_cache n) nid = Some (pk, x) \<longrightarrow>
     bindE (py_str nid) (id_to_pubkey e) = Inr pk)"

lemma pubkey_cached:
  assumes "cache_ok (ed E) n" "hashable nid"
  shows "snd (get_caller_pubkey E nid n) =
      Inr (case bindE (py_str nid) (id_to_pubkey (ed E)) of Inl _ \<Rightarrow> None | Inr pk \<Rightarrow> Some pk) \<and>
    cache_ok (ed E) (fst (get_caller_pubkey E nid n))"
  using assms
  by (cases "bindE (py_str nid) (id_to_pubkey (ed E))")
    (auto simp: get_caller_pubkey_def cache_ok_def Let_def split: option.splits prod.splits)

lemma demo_cache: "cache_ok e demo_node"
  by (simp add: cache_ok_def)

text \<open>A signed message.\<close>

definition demo_signed :: pydict where
  "demo_signed = [(''id'', JStr ''t''), (''caller'', JStr (node_id_of toy_ed (identity_of toy_ed [])))]"

text \<open>
  the cache of public keys never changes an answer: on a cache that holds keys of their
  own ids, a lookup gives the key the id decodes to, or no key when it decodes to none, and
  the cache stays so.
\<close>

lemma pubkey_cache_transparent:
  assumes "cache_ok (ed E) n" "hashable nid"
  shows "snd (get_caller_pubkey E nid n) =
      Inr (case bindE (py_str nid) (id_to_pubkey (ed E)) of Inl _ \<Rightarrow> None | Inr pk \<Rightarrow> Some pk) \<and>
    cache_ok (ed E) (fst (get_caller_pubkey E nid n))"
  using assms by (rule pubkey_cached)

lemma caller_pubkey:
  assumes "cache_ok (ed E) n" "id_to_pubkey (ed E) cid = res"
  shows "snd (get_caller_pubkey E (JStr cid) n) = Inr (case res of Inl _ \<Rightarrow> None | Inr pk \<Rightarrow> Some pk)"
  using pubkey_cached [OF assms(1), of "JStr cid"] assms(2) by simp

lemma task_sig_eq:
  assumes "cache_ok (ed E) n" "verify_peers n" "py_truthy (dget msg ''signature'' JNull)"
    "dget msg ''caller'' (JStr []) = JStr cid" "cid \<noteq> []" "id_to_pubkey (ed E) cid = Inr pk"
  shows "snd (check_task_signature E msg n) =
    Inr (if verify_signature (ed E) pk (without_signature msg) (dget msg ''signature'' JNull) then Sig_ok else Sig_bad)"
proof -
  obtain n1 r where g: "get_caller_pubkey E (JStr cid) n = (n1, r)" by fastforce
  have "r = Inr (Some pk)" using caller_pubkey [OF assms(1,6)] g by simp
  then show ?thesis using assms(2-5) g by (simp add: check_task_signature_def Let_def)
qed

lemma task_sig_no_key:
  assumes "cache_ok (ed E) n" "dget msg ''caller'' (JStr []) = JStr cid" "id_to_pubkey (ed E) cid = Inl err"
  shows "snd (check_task_signature E msg n) = Inr Sig_ok"
proof -
  obtain n1 r where g: "get_caller_pubkey E (JStr cid) n = (n1, r)" by fastforce
  have "r = Inr None" using caller_pubkey [OF assms(1,3)] g by simp
  then show ?thesis using assms(2) g by (simp add: check_task_signature_def Let_def)
qed

text \<open>
  C7: what the signature check lets through. With verification on, a signed task is let through
  in exactly two cases: its caller id decodes to a public key and its signature is the base64
  text of bytes that verify, under that key, over the canonical text of the task without its
  signature; or its caller id decodes to no key at all, and then its signature is not looked at.
\<close>

theorem accepted_task_authentic:
  assumes "cache_ok (ed E) n" "verify_peers n" "py_truthy (dget msg ''signature'' JNull)"
    "dget msg ''caller'' (JStr []) = JStr cid" "cid \<noteq> []"
  shows "snd (check_task_signature E msg n) = Inr Sig_ok \<longleftrightarrow>
    (case id_to_pubkey (ed E) cid of
       Inl _ \<Rightarrow> True
     | Inr pk \<Rightarrow> \<exists>t sig. dget msg ''signature'' JNull = JStr t \<and> b64_decode_padded t = Inr sig \<and>
         ed_verify (ed E) pk sig (canonical_bytes (JObj (without_signature msg))))"
proof (cases "id_to_pubkey (ed E) cid")
  case (Inl err)
  then show ?thesis using task_sig_no_key [OF assms(1,4)] by simp
next
  case (Inr pk)
  then show ?thesis using task_sig_eq [OF assms Inr] verify_signature_iff [of "ed E" pk] by (simp split: if_splits)
qed

theorem accepted_task_authentic_witness:
  "(\<exists>t sig. b64_decode_padded t = Inr sig \<and>
     ed_verify toy_ed (ed_public toy_ed []) sig (canonical_bytes (JObj demo_signed)) \<and>
     JStr t = JStr (sign_message toy_ed [] demo_signed)) \<and>
   snd (check_task_signature demo_env [(''caller'', JStr ''foo''), (''signature'', JInt 1)] demo_node) = Inr Sig_ok"
proof -
  let ?sig = "JStr (sign_message toy_ed [] demo_signed)"
  let ?m = "demo_signed @ [(''signature'', ?sig)]"
  have g: "dget ?m ''signature'' JNull = ?sig" "dget ?m ''caller'' (JStr []) = JStr (node_id_of toy_ed (identity_of toy_ed []))"
    "without_signature ?m = demo_signed"
    by (simp_all add: demo_signed_def dget_def without_signature_def)
  have k: "id_to_pubkey (ed demo_env) (node_id_of toy_ed (identity_of toy_ed [])) = Inr (ed_public toy_ed [])"
    using id_roundtrip [OF toy_ed_ok, of "[]"] by (simp add: node_id_of_def identity_of_def)
  have t: "py_truthy ?sig"
    by (simp add: sign_message_def toy_ed_def)
  have v: "verify_signature toy_ed (ed_public toy_ed []) demo_signed ?sig" by (rule verify_sign [OF toy_ed_ok])
  have c: "snd (check_task_signature demo_env ?m demo_node) = Inr Sig_ok"
    using task_sig_eq [of demo_env demo_node ?m _ "ed_public toy_ed []", OF demo_cache _ _ g(2) _ k] t g v by simp
  have "id_to_pubkey (ed demo_env) ''foo'' = Inl ValueErr" using short_id_no_key [of toy_ed "''foo''"] toy_ed_ok by simp
  then have "snd (check_task_signature demo_env [(''caller'', JStr ''foo''), (''signature'', JInt 1)] demo_node) = Inr Sig_ok"
    using accepted_task_authentic [of demo_env demo_node "[(''caller'', JStr ''foo''), (''signature'', JInt 1)]" "''foo''"] demo_cache
    by (simp add: dget_def)
  moreover from accepted_task_authentic [OF demo_cache _ _ g(2)] c k have
    "\<exists>u sig. ?sig = JStr u \<and> b64_decode_padded u = Inr sig \<and> ed_verify toy_ed (ed_public toy_ed []) sig (canonical_bytes (JObj demo_signed))"
    using t by (simp add: g)
  ultimately show ?thesis by fastforce
qed

definition bad_signature_reply :: "pydict \<Rightarrow> pydict" where
  "bad_signature_reply msg = result_msg (dget msg ''id'' (JStr [])) ''error'' None
     (Some (error_dict ''BAD_SIGNATURE'' ''Invalid signature'')) []"

lemma sig_node_fields:
  "peers (fst (check_task_signature E msg n)) = peers n" "conns (fst (check_task_signature E msg n)) = conns n"
  "task_handler (fst (check_task_signature E msg n)) = task_handler n"
  by simp_all

text \<open>
  C6: a task with a bad signature under its caller's key is rejected. When verification is on,
  the task is signed, its caller id decodes to a public key and the signature does not verify
  under that key, the caller gets one BAD_SIGNATURE error, and whatever handler the application
  has installed, the outcome is the same: the task never reaches it. (A caller id that decodes
  to no key is let through: \<open>accepted_task_authentic\<close>; so is an unsigned task.)
\<close>

theorem forged_task_rejected:
  assumes "cache_ok (ed E) n" "verify_peers n" "py_truthy (dget msg ''signature'' JNull)"
    "dget msg ''caller'' (JStr []) = JStr cid" "cid \<noteq> []" "id_to_pubkey (ed E) cid = Inr pk"
    and "\<not> verify_signature (ed E) pk (without_signature msg) (dget msg ''signature'' JNull)"
    and "live_peer n a i c" "encode_frame (bad_signature_reply msg) = Inr fr"
  shows "conns (on_task E a msg (n\<lparr>task_handler := h\<rparr>)) = (conns n)(i \<mapsto> c\<lparr>c_sent := c_sent c @ fr\<rparr>)"
proof -
  let ?n = "n\<lparr>task_handler := h\<rparr>"
  obtain n1 r where s: "check_task_signature E msg ?n = (n1, r)" by fastforce
  have "cache_ok (ed E) ?n" using assms(1) by (simp add: cache_ok_def)
  then have r: "r = Inr Sig_bad" using task_sig_eq [of E ?n msg cid pk] assms(2-7) s by simp
  have same: "peers n1 = peers n" "conns n1 = conns n"
    using sig_node_fields(1,2) [of E msg ?n] s by simp_all
  then have "live_peer n1 a i c" using assms(8) by (simp add: live_peer_def)
  from send_to_live [OF this] have
    "task_body E a msg ?n = (n1\<lparr>conns := (conns n)(i \<mapsto> c\<lparr>c_sent := c_sent c @ fr\<rparr>)\<rparr>, None)"
    using assms(9) s r same by (simp add: task_body_def bad_signature_reply_def Let_def)
  then show ?thesis by (simp add: on_task_def)
qed

theorem forged_task_rejected_witness:
  "\<exists>fr. conns (on_task demo_env ''abc@h:1'' (demo_signed @ [(''signature'', JInt 1)])
        (demo_node\<lparr>task_handler := Some (\<lambda>t. Inr JNull)\<rparr>)) =
     [0 \<mapsto> (new_conn ''h:1'' 0)\<lparr>c_sent := fr\<rparr>]"
proof -
  let ?m = "demo_signed @ [(''signature'', JInt 1)]"
  have g: "dget ?m ''signature'' JNull = JInt 1" "dget ?m ''caller'' (JStr []) = JStr (node_id_of toy_ed (identity_of toy_ed []))"
    by (simp_all add: demo_signed_def dget_def)
  have k: "id_to_pubkey (ed demo_env) (node_id_of toy_ed (identity_of toy_ed [])) = Inr (ed_public toy_ed [])"
    using id_roundtrip [OF toy_ed_ok, of "[]"] by (simp add: node_id_of_def identity_of_def)
  have "\<exists>fr. encode_frame (bad_signature_reply ?m) = Inr fr"
    by (rule frame_fits)
      (simp_all add: bad_signature_reply_def result_msg_def error_dict_def demo_signed_def dget_def wf_dict_def
        MAX_PAYLOAD_SIZE_def mt.simps)
  then obtain fr where fr: "encode_frame (bad_signature_reply ?m) = Inr fr" by blast
  have nv: "\<not> verify_signature (ed demo_env) (ed_public toy_ed []) (without_signature ?m) (dget ?m ''signature'' JNull)"
    by (simp add: g verify_signature_def)
  from forged_task_rejected [OF demo_cache _ _ g(2) _ k nv demo_live fr] show ?thesis
    by (auto simp: g new_conn_def)
qed

lemma result_msg_fields:
  "dget (result_msg tid st p e s) ''id'' JNull = tid" "dget (result_msg tid st p e s) ''type'' JNull = JStr (mt RESULT)"
  by (simp_all add: result_msg_def dget_def)

lemma signed_result_fields:
  "dget (signed_result E tid p n) ''id'' JNull = tid" "dget (signed_result E tid p n) ''type'' JNull = JStr (mt RESULT)"
  by (simp_all add: signed_result_def Let_def result_msg_fields)

text \<open>The reply a task gets: a RESULT for its id.\<close>

definition reply_for :: "pydict \<Rightarrow> pydict \<Rightarrow> bool" where
  "reply_for msg m \<longleftrightarrow> dget m ''type'' JNull = JStr (mt RESULT) \<and>
     dget m ''id'' JNull \<in> {dget msg ''id'' (JStr []), dget msg ''id'' (JStr ''unknown'')}"

lemma task_body_shape:
  "\<exists>n1. peers n1 = peers n \<and> conns n1 = conns n \<and>
     ((\<exists>e. task_body E a msg n = (n1, Some e)) \<or> (\<exists>m. reply_for msg m \<and> task_body E a msg n = send_to a m n1))"
proof -
  obtain n1 r where s: "check_task_signature E msg n = (n1, r)" by fastforce
  have same: "peers n1 = peers n" "conns n1 = conns n"
    using sig_node_fields(1,2) [of E msg n] s by simp_all
  have rep: "reply_for msg (result_msg (dget msg ''id'' (JStr [])) st p e sg)"
    "reply_for msg (signed_result E (dget msg ''id'' (JStr [])) pl n1)" for st p e sg pl
    by (simp_all add: reply_for_def result_msg_fields signed_result_fields)
  show ?thesis
  proof (cases r)
    case (Inl e)
    then show ?thesis using s same by (intro exI [of _ n1]) (simp add: task_body_def Let_def)
  next
    case (Inr sg)
    show ?thesis
    proof (cases sg)
      case Sig_bad
      then show ?thesis using s same rep(1) Inr
        by (intro exI [of _ n1] conjI same disjI2 exI) (rule rep(1), simp add: task_body_def Let_def)
    next
      case Sig_ok
      have "(\<exists>e. task_body E a msg n = (n1, Some e)) \<or>
          (\<exists>pl. task_body E a msg n = send_to a (signed_result E (dget msg ''id'' (JStr [])) pl n1) n1)"
        using s Inr Sig_ok by (cases "run_task E msg n1") (auto simp: task_body_def Let_def)
      then show ?thesis using same rep(2) by blast
    qed
  qed
qed

text \<open>
  C8: every task is answered exactly once, or its connection dies. Whatever the message, the
  signature and the handler do, the peer's live connection gets exactly one frame, a RESULT
  for the task's id; only a reply above the frame limit gives none, and then the connection is
  marked dead. No other connection is touched.
\<close>

theorem task_answered_once:
  assumes "live_peer n a i c"
  shows "\<exists>c'. conns (on_task E a msg n) = (conns n)(i \<mapsto> c') \<and>
    ((c_alive c' \<and> (\<exists>m fr. reply_for msg m \<and> encode_frame m = Inr fr \<and> c_sent c' = c_sent c @ fr)) \<or>
     (\<not> c_alive c' \<and> c_sent c' = c_sent c))"
proof -
  obtain n1 where n1: "peers n1 = peers n" "conns n1 = conns n" and
    b: "(\<exists>e. task_body E a msg n = (n1, Some e)) \<or> (\<exists>m. reply_for msg m \<and> task_body E a msg n = send_to a m n1)"
    using task_body_shape by blast
  have live: "live_peer n1 a i c" using assms n1 by (simp add: live_peer_def)
  define er where "er e = result_msg (dget msg ''id'' (JStr ''unknown'')) ''error'' None
    (Some (error_dict ''INTERNAL'' (exn_text E e))) []" for e
  have rep: "reply_for msg (er e)" for e by (simp add: er_def reply_for_def result_msg_fields)
  have t: "on_task E a msg n = (case task_body E a msg n of (n', None) \<Rightarrow> n' | (n', Some e) \<Rightarrow> try_send a (er e) n')"
    by (simp add: on_task_def er_def)
  from b show ?thesis
  proof (elim disjE exE conjE)
    fix e assume "task_body E a msg n = (n1, Some e)"
    then have "on_task E a msg n = try_send a (er e) n1" using t by simp
    then have "conns (on_task E a msg n) = (conns n)(i \<mapsto> (case encode_frame (er e) of
        Inl _ \<Rightarrow> c\<lparr>c_alive := False\<rparr> | Inr fr \<Rightarrow> c\<lparr>c_sent := c_sent c @ fr\<rparr>))"
      using send_to_live [OF live, of "er e"] n1(2) by (simp add: try_send_def split: sum.split)
    then show ?thesis
      using rep [of e] assms
      by (intro exI conjI) (assumption, auto simp: live_peer_def split: sum.split)
  next
    fix m assume m: "reply_for msg m" "task_body E a msg n = send_to a m n1"
    show ?thesis
    proof (cases "encode_frame m")
      case (Inr fr)
      then have "conns (on_task E a msg n) = (conns n)(i \<mapsto> c\<lparr>c_sent := c_sent c @ fr\<rparr>)"
        using t m(2) send_to_live [OF live, of m] n1(2) by simp
      then show ?thesis
        using m(1) Inr assms by (intro exI [of _ "c\<lparr>c_sent := c_sent c @ fr\<rparr>"]) (auto simp: live_peer_def)
    next
      case (Inl e)
      define n2 where "n2 = n1\<lparr>conns := (conns n1)(i \<mapsto> c\<lparr>c_alive := False\<rparr>)\<rparr>"
      have "map_of (peers n2) a = Some i" "conns n2 i = Some (c\<lparr>c_alive := False\<rparr>)"
        using live by (auto simp: n2_def live_peer_def)
      from send_to_dead [OF this] have "conns (on_task E a msg n) = (conns n)(i \<mapsto> c\<lparr>c_alive := False\<rparr>)"
        using t m(2) send_to_live [OF live, of m] n1(2) Inl by (simp add: try_send_def n2_def)
      then show ?thesis by (intro exI [of _ "c\<lparr>c_alive := False\<rparr>"]) simp
    qed
  qed
qed

theorem task_answered_once_witness:
  "\<exists>c'. conns (on_task demo_env ''abc@h:1'' demo_signed demo_node) = [0 \<mapsto> c'] \<and>
     (c_sent c' \<noteq> [] \<or> \<not> c_alive c')"
  using task_answered_once [OF demo_live, of demo_env demo_signed]
  by (auto simp: encode_frame_def Let_def pack_u32_def split: if_splits)

lemma toy_sign_size: "length (identity_sign toy_ed (identity_of toy_ed sk) d) \<le> 64 + 4 * text_size (JObj d)"
  using b64_size [of "ed_sign toy_ed sk (canonical_bytes (JObj d))"] canonical_size [of "JObj d"]
  by (simp add: identity_sign_def sign_message_def identity_of_def toy_ed_def)

lemma wf_signed_result: "wf_json tid \<Longrightarrow> wf_json out \<Longrightarrow> wf_dict (signed_result E tid out n)"
  by (simp add: signed_result_def Let_def wf_dict_def result_msg_def)

lemma toy_result_fits:
  assumes "ident n = identity_of toy_ed sk" "wf_json tid" "wf_json out" "text_size tid \<le> 1000" "text_size out \<le> 5000"
  shows "\<exists>fr. encode_frame (signed_result demo_env tid out n) = Inr fr"
proof (rule frame_fits [OF wf_signed_result [OF assms(2,3)]])
  let ?r = "result_msg tid ''success'' (if out = JNull then None else Some out) None []"
  have w: "without_signature ?r = ?r" by (simp add: result_msg_def without_signature_def)
  have r: "text_size (JObj ?r) \<le> 7000" using assms(4,5) by (simp add: result_msg_def mt.simps)
  then have "length (identity_sign toy_ed (identity_of toy_ed sk) ?r) \<le> 28064"
    using toy_sign_size [of sk ?r] by linarith
  then show "2 * text_size (JObj (signed_result demo_env tid out n)) \<le> MAX_PAYLOAD_SIZE"
    using assms(4,5) by (cases "out = JNull") (simp_all add: signed_result_def Let_def w assms(1), simp_all add: result_msg_def mt.simps MAX_PAYLOAD_SIZE_def without_signature_def)
qed

lemma demo_result_fits:
  assumes "ident n = identity_of toy_ed sk"
  shows "\<exists>fr. encode_frame (signed_result demo_env (JStr ''t'') (JStr ''done'') n) = Inr fr"
  by (rule toy_result_fits [OF assms]) simp_all

text \<open>
  verification does not cover a task without a signature. Even with verification on, a
  task whose \<open>signature\<close> is missing or empty reaches the handler, whoever its caller field
  names, and its result is signed and sent back.
\<close>

lemma unsigned_task_runs:
  assumes "verify_peers n" "\<not> py_truthy (dget msg ''signature'' JNull)"
    "dget msg ''caller'' (JStr []) = JStr cid" "dget msg ''capability'' (JStr []) \<noteq> JStr ''health''"
    "task_handler n = Some f" "f (incoming_task E msg) = Inr payload"
    "live_peer n a i c" "encode_frame (signed_result E (dget msg ''id'' (JStr [])) payload n) = Inr fr"
  shows "conns (on_task E a msg n) = (conns n)(i \<mapsto> c\<lparr>c_sent := c_sent c @ fr\<rparr>)"
proof -
  have "check_task_signature E msg n = (n, Inr Sig_ok)"
    using assms(2) by (simp add: check_task_signature_def Let_def)
  moreover have "run_task E msg n = Inr payload" using assms(4-6) by (simp add: run_task_def)
  ultimately have "task_body E a msg n = send_to a (signed_result E (dget msg ''id'' (JStr [])) payload n) n"
    using assms(3) by (simp add: task_body_def Let_def)
  then show ?thesis using send_to_live [OF assms(7)] assms(8) by (simp add: on_task_def)
qed

lemma unsigned_task_runs_witness:
  "\<exists>fr. conns (on_task demo_env ''abc@h:1'' [(''id'', JStr ''t''), (''caller'', JStr ''anyone'')]
        (demo_node\<lparr>task_handler := Some (\<lambda>t. Inr (JStr ''done''))\<rparr>)) =
     [0 \<mapsto> (new_conn ''h:1'' 0)\<lparr>c_sent := fr\<rparr>]"
proof -
  let ?m = "[(''id'', JStr ''t''), (''caller'', JStr ''anyone'')]"
  let ?n = "demo_node\<lparr>task_handler := Some (\<lambda>t. Inr (JStr ''done''))\<rparr>"
  have "\<exists>fr. encode_frame (signed_result demo_env (dget ?m ''id'' (JStr [])) (JStr ''done'') ?n) = Inr fr"
    using demo_result_fits [of ?n "[]"] by (simp add: dget_def)
  then obtain fr where fr: "encode_frame (signed_result demo_env (dget ?m ''id'' (JStr [])) (JStr ''done'') ?n) = Inr fr" by blast
  have "live_peer ?n ''abc@h:1'' 0 (new_conn ''h:1'' 0)" using demo_live by (simp add: live_peer_def)
  from unsigned_task_runs [OF _ _ _ _ _ _ this fr, of "''anyone''" "\<lambda>t. Inr (JStr ''done'')"]
  show ?thesis by (auto simp: dget_def new_conn_def)
qed

section \<open>Results of peers\<close>

lemma result_sig_ok:
  assumes "ed_ok (ed E)" "cache_ok (ed E) n" "CHR ''@'' \<notin> set rid"
  shows "snd (check_result_signature E (take 12 rid @ ''@'' @ r) msg n) = Inr Sig_ok"
proof -
  have "CHR ''@'' \<notin> set (take 12 rid)" by (rule take_no_at) (rule assms(3))
  then have p: "id_prefix (take 12 rid @ CHR ''@'' # r) = take 12 rid" by (simp add: id_prefix_def first_field_append)
  have "id_to_pubkey (ed E) (take 12 rid) = Inl ValueErr"
    by (rule short_id_no_key [OF assms(1)]) simp
  from caller_pubkey [OF assms(2) this] obtain n1 where
    "get_caller_pubkey E (JStr (take 12 rid)) n = (n1, Inr None)"
    by (cases "get_caller_pubkey E (JStr (take 12 rid)) n") auto
  then show ?thesis by (simp add: check_result_signature_def Let_def p)
qed

text \<open>
  C39: the signature of a result is never checked. The manager names a peer by at most 12
  characters of its id, the check decodes those characters as a key, and no key is that
  short: so every result passes, whatever its signature says.
\<close>

theorem result_signature_unchecked:
  assumes "ed_ok (ed E)" "cache_ok (ed E) n" "CHR ''@'' \<notin> set rid"
  shows "snd (check_result_signature E (take 12 rid @ ''@'' @ r) msg n) = Inr Sig_ok"
  using assms by (rule result_sig_ok)

theorem result_signature_unchecked_witness:
  "snd (check_result_signature demo_env ''abc@h:1'' [(''signature'', JStr ''forged'')] demo_node) = Inr Sig_ok"
  using result_signature_unchecked [of demo_env demo_node "''abc''" "''h:1''" "[(''signature'', JStr ''forged'')]"]
    toy_ed_ok demo_cache by simp

section \<open>Queries: answers and forwarding\<close>

lemma on_query_fresh:
  assumes "dget msg ''id'' (JStr []) = q" "hashable q" "map_of (seen_queries n) q = None"
    "dget msg ''origin'' (JStr []) \<noteq> JStr (self_id n)"
  shows "\<exists>sq. on_query E a msg n = answer_or_forward E a msg (n\<lparr>seen_queries := sq\<rparr>)"
proof -
  have "q \<notin> set (dkeys (purge_seen (wall E) (seen_queries n)))"
    using assms(3) by (auto simp: purge_seen_def map_of_eq_None_iff rev_image_eqI)
  then show ?thesis
    using assms by (intro exI [of _ "dset q (wall E) (purge_seen (wall E) (seen_queries n))"])
      (simp add: on_query_def Let_def)
qed

lemma query_nodes_more: "query_nodes E a cap (n\<lparr>seen_queries := sq\<rparr>) = query_nodes E a cap n"
  by (simp add: query_nodes_def)

lemma answers_query:
  assumes "dget msg ''id'' (JStr []) = q" "hashable q" "map_of (seen_queries n) q = None"
    "dget msg ''origin'' (JStr []) \<noteq> JStr (self_id n)"
    "query_nodes E a (dget msg ''capability'' (JStr [])) n \<noteq> []" "live_peer n a i c"
    "encode_frame (query_resp_msg q (query_nodes E a (dget msg ''capability'' (JStr [])) n)) = Inr fr"
  shows "\<exists>n'. on_query E a msg n = (n', None) \<and> conns n' = (conns n)(i \<mapsto> c\<lparr>c_sent := c_sent c @ fr\<rparr>)"
proof -
  obtain sq where q: "on_query E a msg n = answer_or_forward E a msg (n\<lparr>seen_queries := sq\<rparr>)"
    using on_query_fresh [OF assms(1-4)] by blast
  have "live_peer (n\<lparr>seen_queries := sq\<rparr>) a i c" using assms(6) by (simp add: live_peer_def)
  then show ?thesis
    using q send_to_live [of "n\<lparr>seen_queries := sq\<rparr>" a i c] assms(5,7)
    by (simp add: answer_or_forward_def assms(1) Let_def query_nodes_more try_send_def)
qed

text \<open>
  a node that can answer a new query (it has the capability, or knows a peer other than
  the asker) answers with one QUERY_RESP on the asker's connection and forwards nothing.
\<close>

lemma query_answered:
  assumes "dget msg ''id'' (JStr []) = q" "hashable q" "map_of (seen_queries n) q = None"
    "dget msg ''origin'' (JStr []) \<noteq> JStr (self_id n)"
    "has_capability (dget msg ''capability'' (JStr [])) (tracker n) \<or> (\<exists>x \<in> set (known_peers (routing n)). x \<noteq> a)"
    "live_peer n a i c"
    "encode_frame (query_resp_msg q (query_nodes E a (dget msg ''capability'' (JStr [])) n)) = Inr fr"
  shows "conns (fst (on_query E a msg n)) = (conns n)(i \<mapsto> c\<lparr>c_sent := c_sent c @ fr\<rparr>)"
proof -
  have "query_nodes E a (dget msg ''capability'' (JStr [])) n \<noteq> []"
    using assms(5) by (auto simp: query_nodes_def filter_empty_conv)
  from answers_query [OF assms(1-4) this assms(6,7)] show ?thesis by auto
qed

lemma query_answered_witness:
  "\<exists>fr. conns (fst (on_query demo_env ''abc@h:1'' [(''id'', JStr ''q1''), (''capability'', JStr ''x'')]
      (demo_node\<lparr>tracker := register [[(''name'', JStr ''x'')]] [] [] (new_tracker ''public'')\<rparr>))) =
    [0 \<mapsto> (new_conn ''h:1'' 0)\<lparr>c_sent := fr\<rparr>]"
proof -
  let ?m = "[(''id'', JStr ''q1''), (''capability'', JStr ''x'')]"
  let ?n = "demo_node\<lparr>tracker := register [[(''name'', JStr ''x'')]] [] [] (new_tracker ''public'')\<rparr>"
  have "\<exists>fr. encode_frame (query_resp_msg (JStr ''q1'') (query_nodes demo_env ''abc@h:1'' (dget ?m ''capability'' (JStr [])) ?n)) = Inr fr"
    by (rule frame_fits)
      (simp_all add: query_nodes_def query_resp_msg_def known_peers_def empty_table_def wf_dict_def mt.simps MAX_PAYLOAD_SIZE_def)
  then obtain fr where fr: "encode_frame (query_resp_msg (JStr ''q1'') (query_nodes demo_env ''abc@h:1'' (dget ?m ''capability'' (JStr [])) ?n)) = Inr fr" ..
  have l: "live_peer ?n ''abc@h:1'' 0 (new_conn ''h:1'' 0)" using demo_live by (simp add: live_peer_def)
  have c: "has_capability (dget ?m ''capability'' (JStr [])) (tracker ?n)"
    by (simp add: has_capability_def register_def new_tracker_def dget_def)
  from query_answered [OF _ _ _ _ disjI1 [OF c] l fr]
  show ?thesis by (auto simp: dget_def new_conn_def)
qed

text \<open>
  C19: a node that cannot answer a new query forwards it, to every other live peer and never
  back to the asker, with the same id and a time-to-live one less; with a time-to-live of 1
  or less nothing is sent, so every chain of forwarded queries ends.
\<close>

theorem query_forwarded:
  assumes "dget msg ''id'' (JStr []) = q" "hashable q" "map_of (seen_queries n) q = None"
    "dget msg ''origin'' (JStr []) \<noteq> JStr (self_id n)"
    "\<not> has_capability (dget msg ''capability'' (JStr [])) (tracker n)" "\<forall>x \<in> set (known_peers (routing n)). x = a"
    "dget msg ''ttl'' (JInt 5) = JInt ttl"
    "tcp_inv n" "(b, i) \<in> set (peers n)" "conns n i = Some c" "c_alive c" "\<not> c_broken c"
    "encode_frame (query_msg (dget msg ''capability'' (JStr [])) q (JInt (ttl - 1))
       (if py_truthy (dget msg ''origin'' (JStr [])) then dget msg ''origin'' (JStr []) else JStr (self_id n))) = Inr fr"
  shows "conns (fst (on_query E a msg n)) i = Some (if b \<noteq> a \<and> ttl > 1 then c\<lparr>c_sent := c_sent c @ fr\<rparr> else c)"
proof -
  obtain sq where q: "on_query E a msg n = answer_or_forward E a msg (n\<lparr>seen_queries := sq\<rparr>)"
    using on_query_fresh [OF assms(1-4)] by blast
  have "query_nodes E a (dget msg ''capability'' (JStr [])) n = []"
    using assms(5,6) by (simp add: query_nodes_def filter_empty_conv)
  moreover have "tcp_inv (n\<lparr>seen_queries := sq\<rparr>)" using assms(8) by (simp add: tcp_inv_def)
  from broadcast_conns [OF this, of b i c _ fr "[a]"] have bc:
    "conns (broadcast m [a] (n\<lparr>seen_queries := sq\<rparr>)) i = Some (if b = a then c else c\<lparr>c_sent := c_sent c @ fr\<rparr>)"
    if "encode_frame m = Inr fr" for m
    using assms(9-12) that by simp
  ultimately show ?thesis
    using q assms(7,10) bc [OF assms(13)]
    by (cases "ttl > 1") (auto simp: answer_or_forward_def assms(1) Let_def query_nodes_more)
qed

theorem query_forwarded_witness:
  "\<exists>fr. conns (fst (on_query demo_env ''x@h:2'' [(''id'', JStr ''q1''), (''capability'', JStr ''x''), (''ttl'', JInt 3)] demo_node)) 0 =
    Some ((new_conn ''h:1'' 0)\<lparr>c_sent := fr\<rparr>)"
proof -
  let ?m = "[(''id'', JStr ''q1''), (''capability'', JStr ''x''), (''ttl'', JInt 3)]"
  have d: "\<not> py_truthy (dget ?m ''origin'' (JStr []))" "dget ?m ''capability'' (JStr []) = JStr ''x''"
    by (simp_all add: dget_def)
  have "\<exists>fr. encode_frame (query_msg (JStr ''x'') (JStr ''q1'') (JInt (3 - 1)) (JStr (self_id demo_node))) = Inr fr"
    by (rule frame_fits) (simp_all add: query_msg_def wf_dict_def mt.simps MAX_PAYLOAD_SIZE_def show_int_def show_nat.simps [of 2])
  then obtain fr where fr: "encode_frame (query_msg (JStr ''x'') (JStr ''q1'') (JInt (3 - 1)) (JStr (self_id demo_node))) = Inr fr" ..
  have "conns (fst (on_query demo_env ''x@h:2'' ?m demo_node)) 0 =
      Some (if ''abc@h:1'' \<noteq> ''x@h:2'' \<and> (3::int) > 1 then (new_conn ''h:1'' 0)\<lparr>c_sent := c_sent (new_conn ''h:1'' 0) @ fr\<rparr> else new_conn ''h:1'' 0)"
    by (rule query_forwarded [where q = "JStr ''q1''" and ttl = 3])
      (use demo_node_inv(1) d fr in \<open>simp_all add: has_capability_def new_tracker_def known_peers_def empty_table_def new_conn_def dget_def\<close>)
  then show ?thesis by (auto simp: new_conn_def)
qed

section \<open>The handshake\<close>

lemma add_named_items:
  "list_all hashable cs \<Longrightarrow> add_items s (map (\<lambda>c. JObj [(''name'', c)]) cs) = (foldl (\<lambda>s x. set_add x s) s cs, None)"
  by (induction cs arbitrary: s) (simp_all add: item_name_def dget_def)



text \<open>
  an interest update changes what a peer is interested in and nothing it can do: its
  capabilities stay the same, it is found for each of them, and no other peer's routes change.
\<close>

lemma interest_update_keeps_caps:
  assumes "get_peer_caps a (routing n) = (cs, old)" "distinct cs" "list_all hashable cs"
    "py_set (dget msg ''interests'' (JArr [])) = Inr is"
  shows "\<exists>n'. on_interest_update a msg n = (n', None) \<and> get_peer_caps a (routing n') = (cs, is) \<and>
    (\<forall>x. set (fwd (routing n') x) = set (fwd (routing n) x) \<union> (if x \<in> set cs then {a} else {}))"
proof -
  define cj where "cj = JObj [(''agents'', JArr (map (\<lambda>c. JObj [(''name'', c)]) cs)), (''tools'', JArr []), (''models'', JArr [])]"
  have "cap_names [] cj = (set_of cs, None)"
    using add_named_items [OF assms(3), of "[]"] by (simp add: cap_names_def cj_def dget_def set_of_def)
  then have names: "cap_names [] cj = (cs, None)" using assms(2) by simp
  obtain t where reg: "register_peer a cj (dget msg ''interests'' (JArr [])) (routing n) = (t, None)"
    using names assms(4) by (simp add: register_peer_def Let_def)
  then have "get_peer_caps a t = (cs, is)"
    using names assms(4) by (auto simp: register_peer_ok get_peer_caps_def dget_def)
  moreover have "on_interest_update a msg n = (n\<lparr>routing := t\<rparr>, None)"
    using reg assms(1) by (simp add: on_interest_update_def Let_def cj_def)
  ultimately show ?thesis using fwd_register [OF reg names] by simp
qed

lemma interest_update_keeps_caps_witness:
  "\<exists>n'. on_interest_update ''a@h:1'' [(''interests'', JArr [JStr ''y''])]
      (demo_node\<lparr>routing := fst (register_peer ''a@h:1'' (JObj [(''agents'', JArr [JObj [(''name'', JStr ''x'')]])]) (JArr []) empty_table)\<rparr>)
      = (n', None) \<and> get_peer_caps ''a@h:1'' (routing n') = ([JStr ''x''], [JStr ''y''])"
  using interest_update_keeps_caps [of "''a@h:1''"
      "demo_node\<lparr>routing := fst (register_peer ''a@h:1'' (JObj [(''agents'', JArr [JObj [(''name'', JStr ''x'')]])]) (JArr []) empty_table)\<rparr>"
      "[JStr ''x'']" "[]" "[(''interests'', JArr [JStr ''y''])]" "[JStr ''y'']"]
  by (auto simp: dget_def register_peer_def cap_names_def item_name_def set_add_def py_set_def set_of_def bindE_def
      empty_table_def get_peer_caps_def Let_def)

section \<open>The table of peers under the node's dispatcher\<close>

text \<open>
  a peer that announces this node's own id is refused: its connection is closed, it gets
  no entry in the table, and the dispatcher is not called.
\<close>

lemma own_id_refused:
  assumes "dget d ''type'' JNull = JStr (mt HELLO)" "dget d ''node_id'' (JStr []) = JStr rid"
    "take 12 rid = take 12 (self_id n)"
  shows "handle_incoming (handle_message E) pn i (Msg (JObj d)) n = close_conn i n"
  using assms by (simp add: handle_incoming_def check_hello_def)

text \<open>
  C13: at most one connection per id. After an incoming HELLO has been handled, the table maps
  the peer's address to the new connection, and no two entries of the table have the same id
  prefix: an entry left by an earlier connection of the same peer is gone.
\<close>

theorem one_connection_per_id:
  assumes "tcp_inv n" "one_per_id n" "conns n i \<noteq> None" "i \<notin> snd ` set (peers n)"
    "check_hello (self_id n) hello = Inr (Some rid)" "CHR ''@'' \<notin> set rid"
  shows "let n' = handle_incoming (handle_message E) pn i (Msg hello) n in
    tcp_inv n' \<and> one_per_id n' \<and> map_of (peers n') (take 12 rid @ ''@'' @ peername_addr pn) = Some i"
proof -
  let ?a = "take 12 rid @ ''@'' @ peername_addr pn"
  let ?n = "handle_incoming (handle_message E) pn i (Msg hello) n"
  have p: "peers ?n = peers (adopt rid ?a i n)"
  proof -
    obtain s2 e where c: "call_handler (handle_message E) ?a hello (adopt rid ?a i n) = (s2, e)" by fastforce
    then have "peers s2 = peers (adopt rid ?a i n)"
      using node_handler.call_peers [of E ?a hello "adopt rid ?a i n"] by simp
    then show ?thesis
      using assms(5) c by (cases e) (simp_all add: handle_incoming_def Let_def spawn_def)
  qed
  have "one_per_id (adopt rid ?a i n)" by (rule adopt_one [OF assms(1,2,6)]) simp
  then have "one_per_id ?n" using p by (simp add: one_per_id_def)
  moreover have "tcp_inv ?n" by (rule node_handler.handle_incoming_inv [OF assms(1,3,4)])
  moreover have "map_of (peers ?n) ?a = Some i" by (simp add: p adopt_def Let_def)
  ultimately show ?thesis by (simp only: Let_def simp_thms)
qed

theorem one_connection_per_id_witness:
  "map_of (peers (handle_incoming (handle_message demo_env) (Some (''h'', 9)) 1
      (Msg (JObj [(''type'', JStr (mt HELLO)), (''node_id'', JStr ''abc'')]))
      (demo_node\<lparr>conns := (conns demo_node)(1 \<mapsto> new_conn ''h:9'' 0)\<rparr>))) ''abc@h:9'' = Some 1"
proof -
  let ?n = "demo_node\<lparr>conns := (conns demo_node)(1 \<mapsto> new_conn ''h:9'' 0)\<rparr>"
  have i: "tcp_inv ?n" "one_per_id ?n" using demo_node_inv by (simp_all add: tcp_inv_def one_per_id_def)
  have "length (take 12 ''abc'') \<noteq> length (take 12 (self_id ?n))" by simp
  then have "take 12 ''abc'' \<noteq> take 12 (self_id ?n)" by (rule contrapos_nn) (rule arg_cong [where f = length])
  then have h: "check_hello (self_id ?n) (JObj [(''type'', JStr (mt HELLO)), (''node_id'', JStr ''abc'')]) = Inr (Some ''abc'')"
    by (simp add: check_hello_def dget_def bindE_def)
  have p9: "show_nat 9 = ''9''" by code_simp
  show ?thesis
    using one_connection_per_id [OF i _ _ h, of 1 demo_env "Some (''h'', 9)"]
    by (simp add: Let_def peername_addr_def p9)
qed

lemma set_known_remove: "set (known_peers (remove_peer a t)) = set (known_peers t) - {a}"
  by (auto simp: known_peers_def remove_peer_def Let_def)

lemma call_bye_notice:
  assumes "has_handler n"
  shows "\<exists>n'. call_handler (handle_message E) a bye_notice n = (n', None) \<and> peers n' = peers n \<and>
    has_handler n' \<and> routing n' = remove_peer a (routing n)"
proof -
  have "handle_message E a bye_notice n = (on_bye a (count_message (mono E) a (JStr (mt BYE)) n), None)"
    unfolding bye_notice_def by (rule bye_always) (simp add: dget_def)
  then show ?thesis
    using assms keeps_bye [OF keeps_count, of n a "mono E" a "JStr (mt BYE)"]
    by (simp add: call_handler_def keeps_table_def)
qed

lemma purge_known:
  "has_handler n \<Longrightarrow> set (known_peers (routing (fst (purge_dead (handle_message E) as n)))) =
     set (known_peers (routing n)) - {a \<in> set as. a \<in> set (peer_addresses n)}"
proof (induction as arbitrary: n)
  case (Cons a as)
  show ?case
  proof (cases "map_of (peers n) a")
    case None
    then have "a \<notin> set (peer_addresses n)" by (simp add: peer_addresses_def map_of_eq_None_iff)
    moreover have "purge_dead (handle_message E) (a # as) n = purge_dead (handle_message E) as n"
      using None by simp
    ultimately show ?thesis using Cons.IH [OF Cons.prems] by auto
  next
    case (Some i)
    define n1 where "n1 = close_conn i (n\<lparr>peers := dpop a (peers n)\<rparr>)"
    have n1: "has_handler n1" "peers n1 = dpop a (peers n)" "routing n1 = routing n"
      using Cons.prems by (simp_all add: n1_def close_conn_def upd_conn_def)
    obtain n2 where n2: "call_handler (handle_message E) a bye_notice n1 = (n2, None)" "peers n2 = peers n1"
      "has_handler n2" "routing n2 = remove_peer a (routing n1)"
      using call_bye_notice [OF n1(1)] by blast
    have "a \<in> fst ` set (peers n)" using Some by (auto dest: map_of_SomeD simp: rev_image_eqI)
    moreover have "purge_dead (handle_message E) (a # as) n = purge_dead (handle_message E) as n2"
      using Some n2(1) by (simp add: n1_def)
    ultimately show ?thesis
      using Cons.IH [OF n2(3)] n2 n1 by (auto simp: peer_addresses_def set_known_remove set_dpop)
  qed
qed simp

text \<open>
  C32: the heartbeat removes exactly the dead peers. It never fails, and afterwards the table
  holds, in the same order, the peers the heartbeat could be sent to and that were heard of in
  the last 90 seconds; the others are gone from the interest table too, and no one else is.
\<close>

theorem heartbeat_purges_dead:
  assumes "order_ok ord" "tcp_inv n" "has_handler n"
  shows "let hb = heartbeat_msg (JStr (self_id n)) ts;
             n' = fst (heartbeat_tick ord (handle_message E) now ts n)
    in snd (heartbeat_tick ord (handle_message E) now ts n) = None \<and>
       peers n' = filter (\<lambda>kv. \<not> heartbeat_dead now hb n (snd kv)) (peers n) \<and>
       set (known_peers (routing n')) =
         set (known_peers (routing n)) - fst ` {kv \<in> set (peers n). heartbeat_dead now hb n (snd kv)}"
proof -
  let ?hb = "heartbeat_msg (JStr (self_id n)) ts"
  obtain n1 dead where sc: "heartbeat_scan now ?hb (peers n) n = (n1, dead)" by fastforce
  have dist: "distinct (map snd (peers n))" using assms(2) by (simp add: tcp_inv_def)
  have dead: "set dead = fst ` set (filter (\<lambda>kv. heartbeat_dead now ?hb n (snd kv)) (peers n))"
    using heartbeat_scan_dead [OF dist, of now ?hb n] sc by simp
  have k: "keeps_table n n1" using node_handler.heartbeat_scan_keeps [of n now ?hb "peers n"] sc by simp
  have "routing n1 = routing n" using same_more(1) [OF more_heartbeat_scan, of now ?hb "peers n" n] sc by simp
  then show ?thesis
    using node_quiet.heartbeat_tick_peers [OF assms(1,2), of E now ts]
      purge_known [of n1 E "ord (set_of dead)"] k sc assms(1,3) dead
    by (auto simp: Let_def heartbeat_tick_def keeps_table_def peer_addresses_def)
qed

theorem heartbeat_purges_dead_witness:
  "peers (fst (heartbeat_tick (\<lambda>xs. xs) (handle_message demo_env) 100 100 demo_node)) = []"
  using heartbeat_purges_dead [OF order_ok_id demo_node_inv(1), where now = 100 and ts = 100 and E = demo_env]
  by (simp add: Let_def heartbeat_dead_def new_conn_def HEARTBEAT_IDLE_TIMEOUT_def)

section \<open>Two weaknesses of the connection table\<close>

text \<open>
  the guard against dialling a connected peer again never fires, because the table's keys
  carry the id and the guard compares bare addresses: dialling the very address of a connected
  peer opens a second connection.
\<close>

lemma connected_peer_dialled_again:
  assumes "tcp_inv n" "a \<in> set (peer_addresses n)" "dial_target (tcp_port n) a = Inr (Some (host, p))"
    "CHR ''@'' \<notin> set host" "\<not> (p = tcp_port n \<and> host \<in> set loopback)" "conns n i = None"
  shows "conns (fst (connect_to_peer (handle_message E) now a [] (Opened i ack) n)) i \<noteq> None"
proof -
  have "CHR ''@'' \<notin> set (show_nat p)" by (auto dest: show_nat_digits simp: is_dig_def)
  then have "CHR ''@'' \<notin> set (canonical_addr host p)" using assms(4) by (simp add: canonical_addr_def)
  then have "canonical_addr host p \<notin> set (peer_addresses n)"
    using assms(1) by (auto simp: tcp_inv_def peer_addresses_def)
  then have c: "connect_to_peer (handle_message E) now a [] (Opened i ack) n =
      finish_connect (handle_message E) (canonical_addr host p) i ack
        (n\<lparr>conns := (conns n)(i \<mapsto> new_conn (canonical_addr host p) now)\<rparr>)"
    using assms(3,5) by (auto simp: connect_to_peer_def Let_def)
  show ?thesis
    unfolding c by (rule node_handler.finish_connect_conns) simp
qed



end
