(* ===== verification/Node_Ops.thy ===== *)
theory Node_Ops
  imports Node_Props
begin

text \<open>
  \<open>elo/node.py\<close>, the operations an application or a background task starts: registering
  capabilities, connecting, sending tasks (directly, after a query, or through a tracker),
  the retry queue, reconnection and discovery. A coroutine that waits is split where it
  waits: a start step returns what it waits for and a resume step goes on from there, so any
  handler may run in between.
\<close>

section \<open>Registering and connecting\<close>

definition name_caps :: "string list \<Rightarrow> pydict list" where
  "name_caps ns = map (\<lambda>x. [(''name'', JStr x)]) ns"

text \<open>\<open>agent_details or [{"name": a} for a in (agents or [])]\<close>\<close>

definition chosen_caps :: "pydict list \<Rightarrow> string list \<Rightarrow> pydict list" where
  "chosen_caps details ns = (if details \<noteq> [] then details else name_caps ns)"

definition health_cap :: pydict where
  "health_cap = [(''name'', JStr ''health''), (''description'', JStr ''Built-in health check'')]"

definition with_health :: "pydict list \<Rightarrow> pydict list" where
  "with_health tls = (if list_ex (\<lambda>t. dget t ''name'' JNull = JStr ''health'') tls then tls else tls @ [health_cap])"

definition node_register :: "pydict list \<Rightarrow> pydict list \<Rightarrow> pydict list \<Rightarrow> node \<Rightarrow> node \<times> exn option" where
  "node_register agent_caps model_caps tool_caps n =
     (let tls = with_health tool_caps;
          n1 = n\<lparr>tracker := register agent_caps model_caps tls (tracker n)\<rparr>
      in case set_local_caps (caps (tracker n1)) (routing n1) of
           (t, Some e) \<Rightarrow> (n1\<lparr>routing := t\<rparr>, Some e)
         | (t, None) \<Rightarrow>
             (let interests = map (\<lambda>c. dget c ''name'' (JStr [])) (agent_caps @ tls);
                  n2 = n1\<lparr>routing := t, tracker := set_interests interests (tracker n1)\<rparr>
              in case set_local_interests interests (routing n2) of
                   Inl e \<Rightarrow> (n2, Some e)
                 | Inr t' \<Rightarrow> (broadcast (interest_update_msg interests) [] (n2\<lparr>routing := t'\<rparr>), None)))"

definition register_call :: "pydict list \<Rightarrow> string list \<Rightarrow> pydict list \<Rightarrow> string list \<Rightarrow>
    pydict list \<Rightarrow> string list \<Rightarrow> node \<Rightarrow> node \<times> exn option" where
  "register_call ads ags mds mns tds tns n =
     node_register (chosen_caps ads ags) (chosen_caps mds mns) (chosen_caps tds tns) n"

definition set_task_handler :: "(task \<Rightarrow> exn + json) \<Rightarrow> node \<Rightarrow> node" where [simp]:
  "set_task_handler f n = n\<lparr>task_handler := Some f\<rparr>"

definition dial :: "env \<Rightarrow> (string \<Rightarrow> dial_result) \<Rightarrow> pydict \<Rightarrow> string \<Rightarrow> node \<Rightarrow> node \<times> (exn + string option)" where
  "dial E net hello a n = connect_to_peer (handle_message E) (mono E) a hello (net a) n"

fun dial_all :: "env \<Rightarrow> (string \<Rightarrow> dial_result) \<Rightarrow> pydict \<Rightarrow> string list \<Rightarrow> node \<Rightarrow> node \<times> exn option" where
  "dial_all E net hello [] n = (n, None)"
| "dial_all E net hello (a # as) n = (case dial E net hello a n of
     (n1, Inl e) \<Rightarrow> (n1, Some e)
   | (n1, Inr _) \<Rightarrow> dial_all E net hello as n1)"

fun dial_each :: "env \<Rightarrow> (string \<Rightarrow> dial_result) \<Rightarrow> pydict \<Rightarrow> string list \<Rightarrow> node \<Rightarrow> node" where
  "dial_each E net hello [] n = n"
| "dial_each E net hello (a # as) n = dial_each E net hello as (fst (dial E net hello a n))"

definition announce :: "bool \<Rightarrow> node \<Rightarrow> node" where
  "announce ok n = n\<lparr>discovery := map_option (lan_announce ok) (discovery n)\<rparr>"

text \<open>The server and the discovery on the local network start.\<close>

definition begin_connect :: "env \<Rightarrow> nat \<Rightarrow> node \<Rightarrow> node" where
  "begin_connect E assigned n =
     (let n0 = on_message (fst (start assigned n))
      in n0\<lparr>discovery := Some (lan_start (multicast E) (new_lan (self_id n0) (tcp_port n0)))\<rparr>)"

text \<open>
  \<open>connect\<close>: listed peers, else the tracker, else the cached peers. A dial that the code's own
  timeout cuts off counts as refused. Discovery on the local network starts first; only a node
  without listed peers announces itself at once.
\<close>

definition node_connect :: "env \<Rightarrow> nat \<Rightarrow> (string \<Rightarrow> dial_result) \<Rightarrow> node \<Rightarrow> node \<times> exn option" where
  "node_connect E assigned net n =
     (if connected n then (n, None)
      else
        (let n1 = begin_connect E assigned n; hello = build_hello_msg E n1 in
         if initial_peers n1 \<noteq> [] then dial_all E net hello (initial_peers n1) n1
         else
           (let (n2, ok) =
              (if tracker_host n1 = [] then (n1, False)
               else (case dial E net hello (tracker_host n1) n1 of
                       (n', Inr (Some a)) \<Rightarrow> (n', a \<noteq> [])
                     | (n', _) \<Rightarrow> (n', False)))
            in (announce (multicast E)
                  (if ok then n2 else dial_each E net hello (load_last_peers (last_peers n2)) n2), None))))"

definition node_disconnect :: "node \<Rightarrow> node" where
  "node_disconnect n = stop (n\<lparr>shutdown_event := True, discovery := map_option lan_stop (discovery n)\<rparr>)"

definition publish_event :: "env \<Rightarrow> string \<Rightarrow> string \<Rightarrow> json \<Rightarrow> string \<Rightarrow> node \<Rightarrow> node \<times> exn option" where
  "publish_event E event_type target data eid n =
     (if \<not> connected n then (n, Some RuntimeErr)
      else
        (let event = [(''type'', JStr (mt EVENT)), (''event_type'', JStr event_type), (''data'', if py_truthy data then data else JObj []),
                      (''id'', JStr eid), (''protocol'', JStr ''elo.v1''), (''timestamp'', JInt \<lfloor>wall E\<rfloor>)]
         in if target \<noteq> [] \<and> target \<in> set (peer_addresses n) then send_to target event n
            else (broadcast event [] n, None)))"

section \<open>Known peers, local view\<close>

definition local_peers :: "env \<Rightarrow> node \<Rightarrow> (string \<times> pydict) list" where
  "local_peers E n =
     foldl (\<lambda>r a. let cs = JArr (ord_val E (fst (get_peer_caps a (routing n)))) in
         (case map_of r a of
            Some d \<Rightarrow> dset a (dset ''via'' (JStr ''both'') (dset ''caps'' cs d)) r
          | None \<Rightarrow> dset a [(''addr'', JStr a), (''connected'', JBool False), (''caps'', cs),
                            (''via'', JStr ''routing'')] r))
       (foldl (\<lambda>r a. dset a [(''addr'', JStr a), (''connected'', JBool True), (''caps'', JArr []),
                             (''via'', JStr ''tcp'')] r) [] (peer_addresses n))
       (known_peers (routing n))"

definition get_known_peers_local :: "env \<Rightarrow> node \<Rightarrow> json list" where
  "get_known_peers_local E n = map (\<lambda>kv. JObj (snd kv)) (local_peers E n)"

definition discover_peers :: "env \<Rightarrow> node \<Rightarrow> json list" where
  "discover_peers E n = get_known_peers_local E n"

section \<open>Sending tasks\<close>

record send_req =
  sr_target :: json
  sr_capability :: json
  sr_payload :: json
  sr_ttl :: json
  sr_bypass :: bool

text \<open>What the coroutine of one send waits for, or how it ended.\<close>

datatype send_state =
    Finished result
  | Failed exn
  | Wait_result string send_req
  | Wait_relay string string send_req
  | Wait_query string string pydict send_req

definition signed_task :: "env \<Rightarrow> string \<Rightarrow> json \<Rightarrow> json \<Rightarrow> json \<Rightarrow> node \<Rightarrow> pydict" where
  "signed_task E tid target capability payload n =
     (let d = dpop ''signature''
            (task_msg (JStr tid) target (JStr (self_id n)) capability payload [] \<lfloor>wall E\<rfloor>)
      in dset ''signature'' (JStr (identity_sign (ed E) (ident n) d)) d)"

text \<open>The first connected peer whose address starts with the first 12 characters of an id.\<close>

definition peer_with_id :: "string \<Rightarrow> node \<Rightarrow> string option" where
  "peer_with_id nid n = find (\<lambda>a. starts_with a (take 12 nid @ ''@'')) (peer_addresses n)"

text \<open>
  The search for a given target: without any connected peer the loop does not run, so the
  target may be any value; otherwise it must be a string.
\<close>

definition target_peer :: "json \<Rightarrow> node \<Rightarrow> exn + string option" where
  "target_peer target n =
     (if peer_addresses n = [] then Inr None
      else bindE (py_str target) (\<lambda>nid. Inr (peer_with_id nid n)))"

definition error_result :: "string \<Rightarrow> string \<Rightarrow> string \<Rightarrow> result" where
  "error_result tid code m = make_error (JStr tid) (JStr code) (JStr m)"

text \<open>
  The end of \<open>send_task\<close>: any error result is queued for a retry, unless the caller is the
  retry itself. \<open>created\<close> is the clock reading stored with the task.
\<close>

definition finish_send :: "env \<Rightarrow> pyfloat \<Rightarrow> string \<Rightarrow> send_req \<Rightarrow> result \<Rightarrow> node \<Rightarrow> node \<times> send_state" where
  "finish_send E created tid req r n =
     (if r_status r = ''error'' \<and> \<not> sr_bypass req then
        (n\<lparr>pending_queue := enqueue (queue_io E)
             \<lparr>p_task_id = JStr tid, p_target_node = sr_target req, p_capability = sr_capability req,
              p_payload = sr_payload req, p_created_at = JFloat created, p_retries = JInt 0,
              p_ttl_s = sr_ttl req\<rparr> (pending_queue n)\<rparr>,
         Finished (error_result tid ''QUEUED'' ''Target offline, task queued for retry''))
      else (n, Finished r))"

text \<open>\<open>_wait_for_result\<close>, first half: the future is registered.\<close>

definition expect_result :: "string \<Rightarrow> node \<Rightarrow> node" where
  "expect_result tid n = n\<lparr>pending_results := dset tid None (pending_results n)\<rparr>"

definition send_direct :: "env \<Rightarrow> pyfloat \<Rightarrow> string \<Rightarrow> string \<Rightarrow> pydict \<Rightarrow> send_req \<Rightarrow> node \<Rightarrow> node \<times> send_state" where
  "send_direct E created tid peer m req n =
     (case send_to peer m n of
        (n1, Some e) \<Rightarrow> finish_send E created tid req (error_result tid ''SEND_ERROR'' (exn_text E e)) n1
      | (n1, None) \<Rightarrow> (expect_result tid n1, Wait_result tid req))"

text \<open>\<open>send_task_via_tracker\<close> up to its wait: the relay task and its id, or an error result.\<close>

definition via_tracker :: "env \<Rightarrow> string \<Rightarrow> string \<Rightarrow> json \<Rightarrow> json \<Rightarrow> json \<Rightarrow> json \<Rightarrow> node \<Rightarrow>
    node \<times> (exn + result option)" where
  "via_tracker E rtid tracker_node target capability payload ttl n =
     (let relay_payload = JObj [(''target'', target), (''capability'', capability), (''payload'', payload),
                                (''ttl_s'', ttl)];
          m = signed_task E rtid (JStr tracker_node) (JStr ''relay'') relay_payload n
      in case (if tracker_node \<noteq> [] then Inr (Some tracker_node)
               else find_peer_for (ord_addr E) (JStr ''relay'') (routing n)) of
           Inl e \<Rightarrow> (n, Inl e)
         | Inr None \<Rightarrow> (n, Inr (Some (error_result rtid ''NO_TRACKER'' ''No tracker peer found'')))
         | Inr (Some p) \<Rightarrow>
             (let peer = (if p \<noteq> [] \<and> CHR ''@'' \<notin> set p
                          then (case peer_with_id p n of Some a \<Rightarrow> a | None \<Rightarrow> p) else p)
              in if peer = [] then (n, Inr (Some (error_result rtid ''NO_TRACKER'' ''No tracker peer found'')))
                 else (case send_to peer m n of
                   (n1, Some e) \<Rightarrow> (n1, Inr (Some (error_result rtid ''RELAY_ERROR'' (exn_text E e))))
                 | (n1, None) \<Rightarrow> (expect_result rtid n1, Inr None))))"

text \<open>\<open>_query_capability\<close> up to its wait.\<close>

definition query_capability :: "json \<Rightarrow> int \<Rightarrow> string \<Rightarrow> node \<Rightarrow> node" where [simp]:
  "query_capability capability ttl qid n =
     broadcast (query_msg capability (JStr qid) (JInt ttl) (JStr [])) []
       (n\<lparr>pending_queries := dset qid ([], False) (pending_queries n)\<rparr>)"

text \<open>
  \<open>send_task\<close> up to its first wait. \<open>tid\<close>, \<open>rtid\<close> and \<open>qid\<close> are the fresh ids of the task, of
  the relay task and of the query.
\<close>

definition send_task :: "env \<Rightarrow> pyfloat \<Rightarrow> string \<Rightarrow> string \<Rightarrow> string \<Rightarrow> send_req \<Rightarrow> node \<Rightarrow> node \<times> send_state" where
  "send_task E created tid rtid qid req n =
     (if \<not> connected n then (n, Failed RuntimeErr)
      else
        (let m = signed_task E tid (sr_target req) (sr_capability req) (sr_payload req) n in
         if py_truthy (sr_target req) then
           (case target_peer (sr_target req) n of
              Inl e \<Rightarrow> (n, Failed e)
            | Inr (Some a) \<Rightarrow> send_direct E created tid a m req n
            | Inr None \<Rightarrow>
                (case via_tracker E rtid [] (sr_target req) (sr_capability req) (sr_payload req) (sr_ttl req) n of
                   (n1, Inl e) \<Rightarrow> (n1, Failed e)
                 | (n1, Inr (Some r)) \<Rightarrow> finish_send E created tid req r n1
                 | (n1, Inr None) \<Rightarrow> (n1, Wait_relay tid rtid req)))
         else
           (case find_peer_for (ord_addr E) (sr_capability req) (routing n) of
              Inl e \<Rightarrow> (n, Failed e)
            | Inr (Some a) \<Rightarrow> send_direct E created tid a m req n
            | Inr None \<Rightarrow>
                (query_capability (sr_capability req) 5 qid n, Wait_query qid tid m req))))"

text \<open>
  The waits. A future is over when its result is set or after 30 s (\<open>timed_out\<close>), a query
  when its event is set or after its timeout; both entries are removed then.
\<close>

definition take_result :: "bool \<Rightarrow> string \<Rightarrow> node \<Rightarrow> node \<times> result option" where
  "take_result timed_out tid n =
     (case map_of (pending_results n) tid of
        Some (Some r) \<Rightarrow> (n\<lparr>pending_results := dpop tid (pending_results n)\<rparr>, Some r)
      | _ \<Rightarrow> if timed_out
             then (n\<lparr>pending_results := dpop tid (pending_results n)\<rparr>, Some (error_result tid ''TIMEOUT'' ''No response''))
             else (n, None))"

definition take_query :: "bool \<Rightarrow> string \<Rightarrow> node \<Rightarrow> node \<times> json list option" where
  "take_query timed_out qid n =
     (case map_of (pending_queries n) qid of
        None \<Rightarrow> (n, if timed_out then Some [] else None)
      | Some (collected, ev) \<Rightarrow>
          if ev \<or> timed_out then (n\<lparr>pending_queries := dpop qid (pending_queries n)\<rparr>, Some collected)
          else (n, None))"

text \<open>\<open>collected[0].get("addr", None)\<close>.\<close>

definition query_answer :: "json list \<Rightarrow> exn + json" where
  "query_answer collected = (case collected of [] \<Rightarrow> Inr JNull | x # _ \<Rightarrow> py_get x ''addr'' JNull)"

definition resume_send :: "env \<Rightarrow> pyfloat \<Rightarrow> bool \<Rightarrow> send_state \<Rightarrow> node \<Rightarrow> node \<times> send_state" where
  "resume_send E created timed_out st n =
     (case st of
        Finished r \<Rightarrow> (n, st)
      | Failed e \<Rightarrow> (n, st)
      | Wait_result tid req \<Rightarrow>
          (case take_result timed_out tid n of
             (n1, None) \<Rightarrow> (n1, st)
           | (n1, Some r) \<Rightarrow> finish_send E created tid req r n1)
      | Wait_relay tid rtid req \<Rightarrow>
          (case take_result timed_out rtid n of
             (n1, None) \<Rightarrow> (n1, st)
           | (n1, Some r) \<Rightarrow> finish_send E created tid req r n1)
      | Wait_query qid tid m req \<Rightarrow>
          (case take_query timed_out qid n of
             (n1, None) \<Rightarrow> (n1, st)
           | (n1, Some collected) \<Rightarrow>
               (case query_answer collected of
                  Inl e \<Rightarrow> (n1, Failed e)
                | Inr peer \<Rightarrow>
                    if \<not> py_truthy peer then
                      finish_send E created tid req (error_result tid ''NO_PEER''
                        (''No peer for: '' @ py_format (repr_text E) (sr_capability req))) n1
                    else (case peer of
                      JStr a \<Rightarrow> send_direct E created tid a m req n1
                    | _ \<Rightarrow> finish_send E created tid req (error_result tid ''SEND_ERROR''
                             (exn_text E (if hashable peer then ConnectionErr else TypeErr))) n1))))"

definition send_task_async :: "env \<Rightarrow> string \<Rightarrow> json \<Rightarrow> json \<Rightarrow> string \<Rightarrow> node \<Rightarrow> node \<times> (exn + string)" where
  "send_task_async E target capability payload tid n =
     (if \<not> connected n then (n, Inl RuntimeErr)
      else
        (let m = signed_task E tid (JStr target) capability payload n in
         case (if target \<noteq> [] then Inr (Some target)
               else find_peer_for (ord_addr E) capability (routing n)) of
           Inl e \<Rightarrow> (n, Inl e)
         | Inr (Some p) \<Rightarrow> (try_send p m n, Inr tid)
         | Inr None \<Rightarrow> (broadcast m [] n, Inr tid)))"

section \<open>The retry queue\<close>

text \<open>
  The loop of \<open>_flush_pending\<close> over the loaded tasks: expired tasks are dropped, tasks with a
  peer or a relay are started, the others are kept with one retry more. An exception leaves
  the loop, after the tasks before it have been started.
\<close>

definition task_peer :: "env \<Rightarrow> pending_task \<Rightarrow> node \<Rightarrow> exn + string option" where
  "task_peer E t n =
     (if py_truthy (p_target_node t)
      then target_peer (p_target_node t) n
      else find_peer_for (ord_addr E) (p_capability t) (routing n))"

definition can_retry :: "env \<Rightarrow> pending_task \<Rightarrow> node \<Rightarrow> exn + bool" where
  "can_retry E t n =
     bindE (task_peer E t n) (\<lambda>p. if p \<noteq> None then Inr True
       else bindE (find_peer_for (ord_addr E) (JStr ''relay'') (routing n)) (\<lambda>q. Inr (q \<noteq> None)))"

fun flush_loop :: "env \<Rightarrow> pending_task list \<Rightarrow> node \<Rightarrow>
    (pending_task list \<times> pending_task list) \<times> exn option" where
  "flush_loop E [] n = (([], []), None)"
| "flush_loop E (t # ts) n =
     (case py_num (p_created_at t) of
        Inl e \<Rightarrow> (([], []), Some e)
      | Inr created \<Rightarrow>
          if wall E - created > 600 then flush_loop E ts n
          else (case can_retry E t n of
             Inl e \<Rightarrow> (([], []), Some e)
           | Inr True \<Rightarrow> (case flush_loop E ts n of ((sent, rem), e) \<Rightarrow> ((t # sent, rem), e))
           | Inr False \<Rightarrow>
               (case py_incr (p_retries t) of
                  Inl e \<Rightarrow> (([], []), Some e)
                | Inr r \<Rightarrow> (case flush_loop E ts n of ((sent, rem), e) \<Rightarrow>
                    ((sent, t\<lparr>p_retries := r\<rparr> # rem), e)))))"

definition flush_pending :: "env \<Rightarrow> node \<Rightarrow> node" where
  "flush_pending E n =
     (if flushing_pending n then n
      else
        (let ts = load_all (queue_io E) (pending_queue n) in
         if ts = [] then n
         else (case flush_loop E ts n of ((sent, rem), e) \<Rightarrow>
           (let n1 = foldl (\<lambda>n t. spawn (RetryTask t) n) n sent in
            if e = None \<and> (sent \<noteq> [] \<or> length rem \<noteq> length ts)
            then n1\<lparr>pending_queue := save_all (queue_io E) rem (pending_queue n1)\<rparr> else n1))))"

text \<open>\<open>_retry_single_task\<close>: a send that skips the queue, and what follows its end.\<close>

definition retry_req :: "pending_task \<Rightarrow> send_req" where
  "retry_req t = \<lparr>sr_target = p_target_node t, sr_capability = p_capability t, sr_payload = p_payload t,
     sr_ttl = p_ttl_s t, sr_bypass = True\<rparr>"

definition retry_finish :: "env \<Rightarrow> pending_task \<Rightarrow> result \<Rightarrow> node \<Rightarrow> node" where
  "retry_finish E t r n =
     (if r_status r = ''error'' then
        (case py_num (p_created_at t) of
           Inl _ \<Rightarrow> n
         | Inr created \<Rightarrow>
             if wall E - created \<le> 600 then
               (let ts = load_all (queue_io E) (pending_queue n) in
                if list_ex (\<lambda>x. p_task_id x = p_task_id t) ts then n
                else (case py_incr (p_retries t) of
                        Inl _ \<Rightarrow> n
                      | Inr k \<Rightarrow> n\<lparr>pending_queue := save_all (queue_io E) (ts @ [t\<lparr>p_retries := k\<rparr>]) (pending_queue n)\<rparr>))
             else n)
      else n)"

section \<open>Reconnecting\<close>

datatype reconnect_state = Reconnect_done | Sleeping nat

definition is_connected_to :: "string \<Rightarrow> node \<Rightarrow> bool" where
  "is_connected_to a n \<longleftrightarrow> list_ex (\<lambda>c. raw_address c = a) (peer_addresses n)"

definition leave_reconnect :: "string \<Rightarrow> node \<Rightarrow> node" where
  "leave_reconnect a n = n\<lparr>reconnecting_peers := set_discard a (reconnecting_peers n)\<rparr>"

text \<open>The head of the loop, down to the sleep of \<open>min(2 ** attempts, 30)\<close> seconds.\<close>

definition reconnect_head :: "string \<Rightarrow> node \<Rightarrow> node \<times> reconnect_state" where
  "reconnect_head a n =
     (if shutdown_event n then (leave_reconnect a n, Reconnect_done)
      else if is_connected_to a n
        then (leave_reconnect a (n\<lparr>reconnect_backoff := dset a 0 (reconnect_backoff n)\<rparr>), Reconnect_done)
      else
        (let attempts = dget (reconnect_backoff n) a 0 in
         (n\<lparr>reconnect_backoff := dset a (attempts + 1) (reconnect_backoff n)\<rparr>,
          Sleeping (min (2 ^ attempts) 30))))"

definition reconnect_start :: "string \<Rightarrow> node \<Rightarrow> node \<times> reconnect_state" where
  "reconnect_start a n =
     (if a \<in> set (reconnecting_peers n) then (n, Reconnect_done)
      else reconnect_head a (n\<lparr>reconnecting_peers := set_add a (reconnecting_peers n)\<rparr>))"

text \<open>After the sleep: dial, and go round again when nobody answers.\<close>

definition reconnect_wake :: "env \<Rightarrow> dial_result \<Rightarrow> string \<Rightarrow> node \<Rightarrow> node \<times> reconnect_state" where
  "reconnect_wake E net a n =
     (if shutdown_event n then (leave_reconnect a n, Reconnect_done)
      else (case dial E (\<lambda>_. net) (build_hello_msg E n) a n of
        (n1, Inl _) \<Rightarrow> (leave_reconnect a n1, Reconnect_done)
      | (n1, Inr res) \<Rightarrow>
          if res \<noteq> None \<and> res \<noteq> Some []
          then (leave_reconnect a (n1\<lparr>reconnect_backoff := dset a 0 (reconnect_backoff n1)\<rparr>), Reconnect_done)
          else reconnect_head a n1))"

section \<open>Discovery on the local network\<close>

text \<open>A datagram arrives: the peer it reveals is looked at in the background.\<close>

definition node_datagram :: "env \<Rightarrow> byte list \<Rightarrow> string \<Rightarrow> node \<Rightarrow> node" where
  "node_datagram E bytes ip n =
     (case discovery n of
        None \<Rightarrow> n
      | Some l \<Rightarrow> (case lan_receive (repr_text E) bytes ip l of
          None \<Rightarrow> n
        | Some (nid, a) \<Rightarrow> spawn (Discovered nid a) n))"

definition node_announce_round :: "env \<Rightarrow> node \<Rightarrow> node" where
  "node_announce_round E n = n\<lparr>discovery := map_option (\<lambda>l. fst (lan_round (multicast E) l)) (discovery n)\<rparr>"

text \<open>The search of \<open>_on_discovered_peer\<close>: is the peer connected already?\<close>

fun lan_known :: "json \<Rightarrow> string \<Rightarrow> string list \<Rightarrow> exn + bool" where
  "lan_known nid peer_addr [] = Inr False"
| "lan_known nid peer_addr (a # as) =
     (if ends_with a peer_addr then Inr True
      else bindE (py_str nid) (\<lambda>s. if starts_with a (take 12 s @ ''@'') then Inr True else lan_known nid peer_addr as))"

text \<open>An exception ends the background task and changes nothing.\<close>

definition on_discovered_peer :: "env \<Rightarrow> dial_result \<Rightarrow> json \<Rightarrow> string \<Rightarrow> node \<Rightarrow> node" where
  "on_discovered_peer E net nid peer_addr n =
     (case lan_known nid peer_addr (peer_addresses n) of
        Inr False \<Rightarrow> fst (dial E (\<lambda>_. net) (build_hello_msg E n) peer_addr n)
      | _ \<Rightarrow> n)"

section \<open>Discovery through the network\<close>

text \<open>
  \<open>discover_peers_network\<close>: a query for any capability, then the addresses the responses name,
  the first entry for an address winning, then the local view on top.
\<close>

definition discover_start :: "string \<Rightarrow> node \<Rightarrow> node" where
  "discover_start qid n =
     broadcast (query_msg (JStr []) (JStr qid) (JInt 3) (JStr (self_id n))) []
       (n\<lparr>pending_queries := dset qid ([], False) (pending_queries n)\<rparr>)"

definition merge_found :: "(json \<times> pydict) list \<Rightarrow> json \<Rightarrow> exn + (json \<times> pydict) list" where
  "merge_found d entry =
     bindE (py_get entry ''addr'' (JStr [])) (\<lambda>addr.
       if \<not> py_truthy addr then Inr d
       else if \<not> hashable addr then Inl TypeErr
       else if addr \<in> set (dkeys d) then Inr d
       else bindE (py_get entry ''node_id'' (JStr [])) (\<lambda>nid.
            bindE (py_get entry ''caps'' (JArr [])) (\<lambda>cs.
              Inr (dset addr [(''addr'', addr), (''node_id'', nid), (''caps'', cs), (''connected'', JBool False),
                              (''via'', JStr ''network'')] d))))"

fun merge_all_found :: "(json \<times> pydict) list \<Rightarrow> json list \<Rightarrow> exn + (json \<times> pydict) list" where
  "merge_all_found d [] = Inr d"
| "merge_all_found d (x # xs) = bindE (merge_found d x) (\<lambda>d'. merge_all_found d' xs)"

definition dict_update :: "pydict \<Rightarrow> pydict \<Rightarrow> pydict" where
  "dict_update old new = foldl (\<lambda>d (k, v). dset k v d) old new"

definition merge_local :: "(json \<times> pydict) list \<Rightarrow> string \<times> pydict \<Rightarrow> (json \<times> pydict) list" where
  "merge_local d e = (case e of (a, entry) \<Rightarrow>
     (case map_of d (JStr a) of
        None \<Rightarrow> dset (JStr a) entry d
      | Some old \<Rightarrow> dset (JStr a) (dict_update old entry) d))"

definition discover_finish :: "env \<Rightarrow> json list \<Rightarrow> node \<Rightarrow> exn + json list" where
  "discover_finish E collected n =
     bindE (merge_all_found [] collected) (\<lambda>d.
       Inr (map (\<lambda>kv. JObj (snd kv)) (foldl merge_local d (local_peers E n))))"

definition discover_resume :: "env \<Rightarrow> bool \<Rightarrow> string \<Rightarrow> node \<Rightarrow> node \<times> (exn + json list) option" where
  "discover_resume E timed_out qid n =
     (case take_query timed_out qid n of
        (n1, None) \<Rightarrow> (n1, None)
      | (n1, Some collected) \<Rightarrow> (n1, Some (discover_finish E collected n1)))"

section \<open>The run loop\<close>

text \<open>
  \<open>run\<close> up to its loop, and one round of the loop: False ends it. The heartbeat task it starts
  is the sequence of calls of \<open>heartbeat_tick\<close>.
\<close>

definition run_start :: "env \<Rightarrow> string \<Rightarrow> node \<Rightarrow> node \<times> exn option" where
  "run_start E eid n =
     (if \<not> connected n then (n, Some RuntimeErr)
      else publish_event E ''node.online'' [] JNull eid n)"

definition run_round :: "env \<Rightarrow> node \<Rightarrow> node \<times> bool" where
  "run_round E n = (if shutdown_event n then (n, False) else (flush_pending E n, True))"

end
