(* ===== verification/Node_Ops_Props.thy ===== *)
theory Node_Ops_Props
  imports Node_Ops
begin

text \<open>
  What the operations of a node guarantee: no failed send is lost, flushing the queue keeps
  every task, reconnection backs off, a signed task is accepted by every other node, and queries
  and results resume the sends that wait for them.
\<close>

section \<open>Sends and the retry queue\<close>

definition queued_task :: "pyfloat \<Rightarrow> string \<Rightarrow> send_req \<Rightarrow> pending_task" where
  "queued_task created tid req =
     \<lparr>p_task_id = JStr tid, p_target_node = sr_target req, p_capability = sr_capability req,
      p_payload = sr_payload req, p_created_at = JFloat created, p_retries = JInt 0, p_ttl_s = sr_ttl req\<rparr>"

lemma finish_send_eq:
  "finish_send E created tid req r n =
     (if r_status r = ''error'' \<and> \<not> sr_bypass req
      then (n\<lparr>pending_queue := enqueue (queue_io E) (queued_task created tid req) (pending_queue n)\<rparr>,
            Finished (error_result tid ''QUEUED'' ''Target offline, task queued for retry''))
      else (n, Finished r))"
  by (simp add: finish_send_def queued_task_def)

text \<open>What the end of a send does to the queue, and the results it gives.\<close>

definition ends_well :: "env \<Rightarrow> pyfloat \<Rightarrow> string \<Rightarrow> send_req \<Rightarrow> node \<Rightarrow> node \<Rightarrow> result \<Rightarrow> bool" where
  "ends_well E created tid req n n' r \<longleftrightarrow>
     (if sr_bypass req \<or> r_status r \<noteq> ''error'' then pending_queue n' = pending_queue n
      else r = error_result tid ''QUEUED'' ''Target offline, task queued for retry'' \<and>
        pending_queue n' = enqueue (queue_io E) (queued_task created tid req) (pending_queue n))"

lemma error_status [simp]: "r_status (error_result tid code m) = ''error''"
  by (simp add: error_result_def make_error_def)

lemma finish_ends_well:
  "finish_send E created tid req r n1 = (n', Finished r') \<Longrightarrow> pending_queue n1 = pending_queue n \<Longrightarrow>
   ends_well E created tid req n n' r'"
  by (auto simp: finish_send_eq ends_well_def split: if_splits)

lemma send_direct_queue:
  assumes "send_direct E created tid a m req n1 = (n', Finished r)" "pending_queue n1 = pending_queue n"
  shows "ends_well E created tid req n n' r"
proof -
  obtain n2 e where s: "send_to a m n1 = (n2, e)" by fastforce
  have "pending_queue n2 = pending_queue n" using node_send_to(12) [of a m n1] s assms(2) by simp
  then show ?thesis
    using assms(1) s by (cases e) (auto simp: send_direct_def expect_result_def intro: finish_ends_well)
qed

lemma send_to_queue:
  fixes n :: node
  shows "send_to a m n = (n1, e) \<Longrightarrow> pending_queue n1 = pending_queue n"
  using node_send_to(12) [of a m n] by simp

lemma via_tracker_queue:
  "via_tracker E rtid tn tg cap pl ttl n = (n1, x) \<Longrightarrow> pending_queue n1 = pending_queue n"
  by (auto simp: via_tracker_def Let_def expect_result_def dest: send_to_queue
      split: sum.splits option.splits prod.splits if_split_asm)

lemma send_task_ends_well:
  assumes "send_task E created tid rtid qid req n = (n', Finished r)"
  shows "ends_well E created tid req n n' r"
proof -
  have c: "connected n" using assms by (cases "connected n") (simp_all add: send_task_def)
  define m where "m = signed_task E tid (sr_target req) (sr_capability req) (sr_payload req) n"
  show ?thesis
  proof (cases "py_truthy (sr_target req)")
    case True
    obtain x where x: "target_peer (sr_target req) n = Inr x"
      using assms c True by (auto simp: send_task_def Let_def split: sum.splits)
    show ?thesis
    proof (cases x)
      case (Some a)
      then show ?thesis
        using assms c True x by (auto simp: send_task_def Let_def intro: send_direct_queue)
    next
      case None
      obtain n1 y where v: "via_tracker E rtid [] (sr_target req) (sr_capability req) (sr_payload req) (sr_ttl req) n = (n1, y)"
        by fastforce
      then show ?thesis
        using assms c True x None
        by (auto simp: send_task_def Let_def intro: finish_ends_well via_tracker_queue split: sum.splits option.splits)
    qed
  next
    case False
    then show ?thesis
      using assms c by (auto simp: send_task_def Let_def intro: send_direct_queue split: sum.splits option.splits)
  qed
qed

lemma take_result_queue: "take_result t tid n = (n1, x) \<Longrightarrow> pending_queue n1 = pending_queue n"
  by (auto simp: take_result_def split: option.splits if_splits)

lemma take_query_queue: "take_query t qid n = (n1, x) \<Longrightarrow> pending_queue n1 = pending_queue n"
  by (auto simp: take_query_def split: option.splits if_splits prod.splits)

text \<open>The task and the request a waiting send is about.\<close>

fun waits_for :: "send_state \<Rightarrow> string \<Rightarrow> send_req \<Rightarrow> bool" where
  "waits_for (Wait_result tid req) t r \<longleftrightarrow> t = tid \<and> r = req"
| "waits_for (Wait_relay tid rtid req) t r \<longleftrightarrow> t = tid \<and> r = req"
| "waits_for (Wait_query qid tid m req) t r \<longleftrightarrow> t = tid \<and> r = req"
| "waits_for _ t r \<longleftrightarrow> False"

lemma resume_ends_well:
  assumes "waits_for st tid req" "resume_send E created to st n = (n', Finished r)"
  shows "ends_well E created tid req n n' r"
proof (cases st)
  case (Wait_result t q)
  then obtain n1 x where t: "take_result to tid n = (n1, x)" using assms(1) by fastforce
  then show ?thesis
    using assms Wait_result by (cases x) (auto simp: resume_send_def intro: finish_ends_well take_result_queue)
next
  case (Wait_relay t rt q)
  then obtain n1 x where t: "take_result to rt n = (n1, x)" using assms(1) by fastforce
  then show ?thesis
    using assms Wait_relay by (cases x) (auto simp: resume_send_def intro: finish_ends_well take_result_queue)
next
  case (Wait_query qid t m q)
  obtain n1 x where t: "take_query to qid n = (n1, x)" by fastforce
  have pq: "pending_queue n1 = pending_queue n" by (rule take_query_queue [OF t])
  obtain col where col: "x = Some col" using assms Wait_query t by (cases x) (auto simp: resume_send_def)
  obtain p where p: "query_answer col = Inr p"
    using assms Wait_query t col by (auto simp: resume_send_def split: sum.splits)
  show ?thesis
  proof (cases "py_truthy p")
    case True
    show ?thesis
    proof (cases p)
      case (JStr a)
      then show ?thesis
        using assms Wait_query t col p True pq by (auto simp: resume_send_def intro: send_direct_queue)
    qed (use assms Wait_query t col p True pq in \<open>auto simp: resume_send_def intro: finish_ends_well\<close>)
  next
    case False
    then show ?thesis
      using assms Wait_query t col p pq by (auto simp: resume_send_def intro: finish_ends_well)
  qed
qed (use assms in auto)

definition demo_req :: send_req where
  "demo_req = \<lparr>sr_target = JStr [], sr_capability = JStr ''x'', sr_payload = JNull, sr_ttl = JInt 60, sr_bypass = False\<rparr>"

lemma demo_req [simp]:
  "sr_target demo_req = JStr []" "sr_capability demo_req = JStr ''x''" "sr_payload demo_req = JNull"
  "sr_ttl demo_req = JInt 60" "\<not> sr_bypass demo_req"
  by (simp_all add: demo_req_def)

lemma load_empty: "load_all io None = []"
  by (simp add: load_all_def)

text \<open>
  C15: a send that fails is never lost. However a send of the application ends in an error (no
  peer, a failed write, a timeout, no tracker, an error result), the caller gets a QUEUED error
  and the queue, read back from its file, holds exactly one task more, at its end: this one,
  with no retry yet. A send that succeeds, and a retry of the queue itself, leave the queue
  alone.
\<close>

theorem failed_send_is_queued:
  assumes "send_task E created tid rtid qid req n = (n', Finished r) \<or>
      (waits_for st tid req \<and> resume_send E created to st n = (n', Finished r))"
    and "queue_io E = Io_ok" "queue_inv (pending_queue n)" "wf_pending (queued_task created tid req)"
  shows "load_all Io_ok (pending_queue n') = load_all Io_ok (pending_queue n) @
      (if r_status r = ''error'' \<and> \<not> sr_bypass req then [queued_task created tid req] else []) \<and>
    (r_status r = ''error'' \<and> \<not> sr_bypass req \<longrightarrow> r_error r = Some (JStr ''QUEUED'', JStr ''Target offline, task queued for retry''))"
proof -
  have "ends_well E created tid req n n' r"
    using assms(1) send_task_ends_well resume_ends_well by blast
  then show ?thesis
    using queue.load_append [OF assms(3,4)] assms(2)
    by (auto simp: ends_well_def error_result_def make_error_def split: if_splits)
qed

theorem failed_send_is_queued_witness:
  "load_all Io_ok (pending_queue (fst (resume_send demo_env (Dec 1000 1) True (Wait_result ''t'' demo_req) demo_node))) =
     [queued_task (Dec 1000 1) ''t'' demo_req]"
proof -
  obtain n' where r: "resume_send demo_env (Dec 1000 1) True (Wait_result ''t'' demo_req) demo_node =
      (n', Finished (error_result ''t'' ''QUEUED'' ''Target offline, task queued for retry''))"
    by (simp add: resume_send_def take_result_def finish_send_eq)
  have "wf_pending (queued_task (Dec 1000 1) ''t'' demo_req)"
    by (simp add: wf_pending_iff queued_task_def)
  from failed_send_is_queued [OF disjI2 [OF conjI [OF _ r]] _ _ this] show ?thesis
    unfolding r by (simp add: queue_inv_def load_empty)
qed

section \<open>Flushing the retry queue\<close>

text \<open>
  How a pending task stands: expired, ready for a retry, or waiting; and the task as it is
  saved again. A task is readable when its clock reading and its retries are numbers and its
  target can be looked for.
\<close>

definition expired :: "env \<Rightarrow> pending_task \<Rightarrow> bool" where
  "expired E t \<longleftrightarrow> (case py_num (p_created_at t) of Inr created \<Rightarrow> wall E - created > 600 | Inl _ \<Rightarrow> False)"

definition ready :: "env \<Rightarrow> node \<Rightarrow> pending_task \<Rightarrow> bool" where
  "ready E n t \<longleftrightarrow> can_retry E t n = Inr True"

definition one_retry_more :: "pending_task \<Rightarrow> pending_task" where
  "one_retry_more t = (case py_incr (p_retries t) of Inr r \<Rightarrow> t\<lparr>p_retries := r\<rparr> | Inl _ \<Rightarrow> t)"

definition readable :: "env \<Rightarrow> node \<Rightarrow> pending_task \<Rightarrow> bool" where
  "readable E n t \<longleftrightarrow> \<not> isl (py_num (p_created_at t)) \<and> \<not> isl (py_incr (p_retries t)) \<and> \<not> isl (can_retry E t n)"

lemma flush_loop_eq:
  "list_all (readable E n) ts \<Longrightarrow> flush_loop E ts n =
     ((filter (\<lambda>t. \<not> expired E t \<and> ready E n t) ts,
       map one_retry_more (filter (\<lambda>t. \<not> expired E t \<and> \<not> ready E n t) ts)), None)"
proof (induction ts)
  case (Cons t ts)
  obtain created r b where r: "py_num (p_created_at t) = Inr created" "py_incr (p_retries t) = Inr r"
    "can_retry E t n = Inr b"
    using Cons.prems by (auto simp: readable_def intro: sum.collapse(2) [symmetric])
  then show ?case
    using Cons by (cases b) (simp_all add: expired_def ready_def one_retry_more_def)
qed simp

lemma spawn_fold: "foldl (\<lambda>n t. spawn (RetryTask t) n) n ts = n\<lparr>jobs := jobs n @ map RetryTask ts\<rparr>"
  by (induction ts arbitrary: n) (simp_all add: spawn_def)

lemma wf_incr: "wf_json j \<Longrightarrow> py_incr j = Inr k \<Longrightarrow> wf_json k"
proof (cases j)
  case (JFloat x)
  assume "wf_json j" "py_incr j = Inr k"
  moreover have "(10 :: int) dvd 10 ^ m" if "1 \<le> m" for m
    using that by (cases m) auto
  ultimately show ?thesis using JFloat by (cases x) (auto simp: dvd_add_left_iff)
qed auto

lemma wf_one_retry_more: "wf_pending t \<Longrightarrow> wf_pending (one_retry_more t)"
  by (auto simp: one_retry_more_def wf_pending_iff split: sum.split dest: wf_incr)

lemma filter_full: "length (filter P xs) = length xs \<Longrightarrow> filter P xs = xs"
proof (induction xs)
  case (Cons x xs)
  then show ?case using length_filter_le [of P xs] by (cases "P x") auto
qed simp

lemma flush_effect:
  assumes "\<not> flushing_pending n" "queue_io E = Io_ok"
    "load_all Io_ok (pending_queue n) = ts" "ts \<noteq> []" "list_all (readable E n) ts"
    "sent = filter (\<lambda>t. \<not> expired E t \<and> ready E n t) ts" "waiting = filter (\<lambda>t. \<not> expired E t \<and> \<not> ready E n t) ts"
  shows "flush_pending E n = n\<lparr>jobs := jobs n @ map RetryTask sent,
      pending_queue := (if waiting = ts then pending_queue n else save_all Io_ok (map one_retry_more waiting) (pending_queue n))\<rparr>"
proof -
  have f: "flush_loop E ts n = ((sent, map one_retry_more waiting), None)"
    using flush_loop_eq [OF assms(5)] assms(6,7) by simp
  have w: "waiting = ts \<longleftrightarrow> sent = [] \<and> length waiting = length ts"
  proof
    assume "waiting = ts"
    then have "\<forall>t \<in> set ts. \<not> expired E t \<and> \<not> ready E n t" by (simp add: assms(7) filter_id_conv)
    then show "sent = [] \<and> length waiting = length ts" using \<open>waiting = ts\<close> by (auto simp: assms(6) filter_empty_conv)
  next
    assume "sent = [] \<and> length waiting = length ts"
    then show "waiting = ts" unfolding assms(7) by (intro filter_full) simp
  qed
  then show ?thesis using assms(1-4) f by (auto simp: flush_pending_def Let_def spawn_fold)
qed

text \<open>
  C16: flushing the queue loses no task. Every task of the queue is dropped if it is older
  than ten minutes, started again if a peer or a relay is there, and otherwise kept; started
  tasks come in the queue's order, and the file then holds the waiting tasks in their order,
  with one retry more each (or is left as it was when there is nothing to start or drop).
\<close>

theorem flush_keeps_tasks:
  assumes "\<not> flushing_pending n" "queue_io E = Io_ok"
    "load_all Io_ok (pending_queue n) = ts" "ts \<noteq> []" "list_all wf_pending ts" "list_all (readable E n) ts"
  shows "let sent = filter (\<lambda>t. \<not> expired E t \<and> ready E n t) ts;
             waiting = filter (\<lambda>t. \<not> expired E t \<and> \<not> ready E n t) ts
    in jobs (flush_pending E n) = jobs n @ map RetryTask sent \<and>
       load_all Io_ok (pending_queue (flush_pending E n)) = (if waiting = ts then ts else map one_retry_more waiting)"
proof -
  define waiting where "waiting = filter (\<lambda>t. \<not> expired E t \<and> \<not> ready E n t) ts"
  have wf: "list_all wf_pending (map one_retry_more waiting)"
    using assms(5) by (auto simp: waiting_def list_all_iff intro: wf_one_retry_more)
  show ?thesis
    using flush_effect [OF assms(1-4,6) refl waiting_def] assms(3) queue.load_save [OF wf, of "pending_queue n"]
    by (simp add: Let_def flip: waiting_def)
qed

theorem flush_keeps_tasks_witness:
  "load_all Io_ok (pending_queue (flush_pending demo_env
     (demo_node\<lparr>pending_queue := save_all Io_ok [queued_task (Dec 1000 1) ''t'' demo_req] None\<rparr>))) =
   [queued_task (Dec 1000 1) ''t'' demo_req]"
proof -
  let ?t = "queued_task (Dec 1000 1) ''t'' demo_req"
  let ?n = "demo_node\<lparr>pending_queue := save_all Io_ok [?t] None\<rparr>"
  have wf: "list_all wf_pending [?t]" by (simp add: wf_pending_iff queued_task_def)
  have l: "load_all Io_ok (pending_queue ?n) = [?t]" using queue.load_save [OF wf, of None] by simp
  have c: "can_retry demo_env ?t ?n = Inr False"
    by (simp add: can_retry_def task_peer_def queued_task_def find_peer_for_def fwd_def empty_table_def)
  then have "list_all (readable demo_env ?n) [?t]"
    by (simp add: readable_def queued_task_def)
  from flush_keeps_tasks [OF _ _ l _ wf this] show ?thesis
    using c by (simp add: Let_def ready_def expired_def queued_task_def dec_val_def)
qed

section \<open>Reconnecting\<close>

text \<open>The state of the reconnection of \<open>a\<close> after \<open>k\<close> rounds in which nobody answered.\<close>

fun reconnect_rounds :: "env \<Rightarrow> string \<Rightarrow> nat \<Rightarrow> node \<Rightarrow> node \<times> reconnect_state" where
  "reconnect_rounds E a 0 n = reconnect_start a n"
| "reconnect_rounds E a (Suc k) n = (case reconnect_rounds E a k n of
     (n', Sleeping d) \<Rightarrow> reconnect_wake E Refused a n'
   | (n', Reconnect_done) \<Rightarrow> (n', Reconnect_done))"

lemma refused_dial:
  assumes "dial_target (tcp_port n) a = Inr (Some (host, p))" "canonical_addr host p \<notin> set (peer_addresses n)"
  shows "dial E (\<lambda>_. Refused) hello a n = (n, Inr None)"
  using assms by (auto simp: dial_def connect_to_peer_def Let_def)

text \<open>
  C33: reconnection backs off and never gives up. While the peer does not answer, the pauses
  are 1, 2, 4, 8, 16 and then 30 seconds, there is never more than one reconnection loop for an
  address, and a second request for it while one runs changes nothing.
\<close>

theorem reconnect_backoff:
  assumes "\<not> shutdown_event n" "a \<notin> set (reconnecting_peers n)" "dget (reconnect_backoff n) a 0 = 0"
    "\<not> is_connected_to a n" "dial_target (tcp_port n) a = Inr (Some (host, p))"
    "canonical_addr host p \<notin> set (peer_addresses n)"
  shows "\<exists>n'. reconnect_rounds E a k n = (n', Sleeping (min (2 ^ k) 30)) \<and>
    reconnect_start a n' = (n', Reconnect_done)"
proof -
  have "\<exists>b. reconnect_rounds E a k n = (n\<lparr>reconnecting_peers := set_add a (reconnecting_peers n), reconnect_backoff := b\<rparr>,
      Sleeping (min (2 ^ k) 30)) \<and> dget b a 0 = Suc k"
  proof (induction k)
    case 0
    then show ?case
      using assms(1-4) by (auto simp: reconnect_start_def reconnect_head_def is_connected_to_def peer_addresses_def)
  next
    case (Suc k)
    then obtain b where b: "reconnect_rounds E a k n =
        (n\<lparr>reconnecting_peers := set_add a (reconnecting_peers n), reconnect_backoff := b\<rparr>, Sleeping (min (2 ^ k) 30))"
      "dget b a 0 = Suc k" by blast
    let ?n = "n\<lparr>reconnecting_peers := set_add a (reconnecting_peers n), reconnect_backoff := b\<rparr>"
    have "dial_target (tcp_port ?n) a = Inr (Some (host, p))" "canonical_addr host p \<notin> set (peer_addresses ?n)"
      using assms(5,6) by (simp_all add: peer_addresses_def)
    note d = refused_dial [OF this]
    have "\<not> is_connected_to a ?n" using assms(4) by (simp add: is_connected_to_def peer_addresses_def)
    then show ?case
      using b d assms(1) by (auto simp: reconnect_wake_def reconnect_head_def)
  qed
  then show ?thesis by (auto simp: reconnect_start_def)
qed

theorem reconnect_backoff_witness:
  "\<exists>n'. reconnect_rounds demo_env ''h:9'' 3 demo_node = (n', Sleeping 8) \<and> reconnect_start ''h:9'' n' = (n', Reconnect_done)"
proof -
  have "dial_target (tcp_port demo_node) ''h:9'' = Inr (Some (''h'', 9))"
    by code_simp
  from reconnect_backoff [OF _ _ _ _ this, of demo_env 3] show ?thesis
    by (simp add: dget_def is_connected_to_def peer_addresses_def raw_address_def last_field_def canonical_addr_def)
qed

section \<open>A task from its sender to its receiver\<close>

text \<open>The nodes the code builds: their id is that of their key.\<close>

definition own_identity :: "ed25519 \<Rightarrow> node \<Rightarrow> bool" where
  "own_identity e n \<longleftrightarrow> (\<exists>sk. ident n = identity_of e sk) \<and> self_id n = node_id_of e (ident n)"

lemma demo_own: "own_identity toy_ed demo_node"
  by (auto simp: own_identity_def)

lemma filter_dset: "filter (\<lambda>kv. fst kv \<noteq> k) (dset k v d) = filter (\<lambda>kv. fst kv \<noteq> k) d"
  by (induction d) auto

lemma filter_dpop:
  fixes d :: "('a \<times> 'b) list"
  shows "filter (\<lambda>kv. fst kv \<noteq> k) (dset k v (dpop k d)) = dpop k d"
proof -
  have f: "filter (\<lambda>kv. fst kv \<noteq> k) d' = dpop k d'" for d' :: "('a \<times> 'b) list"
    by (induction d') auto
  show ?thesis by (simp only: filter_dset) (simp only: f AList.delete_idem)
qed

lemma signed_task_unsigned:
  "without_signature (signed_task E tid tg cap pl n) =
     dpop ''signature'' (task_msg (JStr tid) tg (JStr (self_id n)) cap pl [] \<lfloor>wall E\<rfloor>)"
  unfolding signed_task_def without_signature_def Let_def by (rule filter_dpop)

lemma signed_task_get:
  "dget (signed_task E tid tg cap pl n) ''caller'' (JStr []) = JStr (self_id n)"
  "dget (signed_task E tid tg cap pl n) ''signature'' JNull =
     JStr (identity_sign (ed E) (ident n) (without_signature (signed_task E tid tg cap pl n)))"
  by (simp_all only: signed_task_unsigned) (simp_all add: signed_task_def Let_def dget_dset dget_dpop task_msg_def dget_def)

lemma wf_signed_task:
  "wf_json tg \<Longrightarrow> wf_json cap \<Longrightarrow> wf_json pl \<Longrightarrow> wf_dict (signed_task E tid tg cap pl n)"
  by (simp add: signed_task_def Let_def wf_dict_def task_msg_def)

text \<open>A task in a node's name, signed with the node's key, passes the check of every node.\<close>

lemma signed_accepted:
  assumes "ed_ok e" "me = identity_of e sk" "dget m ''caller'' (JStr []) = JStr (node_id_of e me)"
    "dget m ''signature'' JNull = JStr (identity_sign e me (without_signature m))" "ed E = e" "cache_ok e r"
  shows "snd (check_task_signature E m r) = Inr Sig_ok"
proof (cases "verify_peers r \<and> py_truthy (dget m ''signature'' JNull)")
  case True
  have "id_to_pubkey (ed E) (node_id_of e me) = Inr (ed_public e sk)"
    using id_roundtrip [OF assms(1), of sk] assms(2,5) by (simp add: node_id_of_def identity_of_def)
  moreover have "node_id_of e me \<noteq> []" using node_id_length [OF assms(1), of sk] assms(2) by auto
  moreover have "verify_signature e (ed_public e sk) (without_signature m) (dget m ''signature'' JNull)"
    using verify_sign [OF assms(1), of sk "without_signature m"] assms(2,4) by (simp add: identity_sign_def identity_of_def)
  ultimately show ?thesis using True task_sig_eq [of E r m, OF _ _ _ assms(3)] assms(5,6) by simp
qed (auto simp: check_task_signature_def Let_def)

lemma honest_check:
  assumes "ed_ok (ed E)" "own_identity (ed E) s" "ed E' = ed E" "cache_ok (ed E') r"
  shows "snd (check_task_signature E' (signed_task E tid tg cap pl s) r) = Inr Sig_ok"
proof -
  obtain sk where "ident s = identity_of (ed E) sk" "self_id s = node_id_of (ed E) (ident s)"
    using assms(2) by (auto simp: own_identity_def)
  then show ?thesis using signed_accepted [OF assms(1)] signed_task_get assms(3,4) by simp
qed

lemma toy_task_fits:
  assumes "ident n = identity_of toy_ed sk" "self_id n = node_id_of toy_ed (identity_of toy_ed sk)"
    "wf_json tg" "wf_json cap" "wf_json pl" "length tid \<le> 100" "text_size tg \<le> 1000" "text_size cap \<le> 1000" "text_size pl \<le> 3000"
  shows "\<exists>fr. encode_frame (signed_task demo_env tid tg cap pl n) = Inr fr"
proof (rule frame_fits [OF wf_signed_task [OF assms(3-5)]])
  let ?d = "dpop ''signature'' (task_msg (JStr tid) tg (JStr (self_id n)) cap pl [] 100)"
  have num: "show_nat 100 = ''100''" "show_nat 60 = ''60''" by code_simp+
  have r: "text_size (JObj ?d) \<le> 7000" using assms(6-9) by (simp add: task_msg_def mt.simps show_int_def num assms(2))
  then have s: "length (identity_sign toy_ed (identity_of toy_ed sk) ?d) \<le> 28064"
    using toy_sign_size [of sk ?d] by linarith
  have "signed_task demo_env tid tg cap pl n = dset ''signature'' (JStr (identity_sign toy_ed (identity_of toy_ed sk) ?d)) ?d"
    by (simp add: signed_task_def Let_def assms(1))
  then show "2 * text_size (JObj (signed_task demo_env tid tg cap pl n)) \<le> MAX_PAYLOAD_SIZE"
    using s assms(6-9) by (simp add: task_msg_def mt.simps MAX_PAYLOAD_SIZE_def show_int_def num assms(2))
qed

lemma demo_task_fits:
  assumes "ident n = identity_of toy_ed sk" "self_id n = node_id_of toy_ed (identity_of toy_ed sk)"
  shows "\<exists>fr. encode_frame (signed_task demo_env ''t'' (JStr []) (JStr ''x'') JNull n) = Inr fr"
  by (rule toy_task_fits [OF assms]) simp_all

section \<open>A query and its answer\<close>

text \<open>
  C34: a capability nobody is known for is found through a query. The send asks every peer;
  when a response names an address, the send goes on to it: the task is written on that
  peer's connection, the wait for the query is over, and the wait for the result begins.
\<close>

theorem query_response_resumes_send:
  assumes "dget msg ''id'' (JStr []) = JStr qid" "dget msg ''nodes'' (JArr []) = JArr (JObj d # ns)"
    "dget d ''addr'' JNull = JStr a" "a \<noteq> []" "map_of (pending_queries n) qid = Some ([], ev)"
    "live_peer n a i c" "encode_frame m = Inr fr"
  shows "\<exists>n'. resume_send E created False (Wait_query qid tid m req) (fst (on_query_resp b msg n)) = (n', Wait_result tid req) \<and>
    conns n' i = Some (c\<lparr>c_sent := c_sent c @ fr\<rparr>) \<and>
    map_of (pending_queries n') qid = None \<and> map_of (pending_results n') tid = Some None"
proof -
  define n1 where "n1 = n\<lparr>pending_queries := dset qid (JObj d # ns, True) (pending_queries n)\<rparr>"
  have r: "on_query_resp b msg n = (n1, None)"
    using assms(1,2,5) by (simp add: on_query_resp_def lookup_key_def str_key_def Let_def n1_def)
  define n2 where "n2 = n1\<lparr>pending_queries := dpop qid (pending_queries n1)\<rparr>"
  have t: "take_query False qid n1 = (n2, Some (JObj d # ns))"
    by (simp add: take_query_def n1_def n2_def)
  have "live_peer n2 a i c" using assms(6) by (simp add: live_peer_def n1_def n2_def)
  from send_to_live [OF this, of m] have
    s: "send_to a m n2 = (n2\<lparr>conns := (conns n2)(i \<mapsto> c\<lparr>c_sent := c_sent c @ fr\<rparr>)\<rparr>, None)"
    using assms(7) by simp
  have "query_answer (JObj d # ns) = Inr (JStr a)" using assms(3) by (simp add: query_answer_def)
  then have "resume_send E created False (Wait_query qid tid m req) n1 =
      (expect_result tid (n2\<lparr>conns := (conns n2)(i \<mapsto> c\<lparr>c_sent := c_sent c @ fr\<rparr>)\<rparr>), Wait_result tid req)"
    using t s assms(4) by (simp add: resume_send_def send_direct_def)
  then show ?thesis using r by (simp add: expect_result_def n2_def)
qed

theorem query_response_resumes_send_witness:
  "\<exists>n'. resume_send demo_env (Dec 1000 1) False (Wait_query ''q'' ''t'' bye_msg demo_req)
      (fst (on_query_resp ''abc@h:1'' [(''id'', JStr ''q''), (''nodes'', JArr [JObj [(''addr'', JStr ''abc@h:1'')]])]
         (demo_node\<lparr>pending_queries := [(''q'', ([], False))]\<rparr>))) = (n', Wait_result ''t'' demo_req)"
proof -
  let ?n = "demo_node\<lparr>pending_queries := [(''q'', ([], False))]\<rparr>"
  have l: "live_peer ?n ''abc@h:1'' 0 (new_conn ''h:1'' 0)" using demo_live by (simp add: live_peer_def)
  obtain fr where "encode_frame bye_msg = Inr fr" using bye_frame_ok by (auto simp: frame_ok_def)
  from query_response_resumes_send [OF _ _ _ _ _ l this, where qid = "''q''" and d = "[(''addr'', JStr ''abc@h:1'')]"
      and msg = "[(''id'', JStr ''q''), (''nodes'', JArr [JObj [(''addr'', JStr ''abc@h:1'')]])]" and ev = False and ns = "[]"
      and req = demo_req and tid = "''t''" and b = "''abc@h:1''" and E = demo_env and created = "Dec 1000 1"]
  show ?thesis by (auto simp: dget_def)
qed

section \<open>A result and the send that waits for it\<close>

text \<open>
  a successful result ends the send. When the peer's result for the task arrives before the
  timeout, the send returns exactly the payload it carries, the wait is over, and the queue of
  pending tasks is as before.
\<close>

lemma result_resumes_send:
  assumes "map_of (pending_results n) tid = Some None" "dget msg ''id'' (JStr []) = JStr tid"
    "dget msg ''status'' (JStr ''error'') = JStr ''success''"
    "snd (check_result_signature E a msg n) = Inr Sig_ok"
  shows "\<exists>n'. resume_send E' created to (Wait_result tid req) (fst (on_result E a msg n)) =
      (n', Finished (result_success (JStr tid) (dget msg ''payload'' (JObj [])))) \<and>
    map_of (pending_results n') tid = None \<and> pending_queue n' = pending_queue n"
proof -
  obtain n1 where c: "check_result_signature E a msg n = (n1, Inr Sig_ok)"
    using assms(4) by (cases "check_result_signature E a msg n") auto
  then have n1: "n1 = fst (check_result_signature E a msg n)" by simp
  have pr: "pending_results n1 = pending_results n" by (simp add: n1)
  have pq: "pending_queue n1 = pending_queue n"
    by (auto simp: n1 get_caller_pubkey_def Let_def split: option.split sum.split prod.split)
  let ?r = "result_success (JStr tid) (dget msg ''payload'' (JObj []))"
  define n2 where "n2 = n1\<lparr>pending_results := dset tid (Some ?r) (pending_results n1)\<rparr>"
  have "on_result E a msg n = (n2, None)"
    using c pr assms(1-3) by (simp add: on_result_def lookup_key_def str_key_def result_of_msg_def Let_def n2_def)
  moreover have "take_result to tid n2 = (n2\<lparr>pending_results := dpop tid (pending_results n2)\<rparr>, Some ?r)"
    by (simp add: take_result_def n2_def)
  moreover have "r_status ?r \<noteq> ''error''" by (simp add: result_success_def)
  ultimately show ?thesis by (simp add: resume_send_def finish_send_eq n2_def pq)
qed

lemma result_resumes_send_witness:
  "\<exists>n'. resume_send demo_env (Dec 1000 1) False (Wait_result ''t'' demo_req)
      (fst (on_result demo_env ''abc@h:1'' [(''id'', JStr ''t''), (''status'', JStr ''success''), (''payload'', JStr ''p'')]
         (demo_node\<lparr>pending_results := [(''t'', None)]\<rparr>))) = (n', Finished (result_success (JStr ''t'') (JStr ''p'')))"
  using result_resumes_send [of "demo_node\<lparr>pending_results := [(''t'', None)]\<rparr>" "''t''"
      "[(''id'', JStr ''t''), (''status'', JStr ''success''), (''payload'', JStr ''p'')]" demo_env "''abc@h:1''"
      demo_env "Dec 1000 1" False demo_req]
  by (auto simp: dget_def check_result_signature_def)

section \<open>Registering capabilities\<close>

lemma add_name_items:
  "add_items s (map JObj (name_caps ns)) = (foldl (\<lambda>s x. set_add x s) s (map JStr ns), None)"
  by (induction ns arbitrary: s) (simp_all add: name_caps_def item_name_def dget_def)

lemma health_name [simp]: "dget health_cap ''name'' JNull = JStr ''health''"
  by (simp add: health_cap_def dget_def)

lemma name_caps_get: "x \<in> set ns \<Longrightarrow> list_ex (\<lambda>t. dget t ''name'' JNull = JStr x) (name_caps ns)"
  by (auto simp: list_ex_iff name_caps_def dget_def)

lemma count_health:
  "length (filter (\<lambda>t. dget t ''name'' JNull = JStr ''health'') (name_caps ns)) = count_list ns ''health''"
  by (induction ns) (simp_all add: name_caps_def dget_def)

lemma with_health_count:
  "length (filter (\<lambda>t. dget t ''name'' JNull = JStr ''health'') (with_health (name_caps ns))) = max 1 (count_list ns ''health'')"
proof (cases "list_ex (\<lambda>t. dget t ''name'' JNull = JStr ''health'') (name_caps ns)")
  case True
  then have "filter (\<lambda>t. dget t ''name'' JNull = JStr ''health'') (name_caps ns) \<noteq> []"
    by (auto simp: list_ex_iff filter_empty_conv)
  then have "0 < count_list ns ''health''" unfolding count_health [symmetric] by simp
  then show ?thesis using True by (simp add: with_health_def count_health)
next
  case False
  then have "filter (\<lambda>t. dget t ''name'' JNull = JStr ''health'') (name_caps ns) = []"
    by (auto simp: list_ex_iff filter_empty_conv)
  then have "count_list ns ''health'' = 0" unfolding count_health [symmetric] by simp
  then show ?thesis using False by (simp add: with_health_def count_health)
qed

lemma with_health_ex:
  "list_ex (\<lambda>t. dget t ''name'' JNull = JStr ''health'') (with_health ts)"
  "list_ex P ts \<Longrightarrow> list_ex P (with_health ts)" "with_health ts \<noteq> []"
  by (auto simp: with_health_def list_ex_iff)

lemma node_register_tracker:
  "node_register ags mds tls n = (n', e) \<Longrightarrow>
   agents (tracker n') = (if ags \<noteq> [] then ags else agents (tracker n)) \<and>
   models (tracker n') = (if mds \<noteq> [] then mds else models (tracker n)) \<and>
   tools (tracker n') = with_health tls"
  using with_health_ex(3) [of tls]
  by (auto simp: node_register_def Let_def register_def set_interests_def split: prod.splits option.splits sum.splits)

text \<open>
  what an application registers, the node has. After a registration by names, the node has
  every agent, model and tool of the call and the built-in health check, without registering
  it twice.
\<close>

lemma registered_capabilities:
  assumes "node_register (name_caps ags) (name_caps mds) (name_caps tls) n = (n', e)"
    "x \<in> set ags \<or> x \<in> set mds \<or> x \<in> set tls \<or> x = ''health''"
  shows "has_capability (JStr x) (tracker n') \<and>
    length (filter (\<lambda>t. dget t ''name'' JNull = JStr ''health'') (tools (tracker n'))) = max 1 (count_list tls ''health'')"
proof -
  note t = node_register_tracker [OF assms(1)]
  have "list_ex (\<lambda>i. dget i ''name'' JNull = JStr x) (agents (tracker n') @ models (tracker n') @ tools (tracker n'))"
    using assms(2) t name_caps_get [of x] with_health_ex(1) with_health_ex(2) [OF name_caps_get, of x tls]
    by (auto simp: name_caps_def)
  then show ?thesis using t with_health_count [of tls] by (simp add: has_capability_def)
qed

end
