(* ===== verification/Voices.thy ===== *)
theory Voices
  imports Node_Ops_Props
begin

text \<open>
  What a node says of itself. Every HELLO, HELLO_ACK, HEARTBEAT and TASK a node writes names the
  node, and every TASK and every RESULT that reports success carries the signature of its own
  key. Queries (which keep the origin they came with), their responses, interest updates and
  error results carry no name of the sender and no signature.
  The part that belongs to the connection manager is proved once, for any handler that speaks
  so (the locale \<open>speaker\<close>); the node's dispatcher interprets it.
\<close>

section \<open>What has been written\<close>

text \<open>The bytes are the frames of messages that all satisfy \<open>P\<close>.\<close>

definition spoken :: "(pydict \<Rightarrow> bool) \<Rightarrow> byte list \<Rightarrow> bool" where
  "spoken P bs \<longleftrightarrow> (\<exists>ms. bs = concat (map frame_bytes ms) \<and> (\<forall>m\<in>set ms. P m \<and> (\<exists>fr. encode_frame m = Inr fr)))"

lemma spoken_nil [simp]: "spoken P []"
  unfolding spoken_def by (rule exI [of _ "[]"]) simp

lemma spoken_frame:
  assumes "spoken P bs" "P m" "encode_frame m = Inr fr"
  shows "spoken P (bs @ fr)"
proof -
  obtain ms where "bs = concat (map frame_bytes ms)" "\<forall>m\<in>set ms. P m \<and> (\<exists>fr. encode_frame m = Inr fr)"
    using assms(1) unfolding spoken_def by blast
  then show ?thesis
    unfolding spoken_def using assms(2,3) by (intro exI [of _ "ms @ [m]"]) (auto simp: frame_bytes_def)
qed

lemma spoken_send: "spoken P (c_sent c) \<Longrightarrow> P m \<Longrightarrow> spoken P (c_sent (fst (conn_send m c)))"
  by (auto simp: conn_send_def spoken_frame split: sum.split)

text \<open>So it is on every connection, and the messages that wait in the jobs satisfy \<open>P\<close> too.\<close>

definition voiced :: "(pydict \<Rightarrow> bool) \<Rightarrow> 'a tcp_scheme \<Rightarrow> bool" where
  "voiced P s \<longleftrightarrow> (\<forall>i c. conns s i = Some c \<longrightarrow> spoken P (c_sent c)) \<and> (\<forall>a m. ConnectTo a m \<in> set (jobs s) \<longrightarrow> P m)"

named_theorems voice_intros \<open>operations that keep what a manager has said\<close>

lemma voiced_same: "voiced P s \<Longrightarrow> conns s' = conns s \<Longrightarrow> set (jobs s') \<subseteq> set (jobs s) \<Longrightarrow> voiced P s'"
  by (auto simp: voiced_def)

lemma voiced_set: "voiced P s \<Longrightarrow> spoken P (c_sent c) \<Longrightarrow> voiced P (s\<lparr>conns := (conns s)(i \<mapsto> c)\<rparr>)"
  by (simp add: voiced_def)

lemma voiced_conn: "voiced P s \<Longrightarrow> conns s i = Some c \<Longrightarrow> spoken P (c_sent c)"
  by (simp add: voiced_def)

lemma voiced_new [voice_intros]: "voiced P s \<Longrightarrow> voiced P (s\<lparr>conns := (conns s)(i \<mapsto> new_conn a now)\<rparr>)"
  by (erule voiced_set) (simp add: new_conn_def)

lemma voiced_recv:
  "voiced P s \<Longrightarrow> conns s i = Some c \<Longrightarrow> conn_recv now c = (c', out) \<Longrightarrow> voiced P (s\<lparr>conns := (conns s)(i \<mapsto> c')\<rparr>)"
proof -
  assume V: "voiced P s" and c: "conns s i = Some c" "conn_recv now c = (c', out)"
  have "c_sent c' = c_sent c" using c(2) by (auto simp: conn_recv_def split: read_outcome.splits if_splits)
  then show ?thesis using voiced_set [OF V, of c'] voiced_conn [OF V c(1)] by simp
qed

lemma voiced_send [voice_intros]: "voiced P s \<Longrightarrow> P m \<Longrightarrow> voiced P (fst (send_conn i m s))"
  using spoken_send [of P _ m] by (auto simp: send_conn_def voiced_def split: option.split prod.split) (metis fst_conv)

lemma voiced_send_to [voice_intros]: "voiced P s \<Longrightarrow> P m \<Longrightarrow> voiced P (fst (send_to a m s))"
  by (auto simp: send_to_def intro: voice_intros split: option.split)

lemma voiced_broadcast [voice_intros]: "voiced P s \<Longrightarrow> P m \<Longrightarrow> voiced P (broadcast m ex s)"
proof -
  have "voiced P s \<Longrightarrow> P m \<Longrightarrow> voiced P (broadcast_to ps m ex s)" for ps
    by (induction ps m ex s rule: broadcast_to.induct) (auto intro: voice_intros)
  then show "voiced P s \<Longrightarrow> P m \<Longrightarrow> ?thesis" by (simp add: broadcast_def)
qed

lemma voiced_upd: "voiced P s \<Longrightarrow> (\<And>c. c_sent (f c) = c_sent c) \<Longrightarrow> voiced P (upd_conn i f s)"
  by (auto simp: voiced_def upd_conn_def)

lemma voiced_close [voice_intros]: "voiced P s \<Longrightarrow> voiced P (close_conn i s)"
  unfolding close_conn_def by (erule voiced_upd) (simp add: conn_close_def)

lemma voiced_peers [voice_intros]: "voiced P s \<Longrightarrow> voiced P (s\<lparr>peers := ps\<rparr>)"
  by (simp add: voiced_def)

lemma voiced_spawn [voice_intros]: "voiced P s \<Longrightarrow> (\<And>a m. j = ConnectTo a m \<Longrightarrow> P m) \<Longrightarrow> voiced P (spawn j s)"
  by (auto simp: voiced_def spawn_def)

lemma voiced_adopt [voice_intros]: "voiced P s \<Longrightarrow> voiced P (adopt rid a i s)"
proof -
  assume "voiced P s"
  then have "voiced P (upd_conn i (\<lambda>c. c\<lparr>c_addr := a\<rparr>) s)" by (rule voiced_upd) simp
  then have "voiced P (fst (remove_stale_peer (take 12 rid) (upd_conn i (\<lambda>c. c\<lparr>c_addr := a\<rparr>) s)))"
    by (auto simp: remove_stale_peer_def conn_close_def intro!: voiced_upd voiced_peers split: option.split)
  then show ?thesis by (simp add: adopt_def Let_def voiced_peers)
qed

lemma voiced_stop: "voiced P s \<Longrightarrow> P bye_msg \<Longrightarrow> voiced P (stop s)"
proof -
  have b: "voiced P s \<Longrightarrow> P bye_msg \<Longrightarrow> voiced P (bye_all ps s)" for ps and s :: "'a tcp_scheme"
    by (induction ps s rule: bye_all.induct) (auto intro: voiced_close [unfolded close_conn_def] voice_intros)
  assume "voiced P s" "P bye_msg"
  then have "voiced P (bye_all (peers s) (s\<lparr>stopped := True\<rparr>))" by (intro b) (simp_all add: voiced_def)
  then show ?thesis by (simp add: stop_def voiced_def)
qed

lemma voiced_scan: "voiced P s \<Longrightarrow> P hb \<Longrightarrow> voiced P (fst (heartbeat_scan now hb ps s))"
proof (induction ps arbitrary: s)
  case (Cons p ps)
  obtain a i where p: "p = (a, i)" by fastforce
  obtain s1 e where s: "send_conn i hb s = (s1, e)" by fastforce
  have "voiced P s1" using voiced_send [OF Cons.prems, of i] s by simp
  from Cons.IH [OF this Cons.prems(2)] show ?case by (simp add: p s Let_def split_beta)
qed simp

section \<open>The manager of a handler that speaks so\<close>

text \<open>
  \<open>I\<close> is what the handler knows of its owner: it speaks so as long as \<open>I\<close> holds, and nothing
  the manager does ends that.
\<close>

definition speaking :: "('a tcp_scheme \<Rightarrow> bool) \<Rightarrow> (pydict \<Rightarrow> bool) \<Rightarrow> 'a tcp_scheme \<Rightarrow> bool" where
  "speaking I P s \<longleftrightarrow> I s \<and> voiced P s"

locale speaker = inv_handler h I for h :: "('a tcp_scheme) handler" and I +
  fixes P :: "pydict \<Rightarrow> bool"
  assumes handler_speaks: "I s \<Longrightarrow> voiced P s \<Longrightarrow> voiced P (fst (h a m s))"
    and says_bye: "P bye_msg"
    and says_heartbeat: "I s \<Longrightarrow> P (heartbeat_msg (JStr (self_id s)) ts)"
begin

lemma S_call: "call_handler h a m s = (s', e) \<Longrightarrow> speaking I P s \<Longrightarrow> speaking I P s'"
  using P_handler [of s a m] handler_speaks [of s a m] by (auto simp: call_handler_def speaking_def split: if_splits)

lemma S_close: "speaking I P s \<Longrightarrow> speaking I P (close_conn i s)"
  by (simp add: speaking_def P_close voiced_close)

lemma S_peers: "speaking I P s \<Longrightarrow> speaking I P (s\<lparr>peers := ps\<rparr>)"
  by (simp add: speaking_def P_peers voiced_peers)

lemma S_loop: "speaking I P s \<Longrightarrow> speaking I P (spawn (ReadLoop a i) s)"
  by (auto simp: speaking_def P_spawn intro: voiced_spawn)

lemma S_adopt: "speaking I P s \<Longrightarrow> speaking I P (adopt rid a i s)"
  by (simp add: speaking_def P_adopt voiced_adopt)

lemma S_new: "speaking I P s \<Longrightarrow> speaking I P (s\<lparr>conns := (conns s)(i \<mapsto> new_conn a now)\<rparr>)"
  by (simp add: speaking_def P_conns voiced_new)

lemma S_recv:
  "speaking I P s \<Longrightarrow> conns s i = Some c \<Longrightarrow> conn_recv now c = (c', out) \<Longrightarrow> speaking I P (s\<lparr>conns := (conns s)(i \<mapsto> c')\<rparr>)"
  by (simp add: speaking_def P_conns voiced_recv)

lemma S_send: "send_conn i m s = (s', e) \<Longrightarrow> P m \<Longrightarrow> speaking I P s \<Longrightarrow> speaking I P s'"
  using P_send [of i m s s' e] voiced_send [of P s m i] by (simp add: speaking_def)

lemma S_end: "speaking I P s \<Longrightarrow> speaking I P (end_read_loop h a i s)"
  using S_call [OF prod.collapse [symmetric]] by (simp add: end_read_loop_def Let_def S_close S_peers)

lemma S_incoming: "speaking I P s \<Longrightarrow> speaking I P (handle_incoming h pn i out s)"
  by (auto simp: handle_incoming_def Let_def intro!: S_close S_loop
      dest: S_call [OF _ S_adopt] split: recv_out.split sum.split option.split prod.split)

lemma S_read: "speaking I P s \<Longrightarrow> speaking I P (fst (read_loop_step h now a i s))"
proof (cases "stopped s \<or> conns s i = None")
  case False
  assume S: "speaking I P s"
  obtain c where "conns s i = Some c" using False by blast
  moreover obtain c' out where "conn_recv now c = (c', out)" by fastforce
  ultimately have c: "conns s i = Some c" "conn_recv now c = (c', out)" .
  note S' = S_recv [OF S c]
  show ?thesis
    using False c by (auto simp: read_loop_step_def Let_def intro!: S_end S' dest: S_call [OF _ S']
        split: recv_out.split option.split prod.split)
qed (auto simp: read_loop_step_def S_end)

lemma S_finish: "speaking I P s \<Longrightarrow> speaking I P (fst (finish_connect h c i ack s))"
  by (auto simp: finish_connect_def Let_def intro!: S_close S_loop
      dest: S_call [OF _ S_adopt] split: recv_out.split sum.split option.split prod.split)

lemma S_connect:
  assumes "speaking I P s" "P hello"
  shows "speaking I P (fst (connect_to_peer h now ad hello net s))"
  by (auto simp: connect_to_peer_def Let_def assms(1) intro!: S_finish S_new [OF assms(1)]
      dest: S_send [OF _ assms(2) S_new [OF assms(1)]] split: dial_result.split sum.split option.split prod.split)

lemma S_purge: "speaking I P s \<Longrightarrow> speaking I P (fst (purge_dead h as s))"
proof (induction as arbitrary: s)
  case (Cons a as)
  show ?case
  proof (cases "map_of (peers s) a")
    case (Some i)
    define s1 where "s1 = close_conn i (s\<lparr>peers := dpop a (peers s)\<rparr>)"
    obtain s2 e where c: "call_handler h a bye_notice s1 = (s2, e)" by fastforce
    have "speaking I P s2" by (rule S_call [OF c]) (simp add: s1_def S_close S_peers Cons.prems)
    then show ?thesis using Some c Cons.IH by (cases e) (simp_all add: s1_def)
  qed (simp add: Cons)
qed simp

lemma S_tick: "speaking I P s \<Longrightarrow> speaking I P (fst (heartbeat_tick ord h now ts s))"
proof -
  assume S: "speaking I P s"
  let ?hb = "heartbeat_msg (JStr (self_id s)) ts"
  obtain s1 dead where sc: "heartbeat_scan now ?hb (peers s) s = (s1, dead)" by fastforce
  have "voiced P s1" using voiced_scan [of P s ?hb now "peers s"] S says_heartbeat [of s ts] sc by (simp add: speaking_def)
  moreover have "I s1"
    using more_heartbeat_scan [of now ?hb "peers s" s] heartbeat_scan_keeps [of s now ?hb "peers s"] sc S
    by (intro P_same [of s1 s]) (auto simp: keeps_table_def speaking_def)
  ultimately show ?thesis using sc S_purge by (simp add: heartbeat_tick_def speaking_def)
qed

lemma S_stop: "speaking I P s \<Longrightarrow> speaking I P (stop s)"
  using more_stop [of s] by (simp add: speaking_def voiced_stop says_bye) (metis P_same)

end

section \<open>Who a node is never changes\<close>

definition same_identity :: "identity \<Rightarrow> string \<Rightarrow> node \<Rightarrow> bool" where
  "same_identity i sid n \<longleftrightarrow> ident n = i \<and> self_id n = sid"

lemma same_identity_more:
  "tcp.more n' = tcp.more n \<Longrightarrow> self_id n' = self_id n \<Longrightarrow> same_identity i sid n \<Longrightarrow> same_identity i sid n'"
  using same_more(11) [of n' n] by (simp add: same_identity_def)

lemma ident_remember [simp]: "ident (remember_peer a n) = ident n"
  by (simp add: remember_peer_def Let_def)

lemma ident_handlers [simp]:
  "ident (fst (on_hello E a msg n)) = ident n" "ident (fst (on_hello_ack E a msg n)) = ident n"
  "ident (fst (on_query E a msg n)) = ident n" "ident (fst (on_query_resp a msg n)) = ident n"
  "ident (fst (on_interest_update a msg n)) = ident n" "ident (fst (get_caller_pubkey E nid n)) = ident n"
  "ident (on_bye a n) = ident n" "ident (count_message now a ty n) = ident n"
proof -
  show h: "ident (fst (on_hello E a msg n)) = ident n" for n
    by (auto simp: on_hello_def Let_def split: prod.splits option.splits sum.splits)
  show "ident (fst (on_hello_ack E a msg n)) = ident n"
    using same_more(11) [OF more_hello_ack, of E a msg n] h by simp
  show "ident (fst (on_query E a msg n)) = ident n" by (simp add: on_query_def Let_def)
  show "ident (fst (on_query_resp a msg n)) = ident n"
    by (auto simp: on_query_resp_def Let_def split: sum.split option.split prod.split)
  show "ident (fst (on_interest_update a msg n)) = ident n"
    by (auto simp: on_interest_update_def Let_def split: prod.split)
  show "ident (fst (get_caller_pubkey E nid n)) = ident n"
    by (auto simp: get_caller_pubkey_def Let_def split: option.split prod.split sum.split)
  show "ident (on_bye a n) = ident n" by (simp add: on_bye_def Let_def)
  show "ident (count_message now a ty n) = ident n" by (simp add: count_message_def Let_def)
qed

lemma ident_task [simp]: "ident (on_task E a msg n) = ident n"
  using same_more(11) [OF more_on_task, of E a msg n] by simp

lemma ident_result [simp]: "ident (fst (on_result E a msg n)) = ident n"
proof -
  obtain n1 res where c: "check_result_signature E a msg n = (n1, res)" by fastforce
  then have "ident n1 = ident n" using fst_result_sig [of E a msg n] by (simp split: if_splits)
  then show ?thesis by (simp add: on_result_def c split: sum.split sig_check.split option.split prod.split)
qed

lemma ident_handle [simp]: "ident (fst (handle_message E a j n)) = ident n"
  by (cases j) (simp_all add: handle_message_JObj Let_def dispatch_def, simp_all add: handle_message_def)

interpretation node_ident: inv_handler "handle_message E" "same_identity i sid" for E i sid
proof unfold_locales
  fix s a m assume "same_identity i sid s"
  then show "same_identity i sid (fst (handle_message E a m s))"
    using keeps_handle [of s E a m] by (simp add: same_identity_def keeps_table_def)
qed (rule same_identity_more)

section \<open>A node speaks as itself\<close>

text \<open>
  What a node's message says of the node: the sender of a HELLO, HELLO_ACK or HEARTBEAT and the
  caller of a TASK is the node's id, and a TASK or a RESULT that reports success carries the
  signature the node's key makes of the rest of it. Other messages are not constrained.
\<close>

definition vouched :: "ed25519 \<Rightarrow> identity \<Rightarrow> pydict \<Rightarrow> bool" where
  "vouched e me m \<longleftrightarrow>
     (let sid = JStr (node_id_of e me); ty = dget m ''type'' JNull;
          signed = (dget m ''signature'' JNull = JStr (identity_sign e me (without_signature m)))
      in (ty \<in> {JStr (mt HELLO), JStr (mt HELLO_ACK), JStr (mt HEARTBEAT)} \<longrightarrow> dget m ''node_id'' JNull = sid) \<and>
         (ty = JStr (mt TASK) \<longrightarrow> dget m ''caller'' (JStr []) = sid \<and> signed) \<and>
         (ty = JStr (mt RESULT) \<and> dget m ''status'' JNull = JStr ''success'' \<longrightarrow> signed))"

lemma vouched_builders [simp]:
  "vouched e me (hello_msg (JStr (node_id_of e me)) cs is tr v)"
  "vouched e me (hello_ack_msg (JStr (node_id_of e me)) cs is tr ps)"
  "vouched e me (heartbeat_msg (JStr (node_id_of e me)) ts)"
  "vouched e me (query_msg cap q ttl og)" "vouched e me (query_resp_msg q ns)" "vouched e me (interest_update_msg is)"
  "vouched e me bye_msg" "vouched e me (result_msg tid ''error'' p er [])"
  by (simp_all add: vouched_def Let_def dget_def hello_msg_def hello_ack_msg_def heartbeat_msg_def query_msg_def
      query_resp_msg_def interest_update_msg_def bye_msg_def result_msg_def)

lemma vouched_event [simp]: "vouched e me ((''type'', JStr (mt EVENT)) # m)"
  by (simp add: vouched_def Let_def dget_def)

text \<open>\<open>me\<close> is the identity of the node; its id is that of \<open>me\<close>.\<close>

abbreviation is_me :: "ed25519 \<Rightarrow> identity \<Rightarrow> node \<Rightarrow> bool" where
  "is_me e me \<equiv> same_identity me (node_id_of e me)"

lemma is_meD: "is_me e me n \<Longrightarrow> self_id n = node_id_of e me" "is_me e me n \<Longrightarrow> ident n = me"
  by (simp_all add: same_identity_def)

lemma vouched_hello: "is_me e me n \<Longrightarrow> vouched e me (build_hello_msg E n)"
  by (simp add: build_hello_msg_def is_meD)

lemma vouched_task: "is_me (ed E) me n \<Longrightarrow> vouched (ed E) me (signed_task E tid tg cap pl n)"
proof -
  assume n: "is_me (ed E) me n"
  have "dget (signed_task E tid tg cap pl n) ''type'' JNull = JStr (mt TASK)"
    by (simp add: signed_task_def Let_def dget_dset dget_dpop task_msg_def dget_def)
  then show ?thesis by (simp add: vouched_def Let_def signed_task_get is_meD [OF n])
qed

lemma vouched_result: "is_me (ed E) me n \<Longrightarrow> vouched (ed E) me (signed_result E tid out n)"
proof -
  assume n: "is_me (ed E) me n"
  let ?r = "result_msg tid ''success'' (if out = JNull then None else Some out) None []"
  have "without_signature (signed_result E tid out n) = without_signature ?r"
    by (simp add: signed_result_def Let_def without_signature_def filter_dset)
  then show ?thesis
    by (simp add: vouched_def Let_def signed_result_fields is_meD [OF n]) (simp add: signed_result_def Let_def is_meD [OF n])
qed

lemma vouched_accepted:
  "ed_ok e \<Longrightarrow> me = identity_of e sk \<Longrightarrow> vouched e me m \<Longrightarrow> dget m ''type'' JNull = JStr (mt TASK) \<Longrightarrow> ed E = e \<Longrightarrow> cache_ok e r \<Longrightarrow>
   snd (check_task_signature E m r) = Inr Sig_ok"
  by (rule signed_accepted) (simp_all add: vouched_def Let_def)

section \<open>The handlers\<close>

lemma voiced_fields [simp]:
  fixes n :: node
  shows "voiced P (n\<lparr>routing := t\<rparr>) = voiced P n" "voiced P (n\<lparr>last_peers := lp\<rparr>) = voiced P n"
    "voiced P (n\<lparr>seen_queries := sq\<rparr>) = voiced P n" "voiced P (n\<lparr>pubkey_cache := pc\<rparr>) = voiced P n"
    "voiced P (n\<lparr>pending_queries := pq\<rparr>) = voiced P n" "voiced P (n\<lparr>pending_results := pr\<rparr>) = voiced P n"
    "voiced P (n\<lparr>msg_count := mc\<rparr>) = voiced P n" "voiced P (n\<lparr>hello_count := hc\<rparr>) = voiced P n"
    "voiced P (n\<lparr>last_heartbeat_received := hb\<rparr>) = voiced P n" "voiced P (n\<lparr>tracker := tr\<rparr>) = voiced P n"
    "voiced P (n\<lparr>task_handler := th\<rparr>) = voiced P n" "voiced P (n\<lparr>pending_queue := q\<rparr>) = voiced P n"
    "voiced P (n\<lparr>reconnect_backoff := rb\<rparr>) = voiced P n" "voiced P (n\<lparr>reconnecting_peers := rp\<rparr>) = voiced P n"
    "voiced P (n\<lparr>shutdown_event := b\<rparr>) = voiced P n" "voiced P (n\<lparr>discovery := d\<rparr>) = voiced P n"
  by (simp_all add: voiced_def)

lemma is_me_fields [simp]:
  "is_me e me (n\<lparr>routing := t\<rparr>) = is_me e me n" "is_me e me (n\<lparr>seen_queries := sq\<rparr>) = is_me e me n"
  "is_me e me (n\<lparr>msg_count := mc\<rparr>) = is_me e me n" "is_me e me (n\<lparr>hello_count := hc\<rparr>) = is_me e me n"
  by (simp_all add: same_identity_def)

lemma voiced_try_send [voice_intros]: "voiced P n \<Longrightarrow> P m \<Longrightarrow> voiced P (try_send a m n)"
  by (simp add: try_send_def voiced_send_to)

lemma voiced_send_eq: "send_to a m n = (n', x) \<Longrightarrow> voiced P n \<Longrightarrow> P m \<Longrightarrow> voiced P n'"
  using voiced_send_to [of P n m a] by simp

lemma voiced_remember [voice_intros]: "voiced P n \<Longrightarrow> voiced P (remember_peer a n)"
  by (simp add: remember_peer_def Let_def)

lemma voiced_pubkey [voice_intros]: "voiced P n \<Longrightarrow> voiced P (fst (get_caller_pubkey E nid n))"
  by (auto simp: get_caller_pubkey_def Let_def split: option.splits prod.splits sum.splits)

lemma is_me_pubkey [simp]: "is_me e me (fst (get_caller_pubkey E nid n)) = is_me e me n"
  using keeps_pubkey [OF keeps_table_refl, of n E nid] by (simp add: same_identity_def keeps_table_def)

lemma voiced_hello: "is_me e me n \<Longrightarrow> voiced (vouched e me) n \<Longrightarrow> voiced (vouched e me) (fst (on_hello E a msg n))"
  by (auto simp: on_hello_def Let_def is_meD intro!: voice_intros split: prod.splits option.splits sum.splits)

lemma voiced_spawn_known: "voiced P n \<Longrightarrow> P hello \<Longrightarrow> voiced P (fst (spawn_known a hello ps n))"
proof (induction ps arbitrary: n)
  case (Cons p ps)
  have "voiced P (spawn (ConnectTo x hello) n)" for x using Cons.prems by (intro voice_intros) simp_all
  then show ?case using Cons by (auto split: sum.splits json.splits)
qed simp

lemma voiced_hello_ack: "is_me e me n \<Longrightarrow> voiced (vouched e me) n \<Longrightarrow> voiced (vouched e me) (fst (on_hello_ack E a msg n))"
proof -
  assume n: "is_me e me n" "voiced (vouched e me) n"
  obtain n1 x where h: "on_hello E a msg n = (n1, x)" by fastforce
  have "voiced (vouched e me) n1" using voiced_hello [OF n, of E a msg] h by simp
  moreover have "is_me e me n1"
    using ident_handlers(1) [of E a msg n] keeps_hello [OF keeps_table_refl, of n E a msg] n(1) h
    by (simp add: same_identity_def keeps_table_def)
  ultimately show ?thesis
    by (cases x) (auto simp: on_hello_ack_def h Let_def vouched_hello intro!: voiced_spawn_known split: sum.splits)
qed

lemma voiced_query: "voiced (vouched e me) n \<Longrightarrow> voiced (vouched e me) (fst (on_query E a msg n))"
  by (auto simp: on_query_def answer_or_forward_def Let_def intro!: voice_intros split: sum.splits bool.splits)

lemma voiced_query_resp: "voiced P n \<Longrightarrow> voiced P (fst (on_query_resp a msg n))"
  by (auto simp: on_query_resp_def Let_def split: sum.splits option.splits prod.splits)

lemma voiced_interest: "voiced P n \<Longrightarrow> voiced P (fst (on_interest_update a msg n))"
  by (auto simp: on_interest_update_def Let_def split: prod.splits)

lemma voiced_task_sig: "voiced P n \<Longrightarrow> voiced P (fst (check_task_signature E msg n))"
  using voiced_pubkey [of P n E "dget msg ''caller'' (JStr [])"]
  by (auto simp: check_task_signature_def Let_def split: prod.splits sum.splits option.splits)

lemma voiced_task:
  assumes "is_me (ed E) me n" "voiced (vouched (ed E) me) n"
  shows "voiced (vouched (ed E) me) (on_task E a msg n)"
proof -
  let ?P = "vouched (ed E) me"
  obtain n1 res where c: "check_task_signature E msg n = (n1, res)" by fastforce
  have v: "voiced ?P n1" using voiced_task_sig [OF assms(2), of E msg] c by simp
  have i: "is_me (ed E) me n1" using fst_task_sig [of E msg n] assms(1) c by (simp split: if_splits)
  obtain n2 e where b: "task_body E a msg n = (n2, e)" by fastforce
  have "voiced ?P n2" using b c v voiced_send_to [OF v, of _ a] vouched_result [OF i]
    by (auto simp: task_body_def Let_def split: sum.splits sig_check.splits if_splits dest: voiced_send_eq [OF _ v])
  then show ?thesis using b by (cases e) (auto simp: on_task_def intro!: voice_intros)
qed

lemma voiced_result: "voiced P n \<Longrightarrow> voiced P (fst (on_result E a msg n))"
proof -
  assume v: "voiced P n"
  obtain n1 res where c: "check_result_signature E a msg n = (n1, res)" by fastforce
  have "voiced P n1" using v voiced_pubkey [OF v] fst_result_sig [of E a msg n] c by (auto split: if_splits)
  then show ?thesis
    by (simp add: on_result_def c split: sum.split sig_check.split option.split prod.split)
qed

lemma voiced_bye: "voiced P n \<Longrightarrow> voiced P (on_bye a n)"
  by (auto simp: on_bye_def Let_def intro!: voice_intros)

lemma voiced_count: "voiced P (count_message now a ty n) = voiced P n" "is_me e me (count_message now a ty n) = is_me e me n"
  by (simp_all add: count_message_def Let_def)

lemma voiced_handle:
  "is_me (ed E) me n \<Longrightarrow> voiced (vouched (ed E) me) n \<Longrightarrow> voiced (vouched (ed E) me) (fst (handle_message E a j n))"
  by (cases j) (simp_all add: handle_message_JObj Let_def dispatch_def voiced_count voiced_hello voiced_hello_ack voiced_query
      voiced_query_resp voiced_interest voiced_task voiced_result voiced_bye, simp_all add: handle_message_def)

interpretation node_voice: speaker "handle_message E" "is_me (ed E) me" "vouched (ed E) me" for E me
  by unfold_locales (auto intro: voiced_handle simp: is_meD)

end
