(* ===== verification/Node_Steps.thy ===== *)
theory Node_Steps
  imports Voices
begin

text \<open>
  The node as a state machine: every event a running node takes part in is a step, whatever
  the order, and the invariants hold in every state it reaches. A preservation lemma for each
  operation, then rule induction over the steps.
\<close>

section \<open>The node's own invariant\<close>

text \<open>
  The interest table keeps each peer once, with distinct capabilities that can be looked up;
  the cache of keys holds the keys of their ids; the id is that of the node's key; every line
  of the queue file is complete; and on the local network the node announces only itself.
\<close>

definition table_ok :: "interest_table \<Rightarrow> bool" where
  "table_ok t \<longleftrightarrow> distinct (known_peers t) \<and>
     (\<forall>a cs. map_of (peer_caps t) a = Some cs \<longrightarrow> distinct cs \<and> list_all hashable cs)"

definition lan_ok :: "node \<Rightarrow> bool" where
  "lan_ok n \<longleftrightarrow> (\<forall>l. discovery n = Some l \<longrightarrow> lan_inv l \<and> lan_id l = self_id n)"

definition app_inv :: "ed25519 \<Rightarrow> node \<Rightarrow> bool" where
  "app_inv e n \<longleftrightarrow> cache_ok e n \<and> own_identity e n \<and> queue_inv (pending_queue n) \<and> table_ok (routing n) \<and> lan_ok n"

lemma table_ok_register: "table_ok t \<Longrightarrow> table_ok (fst (register_peer a cs ints t))"
  using cap_names_distinct [of cs] cap_names_hashable [of cs]
  by (auto simp: table_ok_def register_peer_def known_peers_def Let_def set_dset
      split: prod.split option.split sum.split)

lemma table_ok_remove: "table_ok t \<Longrightarrow> table_ok (remove_peer a t)"
  by (auto simp: table_ok_def remove_peer_def known_peers_def Let_def split: if_splits)

lemma table_ok_local:
  "table_ok (t\<lparr>local_caps := x\<rparr>) = table_ok t" "table_ok (t\<lparr>local_interests := x\<rparr>) = table_ok t"
  by (simp_all add: table_ok_def known_peers_def)

lemma app_inv_more:
  "tcp.more n' = tcp.more n \<Longrightarrow> self_id n' = self_id n \<Longrightarrow> app_inv e n \<Longrightarrow> app_inv e n'"
  using same_more [of n' n] by (simp add: app_inv_def cache_ok_def own_identity_def lan_ok_def)

text \<open>The fields the invariant does not speak of.\<close>

lemma app_inv_fields [simp]:
  "app_inv e (n\<lparr>seen_queries := q\<rparr>) = app_inv e n" "app_inv e (n\<lparr>last_peers := lp\<rparr>) = app_inv e n"
  "app_inv e (n\<lparr>pending_queries := pq\<rparr>) = app_inv e n" "app_inv e (n\<lparr>pending_results := pr\<rparr>) = app_inv e n"
  "app_inv e (n\<lparr>msg_count := mc\<rparr>) = app_inv e n" "app_inv e (n\<lparr>hello_count := hc\<rparr>) = app_inv e n"
  "app_inv e (n\<lparr>last_heartbeat_received := hb\<rparr>) = app_inv e n" "app_inv e (n\<lparr>jobs := js\<rparr>) = app_inv e n"
  "app_inv e (n\<lparr>conns := cs\<rparr>) = app_inv e n" "app_inv e (n\<lparr>reconnect_backoff := rb\<rparr>) = app_inv e n"
  "app_inv e (n\<lparr>reconnecting_peers := rp\<rparr>) = app_inv e n" "app_inv e (n\<lparr>tracker := tr\<rparr>) = app_inv e n"
  "app_inv e (n\<lparr>task_handler := th\<rparr>) = app_inv e n" "app_inv e (n\<lparr>shutdown_event := b\<rparr>) = app_inv e n"
  by (simp_all add: app_inv_def cache_ok_def own_identity_def lan_ok_def)

lemma app_inv_routing: "app_inv e n \<Longrightarrow> table_ok t \<Longrightarrow> app_inv e (n\<lparr>routing := t\<rparr>)"
  by (simp add: app_inv_def cache_ok_def own_identity_def lan_ok_def)

lemma app_inv_queue: "app_inv e n \<Longrightarrow> queue_inv q \<Longrightarrow> app_inv e (n\<lparr>pending_queue := q\<rparr>)"
  by (simp add: app_inv_def cache_ok_def own_identity_def lan_ok_def)

lemma app_inv_discovery:
  "app_inv e n \<Longrightarrow> (\<And>l. d = Some l \<Longrightarrow> lan_inv l \<and> lan_id l = self_id n) \<Longrightarrow> app_inv e (n\<lparr>discovery := d\<rparr>)"
  by (simp add: app_inv_def cache_ok_def own_identity_def lan_ok_def)

lemma self_keeps: "keeps_table n n' \<Longrightarrow> self_id n' = self_id n"
  by (simp add: keeps_table_def)

lemma app_inv_send_to: "app_inv e n \<Longrightarrow> app_inv e (fst (send_to a m n))"
  by (erule app_inv_more [rotated 2]) (simp_all add: self_keeps [OF keeps_send_to])

lemma app_inv_try_send: "app_inv e n \<Longrightarrow> app_inv e (try_send a m n)"
  by (simp add: try_send_def app_inv_send_to)

lemma app_inv_broadcast: "app_inv e n \<Longrightarrow> app_inv e (broadcast m ex n)"
  by (erule app_inv_more [rotated 2]) (simp_all add: self_keeps [OF keeps_broadcast])

lemma app_inv_spawn [simp]: "app_inv e (spawn j n) = app_inv e n"
  by (simp add: spawn_def)

lemma app_inv_remember [simp]: "app_inv e (remember_peer a n) = app_inv e n"
  by (simp add: remember_peer_def Let_def)

lemma app_inv_pubkey: "app_inv (ed E) n \<Longrightarrow> app_inv (ed E) (fst (get_caller_pubkey E nid n))"
proof -
  assume inv: "app_inv (ed E) n"
  let ?n = "fst (get_caller_pubkey E nid n)"
  have "ident ?n = ident n \<and> pending_queue ?n = pending_queue n \<and> self_id ?n = self_id n \<and> discovery ?n = discovery n"
    by (auto simp: get_caller_pubkey_def Let_def split: option.split sum.split prod.split)
  moreover have "cache_ok (ed E) ?n"
  proof (cases "hashable nid")
    case True
    then show ?thesis using pubkey_cached [of E n nid] inv by (simp add: app_inv_def)
  qed (use inv in \<open>simp add: get_caller_pubkey_def app_inv_def\<close>)
  ultimately show ?thesis using inv by (simp add: app_inv_def own_identity_def lan_ok_def)
qed

lemma app_inv_hello: "app_inv e n \<Longrightarrow> app_inv e (fst (on_hello E a msg n))"
proof -
  assume inv: "app_inv e n"
  obtain t x where r: "register_peer a (dget msg ''caps'' (JObj [])) (dget msg ''interests'' (JArr [])) (routing n) = (t, x)"
    by fastforce
  have "table_ok t" using table_ok_register [of "routing n" a] inv r by (metis app_inv_def fst_conv)
  then have "app_inv e (n\<lparr>routing := t\<rparr>)" by (rule app_inv_routing [OF inv])
  then show ?thesis
    by (cases x) (auto simp: on_hello_def r Let_def app_inv_try_send split: sum.split)
qed

lemma app_inv_spawn_known: "app_inv e n \<Longrightarrow> app_inv e (fst (spawn_known a hello ps n))"
  by (induction ps arbitrary: n) (auto split: sum.split json.split)

lemma app_inv_hello_ack: "app_inv e n \<Longrightarrow> app_inv e (fst (on_hello_ack E a msg n))"
proof -
  assume inv: "app_inv e n"
  obtain n1 x where h: "on_hello E a msg n = (n1, x)" by fastforce
  then have "app_inv e n1" using app_inv_hello [OF inv, of E a msg] by simp
  then show ?thesis
    by (cases x) (auto simp: on_hello_ack_def h Let_def app_inv_spawn_known split: sum.split)
qed

lemma app_inv_query: "app_inv e n \<Longrightarrow> app_inv e (fst (on_query E a msg n))"
  by (auto simp: on_query_def answer_or_forward_def Let_def app_inv_try_send app_inv_broadcast
      split: sum.split bool.split)

lemma app_inv_query_resp: "app_inv e n \<Longrightarrow> app_inv e (fst (on_query_resp a msg n))"
  by (auto simp: on_query_resp_def Let_def split: sum.split option.split prod.split)

lemma app_inv_interest: "app_inv e n \<Longrightarrow> app_inv e (fst (on_interest_update a msg n))"
proof -
  assume inv: "app_inv e n"
  have "app_inv e (n\<lparr>routing := fst (register_peer a cj ij (routing n))\<rparr>)" for cj ij
    by (rule app_inv_routing [OF inv table_ok_register]) (use inv in \<open>simp add: app_inv_def\<close>)
  then show ?thesis by (auto simp: on_interest_update_def Let_def split_beta)
qed

lemma app_inv_task: "app_inv (ed E) n \<Longrightarrow> app_inv (ed E) (on_task E a msg n)"
proof -
  assume inv: "app_inv (ed E) n"
  have "app_inv (ed E) (fst (check_task_signature E msg n))"
    using app_inv_pubkey [OF inv] inv by simp
  then show ?thesis
    by (rule app_inv_more [rotated 2]) (simp add: more_on_task, simp add: self_keeps [OF keeps_task [OF keeps_table_refl]]
      self_keeps [OF keeps_pubkey [OF keeps_table_refl]])
qed

lemma app_inv_result: "app_inv (ed E) n \<Longrightarrow> app_inv (ed E) (fst (on_result E a msg n))"
proof -
  assume inv: "app_inv (ed E) n"
  obtain n1 r where c: "check_result_signature E a msg n = (n1, r)" by fastforce
  have "app_inv (ed E) (fst (check_result_signature E a msg n))" using app_inv_pubkey [OF inv] inv by simp
  then have "app_inv (ed E) n1" using c by (simp only: fst_conv)
  then show ?thesis
    by (auto simp: on_result_def c split: sum.split sig_check.split option.split prod.split)
qed

lemma app_inv_bye: "app_inv e n \<Longrightarrow> app_inv e (on_bye a n)"
proof -
  assume inv: "app_inv e n"
  have "app_inv e (n\<lparr>routing := remove_peer a (routing n)\<rparr>)"
    by (rule app_inv_routing [OF inv table_ok_remove]) (use inv in \<open>simp add: app_inv_def\<close>)
  then show ?thesis by (simp add: on_bye_def Let_def)
qed

lemma app_inv_count [simp]: "app_inv e (count_message now a ty n) = app_inv e n"
  by (simp add: count_message_def Let_def)

lemma app_inv_dispatch: "app_inv (ed E) n \<Longrightarrow> app_inv (ed E) (fst (dispatch E ty a msg n))"
  by (simp add: dispatch_def app_inv_hello app_inv_hello_ack app_inv_query app_inv_query_resp app_inv_interest
      app_inv_task app_inv_result)

lemma app_inv_handle: "app_inv (ed E) n \<Longrightarrow> app_inv (ed E) (fst (handle_message E a j n))"
  by (cases j) (simp_all add: handle_message_JObj Let_def app_inv_bye app_inv_dispatch, simp_all add: handle_message_def)

interpretation node_app: inv_handler "handle_message E" "app_inv (ed E)" for E
  by unfold_locales (auto intro: app_inv_handle app_inv_more)


section \<open>The operations of the application\<close>

text \<open>What the node has said it said as itself.\<close>

definition voice_ok :: "ed25519 \<Rightarrow> node \<Rightarrow> bool" where
  "voice_ok e n \<longleftrightarrow> voiced (vouched e (ident n)) n"

definition node_inv :: "ed25519 \<Rightarrow> identity \<Rightarrow> node \<Rightarrow> bool" where
  "node_inv e me n \<longleftrightarrow> tcp_inv n \<and> app_inv e n \<and> voice_ok e n \<and> ident n = me"

lemma app_inv_me: "app_inv e n \<Longrightarrow> is_me e (ident n) n"
  by (auto simp: app_inv_def own_identity_def same_identity_def)

lemma node_inv_speaking: "node_inv e me n \<Longrightarrow> speaking (is_me e me) (vouched e me) n"
  by (auto simp add: node_inv_def speaking_def voice_ok_def app_inv_me)

lemma node_invI: "tcp_inv n' \<Longrightarrow> app_inv e n' \<Longrightarrow> speaking (is_me e me) (vouched e me) n' \<Longrightarrow> node_inv e me n'"
  by (auto simp: node_inv_def speaking_def voice_ok_def same_identity_def)

lemma node_inv_fewer_jobs: "node_inv e me n \<Longrightarrow> set js \<subseteq> set (jobs n) \<Longrightarrow> node_inv e me (n\<lparr>jobs := js\<rparr>)"
  by (auto simp: node_inv_def tcp_inv_def voice_ok_def voiced_def)

lemma node_inv_job_done: "node_inv e me n \<Longrightarrow> node_inv e me (n\<lparr>jobs := remove1 j (jobs n)\<rparr>)"
  by (rule node_inv_fewer_jobs) (simp_all add: set_remove1_subset)

text \<open>
  An operation that leaves the table of peers alone, keeps the node's own invariant and speaks
  as the node.
\<close>

definition harmless :: "ed25519 \<Rightarrow> node \<Rightarrow> node \<Rightarrow> bool" where
  "harmless e n n' \<longleftrightarrow> keeps_table n n' \<and> ident n' = ident n \<and>
     (app_inv e n \<longrightarrow> app_inv e n' \<and> (voice_ok e n \<longrightarrow> voice_ok e n'))"

lemma harmless_refl [simp, intro]: "harmless e n n"
  by (simp add: harmless_def)

lemma harmless_trans: "harmless e n n1 \<Longrightarrow> harmless e n1 n2 \<Longrightarrow> harmless e n n2"
  by (auto simp: harmless_def intro: keeps_table_trans)

lemma harmless_inv: "harmless e n n' \<Longrightarrow> node_inv e me n \<Longrightarrow> node_inv e me n'"
  by (auto simp: harmless_def node_inv_def intro: tcp_inv_keeps)

lemma harmless_ident: "harmless e n n' \<Longrightarrow> ident n' = ident n" "harmless e n n' \<Longrightarrow> app_inv e n \<Longrightarrow> app_inv e n'"
  by (simp_all add: harmless_def)

lemma harmless_send:
  assumes "send_to a m n = (n', x)" "app_inv e n \<Longrightarrow> vouched e (ident n) m"
  shows "harmless e n n'"
  using assms keeps_send_to [of n a m] app_inv_send_to [of e n a m] voiced_send_to [of "vouched e (ident n)" n m a]
    node_send_to(11) [of a m n]
  by (simp add: harmless_def voice_ok_def)

lemma harmless_send_fst: "(app_inv e n \<Longrightarrow> vouched e (ident n) m) \<Longrightarrow> harmless e n (fst (send_to a m n))"
  using harmless_send [OF prod.collapse [symmetric]] by blast

lemma harmless_broadcast: "(app_inv e n \<Longrightarrow> vouched e (ident n) m) \<Longrightarrow> harmless e n (broadcast m ex n)"
  by (auto simp: harmless_def app_inv_broadcast voice_ok_def intro: voiced_broadcast)

lemma harmless_fields:
  "harmless e n (n\<lparr>pending_results := pr\<rparr>)" "harmless e n (n\<lparr>pending_queries := pq\<rparr>)"
  "harmless e n (n\<lparr>reconnect_backoff := rb\<rparr>)" "harmless e n (n\<lparr>reconnecting_peers := rp\<rparr>)"
  "harmless e n (n\<lparr>task_handler := th\<rparr>)" "harmless e n (n\<lparr>tracker := tr\<rparr>)"
  "harmless e n (n\<lparr>shutdown_event := b\<rparr>)"
  by (simp_all add: harmless_def keeps_table_def voice_ok_def)

lemma harmless_lan:
  assumes "\<And>l. lan_inv l \<Longrightarrow> lan_inv (f l) \<and> lan_id (f l) = lan_id l"
  shows "harmless e n (n\<lparr>discovery := map_option f (discovery n)\<rparr>)"
proof -
  have "app_inv e n \<Longrightarrow> app_inv e (n\<lparr>discovery := map_option f (discovery n)\<rparr>)"
    using assms by (intro app_inv_discovery) (auto simp: app_inv_def lan_ok_def)
  then show ?thesis by (simp add: harmless_def keeps_table_def voice_ok_def)
qed

lemma harmless_enqueue: "harmless e n (n\<lparr>pending_queue := enqueue io t (pending_queue n)\<rparr>)"
  using queue_inv_enqueue app_inv_queue by (auto simp: harmless_def keeps_table_def app_inv_def voice_ok_def)

lemma harmless_save: "harmless e n (n\<lparr>pending_queue := save_all io ts (pending_queue n)\<rparr>)"
  using queue_inv_save app_inv_queue by (auto simp: harmless_def keeps_table_def app_inv_def voice_ok_def)

lemma harmless_finish: "finish_send E created tid req r n = (n', st) \<Longrightarrow> harmless e n n'"
  by (auto simp: finish_send_eq harmless_enqueue split: if_splits)

lemma harmless_direct:
  assumes "send_direct E created tid a m req n = (n', st)" "app_inv e n \<Longrightarrow> vouched e (ident n) m"
  shows "harmless e n n'"
  using assms
  by (auto simp: send_direct_def expect_result_def split: prod.splits option.splits
      intro: harmless_trans [OF harmless_send harmless_finish] harmless_trans [OF harmless_send harmless_fields(1)])

lemma own_task: "app_inv (ed E) n \<Longrightarrow> vouched (ed E) (ident n) (signed_task E tid tg cap pl n)"
  by (intro vouched_task app_inv_me)

lemma harmless_via: "via_tracker E rtid tn tg cap pl ttl n = (n', x) \<Longrightarrow> harmless (ed E) n n'"
  by (auto simp: via_tracker_def Let_def expect_result_def split: sum.splits option.splits prod.splits if_split_asm
      intro: harmless_send own_task harmless_trans [OF harmless_send harmless_fields(1)])

lemma harmless_send_task:
  assumes "send_task E created tid rtid qid req n = (n', st)"
  shows "harmless (ed E) n n'"
proof (cases "connected n")
  case True
  show ?thesis
  proof (cases "py_truthy (sr_target req)")
    case t: True
    show ?thesis
    proof (cases "\<exists>a. target_peer (sr_target req) n = Inr (Some a) \<or> isl (target_peer (sr_target req) n)")
      case True
      then show ?thesis
        using assms \<open>connected n\<close> t
        by (auto simp: send_task_def Let_def intro: harmless_direct own_task split: sum.splits)
    next
      case False
      then have "target_peer (sr_target req) n = Inr None"
        by (cases "target_peer (sr_target req) n") auto
      then show ?thesis
        using assms \<open>connected n\<close> t
        by (auto simp: send_task_def Let_def split: prod.splits sum.splits option.splits
            intro: harmless_via harmless_trans [OF harmless_via harmless_finish])
    qed
  next
    case False
    then show ?thesis
      using assms \<open>connected n\<close>
      by (auto simp: send_task_def Let_def split: sum.splits option.splits
          intro: harmless_direct own_task harmless_trans [OF harmless_fields(2) harmless_broadcast])
  qed
qed (use assms in \<open>auto simp: send_task_def\<close>)

lemma harmless_take: "take_result to tid n = (n', x) \<Longrightarrow> harmless e n n'"
  "take_query to qid n = (n', y) \<Longrightarrow> harmless e n n'"
  by (auto simp: take_result_def take_query_def harmless_fields split: option.splits if_splits prod.splits)

text \<open>A wait that is the node's own: the task that goes on when a query is answered is one it signed.\<close>

definition own_wait :: "ed25519 \<Rightarrow> node \<Rightarrow> send_state \<Rightarrow> bool" where
  "own_wait e n st \<longleftrightarrow>
     (case st of
        Wait_query qid tid m req \<Rightarrow>
          (\<exists>E n0 tg cap pl. ed E = e \<and> ident n0 = ident n \<and> self_id n0 = self_id n \<and> m = signed_task E tid tg cap pl n0)
      | _ \<Rightarrow> True)"

lemma own_wait_task:
  assumes "own_wait e n (Wait_query qid tid m req)" "app_inv e n"
  shows "vouched e (ident n) m"
proof -
  obtain E n0 tg cap pl where o: "ed E = e" "ident n0 = ident n" "self_id n0 = self_id n" "m = signed_task E tid tg cap pl n0"
    using assms(1) by (auto simp: own_wait_def)
  have "is_me (ed E) (ident n) n0" using app_inv_me [OF assms(2)] o(1-3) by (simp add: same_identity_def)
  from vouched_task [OF this, of tid tg cap pl] show ?thesis using o(1,4) by simp
qed

text \<open>The waits of the code are of this kind: a send leaves one, and resuming it leaves one.\<close>

lemma finish_send_wait: "finish_send E created tid req r n = (n', st) \<Longrightarrow> own_wait e n st"
  by (auto simp: finish_send_eq own_wait_def split: if_splits)

lemma send_direct_wait: "send_direct E created tid a m req n = (n', st) \<Longrightarrow> own_wait e n' st"
  by (auto simp: send_direct_def finish_send_eq own_wait_def split: prod.splits option.splits if_splits)

lemma send_task_wait:
  assumes "send_task E created tid rtid qid req n = (n', st)"
  shows "own_wait (ed E) n st"
proof (cases st)
  case (Wait_query q t m r)
  have "m = signed_task E t (sr_target req) (sr_capability req) (sr_payload req) n"
    using assms Wait_query
    by (auto simp: send_task_def send_direct_def finish_send_eq Let_def split: if_splits sum.splits option.splits prod.splits)
  then show ?thesis using Wait_query by (simp add: own_wait_def) blast
qed (auto simp: own_wait_def)

lemma harmless_resume:
  assumes "resume_send E created to st n = (n', st')" "own_wait e n st"
  shows "harmless e n n'"
proof (cases st)
  case (Wait_query qid tid m req)
  obtain n1 x where t: "take_query to qid n = (n1, x)" by fastforce
  have h: "harmless e n n1" by (rule harmless_take(2) [OF t])
  show ?thesis
  proof (cases "\<exists>col a. x = Some col \<and> query_answer col = Inr (JStr a) \<and> a \<noteq> []")
    case True
    have "self_id n1 = self_id n" using h by (simp add: harmless_def keeps_table_def)
    then have "own_wait e n1 (Wait_query qid tid m req)"
      using assms(2) Wait_query harmless_ident(1) [OF h] by (simp add: own_wait_def)
    then have "harmless e n1 n2" if "send_direct E created tid a m req n1 = (n2, st2)" for a n2 st2
      using harmless_direct [OF that] own_wait_task by blast
    then show ?thesis
      using True assms(1) Wait_query t h by (auto simp: resume_send_def intro: harmless_trans)
  next
    case False
    then show ?thesis
      using assms(1) Wait_query t h
      by (auto simp: resume_send_def intro: harmless_trans [OF _ harmless_finish]
          split: option.splits sum.splits if_splits json.splits)
  qed
qed (use assms(1) in \<open>auto simp: resume_send_def split: prod.splits option.splits
    intro: harmless_take(1) harmless_trans [OF harmless_take(1) harmless_finish]\<close>)

lemma harmless_async: "harmless (ed E) n (fst (send_task_async E tg cap pl tid n))"
  by (auto simp: send_task_async_def Let_def try_send_def own_task intro!: harmless_broadcast harmless_send_fst split: sum.split option.split)

lemma harmless_event: "harmless e n (fst (publish_event E ty tg d eid n))"
  by (auto simp: publish_event_def Let_def intro!: harmless_broadcast harmless_send_fst)

lemma harmless_retry: "harmless e n (retry_finish E t r n)"
  by (auto simp: retry_finish_def Let_def harmless_save split: sum.split)

lemma harmless_flush: "harmless e n (flush_pending E n)"
proof -
  have f: "harmless e n (foldl (\<lambda>n t. spawn (RetryTask t) n) n ts)" for ts
  proof (induction ts arbitrary: n)
    case (Cons t ts)
    have "harmless e n (spawn (RetryTask t) n)" by (auto simp: harmless_def voice_ok_def intro: voiced_spawn)
    from harmless_trans [OF this Cons.IH] show ?case by simp
  qed simp
  show ?thesis
    by (auto simp: flush_pending_def Let_def f intro: harmless_trans [OF f harmless_save] split: prod.split)
qed

lemma harmless_register: "harmless e n (fst (node_register ags mds tls n))"
proof -
  have r: "harmless e n (n\<lparr>tracker := tr, routing := t\<rparr>)" "harmless e n (n\<lparr>routing := t, tracker := tr\<rparr>)"
    if "table_ok (routing n) \<longrightarrow> table_ok t" for tr t
    using that by (auto simp: harmless_def keeps_table_def app_inv_def cache_ok_def own_identity_def lan_ok_def voice_ok_def)
  have ok: "table_ok (routing n) \<Longrightarrow> set_local_caps cs (routing n) = (t, x) \<Longrightarrow> table_ok t" for cs t x
    by (auto simp: set_local_caps_def table_ok_local split: prod.splits)
  have ok2: "table_ok t \<Longrightarrow> set_local_interests js t = Inr t' \<Longrightarrow> table_ok t'" for t js t'
    by (auto simp: set_local_interests_def bindE_Inr_iff table_ok_local)
  show ?thesis
    by (auto simp: node_register_def Let_def split: prod.split option.split sum.split
        intro!: harmless_trans [OF _ harmless_broadcast] r intro: ok ok2)
qed


lemma harmless_leave: "harmless e n (leave_reconnect a n)"
  by (simp add: leave_reconnect_def harmless_fields)

lemma harmless_head: "harmless e n (fst (reconnect_head a n))"
  by (auto simp: reconnect_head_def harmless_leave harmless_fields Let_def
      intro: harmless_trans [OF harmless_fields(3) harmless_leave])

lemma harmless_discover: "discover_resume E to qid n = (n', ds) \<Longrightarrow> harmless e n n'"
  by (auto simp: discover_resume_def take_query_def harmless_fields split: option.splits prod.splits if_splits)

lemma harmless_start: "harmless e n (fst (reconnect_start a n))"
  by (auto simp: reconnect_start_def intro: harmless_trans [OF harmless_fields(4) harmless_head])

section \<open>Dialling\<close>

text \<open>The network gives a connection that is not in use.\<close>

definition fresh_net :: "(string \<Rightarrow> dial_result) \<Rightarrow> string \<Rightarrow> node \<Rightarrow> bool" where
  "fresh_net net a n \<longleftrightarrow> (\<forall>i ack. net a = Opened i ack \<longrightarrow> conns n i = None)"

lemma node_inv_hello: "node_inv e me n \<Longrightarrow> vouched e me (build_hello_msg E n)"
  by (auto simp: node_inv_def intro: vouched_hello app_inv_me)

lemma dial_inv:
  assumes "node_inv (ed E) me n" "fresh_net net a n" "vouched (ed E) me hello"
  shows "node_inv (ed E) me (fst (dial E net hello a n))"
  unfolding dial_def
proof (rule node_invI [OF _ _ node_voice.S_connect [OF node_inv_speaking [OF assms(1)] assms(3)]])
  show "tcp_inv (fst (connect_to_peer (handle_message E) (mono E) a hello (net a) n))"
    using node_handler.connect_to_peer_inv [of n "net a" E "mono E" a hello] assms(1,2)
    by (auto simp: node_inv_def fresh_net_def)
  show "app_inv (ed E) (fst (connect_to_peer (handle_message E) (mono E) a hello (net a) n))"
    using node_app.P_connect [of E n "mono E" a hello "net a"] assms(1) by (simp add: node_inv_def)
qed

lemma wake_inv:
  assumes "node_inv (ed E) me n" "fresh_net (\<lambda>_. net) a n"
  shows "node_inv (ed E) me (fst (reconnect_wake E net a n))"
proof -
  obtain n1 r where d: "dial E (\<lambda>_. net) (build_hello_msg E n) a n = (n1, r)" by fastforce
  have i: "node_inv (ed E) me n1" using dial_inv [OF assms node_inv_hello [OF assms(1)]] d by (metis fst_conv)
  have "harmless (ed E) n1 (leave_reconnect a (n1\<lparr>reconnect_backoff := b\<rparr>))" for b
    by (rule harmless_trans [OF harmless_fields(3) harmless_leave])
  then show ?thesis
    using harmless_inv [OF harmless_leave i] harmless_inv [OF harmless_leave assms(1)] harmless_inv [OF harmless_head i]
      harmless_inv [OF _ i] d
    by (cases r) (auto simp: reconnect_wake_def)
qed

section \<open>Steps of a node\<close>

text \<open>
  One step of a node: it accepts or reads a connection, a background job runs to its next
  wait, the heartbeat ticks, or the application calls an operation. The clocks and the answers
  of the network differ from step to step; \<open>e\<close> are the primitives. A send that waits is any
  value of \<open>send_state\<close> that is the node's own (\<open>own_wait\<close>), so the relation allows every
  resumption the code can make, and a HELLO is one the node built at some time (\<open>own_hello\<close>). A dial
  is one step when its answer comes before anything else happens (\<open>Dial\<close> and the jobs), and
  two when other steps come between its HELLO and the answer (\<open>Dial_open\<close>, \<open>Dial_ack\<close>).
\<close>

definition own_hello :: "node \<Rightarrow> pydict \<Rightarrow> bool" where
  "own_hello n hello \<longleftrightarrow> (\<exists>cs is tr v. hello = hello_msg (JStr (self_id n)) cs is tr v)"

lemma build_hello_own: "self_id m = self_id n \<Longrightarrow> own_hello n (build_hello_msg E m)"
  by (auto simp: own_hello_def build_hello_msg_def)

inductive own_step :: "ed25519 \<Rightarrow> node \<Rightarrow> node \<Rightarrow> bool" for e where
  Accept: "conns n i = None \<Longrightarrow> own_step e n (n\<lparr>conns := (conns n)(i \<mapsto> new_conn a now)\<rparr>)"
| Incoming: "ed E = e \<Longrightarrow> conns n i = Some c \<Longrightarrow> i \<notin> snd ` set (peers n) \<Longrightarrow> conn_recv (mono E) c = (c', out) \<Longrightarrow>
    own_step e n (handle_incoming (handle_message E) pn i out (n\<lparr>conns := (conns n)(i \<mapsto> c')\<rparr>))"
| Read: "ed E = e \<Longrightarrow> ReadLoop a i \<in> set (jobs n) \<Longrightarrow> read_loop_step (handle_message E) (mono E) a i n = (n', True) \<Longrightarrow>
    own_step e n n'"
| Read_end: "ed E = e \<Longrightarrow> ReadLoop a i \<in> set (jobs n) \<Longrightarrow> read_loop_step (handle_message E) (mono E) a i n = (n', False) \<Longrightarrow>
    own_step e n (n'\<lparr>jobs := remove1 (ReadLoop a i) (jobs n')\<rparr>)"
| Connect_job: "ed E = e \<Longrightarrow> ConnectTo a hello \<in> set (jobs n) \<Longrightarrow> fresh_net net a n \<Longrightarrow>
    dial E net hello a n = (n', r) \<Longrightarrow> own_step e n (n'\<lparr>jobs := remove1 (ConnectTo a hello) (jobs n')\<rparr>)"
| Flush_job: "ed E = e \<Longrightarrow> FlushPending \<in> set (jobs n) \<Longrightarrow>
    own_step e n ((flush_pending E n)\<lparr>jobs := remove1 FlushPending (jobs (flush_pending E n))\<rparr>)"
| Flush_tick: "ed E = e \<Longrightarrow> own_step e n (flush_pending E n)"
| Retry_job: "ed E = e \<Longrightarrow> RetryTask t \<in> set (jobs n) \<Longrightarrow> send_task E created tid rtid qid (retry_req t) n = (n', st) \<Longrightarrow>
    own_step e n (n'\<lparr>jobs := remove1 (RetryTask t) (jobs n')\<rparr>)"
| Retry_end: "ed E = e \<Longrightarrow> own_step e n (retry_finish E t r n)"
| Reconnect_job: "Reconnect a \<in> set (jobs n) \<Longrightarrow> reconnect_start a n = (n', st) \<Longrightarrow>
    own_step e n (n'\<lparr>jobs := remove1 (Reconnect a) (jobs n')\<rparr>)"
| Reconnect_wake: "ed E = e \<Longrightarrow> a \<in> set (reconnecting_peers n) \<Longrightarrow> fresh_net (\<lambda>_. net) a n \<Longrightarrow>
    reconnect_wake E net a n = (n', st) \<Longrightarrow> own_step e n n'"
| Heartbeat: "ed E = e \<Longrightarrow> order_ok (ord_addr E) \<Longrightarrow> heartbeat_round (ord_addr E) (handle_message E) (mono E) \<lfloor>wall E\<rfloor> n = Some (n', x) \<Longrightarrow>
    own_step e n n'"
| Datagram: "ed E = e \<Longrightarrow> own_step e n (node_datagram E bs ip n)"
| Discovered_job: "ed E = e \<Longrightarrow> Discovered nid a \<in> set (jobs n) \<Longrightarrow> fresh_net (\<lambda>_. net) a n \<Longrightarrow>
    on_discovered_peer E net nid a n = n' \<Longrightarrow> own_step e n (n'\<lparr>jobs := remove1 (Discovered nid a) (jobs n')\<rparr>)"
| Lan_start: "own_step e n (n\<lparr>discovery := Some (lan_start ok (new_lan (self_id n) (tcp_port n)))\<rparr>)"
| Lan_announce: "own_step e n (announce ok n)"
| Lan_round: "ed E = e \<Longrightarrow> own_step e n (node_announce_round E n)"
| Register: "node_register ags mds tls n = (n', x) \<Longrightarrow> own_step e n n'"
| Start: "own_step e n (on_message (fst (start assigned n)))"
| Dial: "ed E = e \<Longrightarrow> fresh_net net a n \<Longrightarrow> dial E net (build_hello_msg E n) a n = (n', r) \<Longrightarrow> own_step e n n'"
| Dial_open: "conns n i = None \<Longrightarrow> own_hello n hello \<Longrightarrow> send_conn i hello (n\<lparr>conns := (conns n)(i \<mapsto> new_conn canonical now)\<rparr>) = (n', x) \<Longrightarrow>
    own_step e n n'"
| Dial_ack: "ed E = e \<Longrightarrow> conns n i = Some c \<Longrightarrow> i \<notin> snd ` set (peers n) \<Longrightarrow> conn_recv (mono E) c = (c', out) \<Longrightarrow>
    finish_connect (handle_message E) canonical i (Some out) (n\<lparr>conns := (conns n)(i \<mapsto> c')\<rparr>) = (n', r) \<Longrightarrow> own_step e n n'"
| Visibility: "set_visibility m (tracker n) = Inr t \<Longrightarrow> own_step e n (n\<lparr>tracker := t\<rparr>)"
| Allow: "own_step e n (n\<lparr>tracker := allow_peer nid (tracker n)\<rparr>)"
| Revoke: "own_step e n (n\<lparr>tracker := revoke_peer nid (tracker n)\<rparr>)"
| On_task: "own_step e n (n\<lparr>task_handler := Some f\<rparr>)"
| Send: "ed E = e \<Longrightarrow> send_task E created tid rtid qid req n = (n', st) \<Longrightarrow> own_step e n n'"
| Resume: "ed E = e \<Longrightarrow> own_wait e n st \<Longrightarrow> resume_send E created to st n = (n', st') \<Longrightarrow> own_step e n n'"
| Send_async: "ed E = e \<Longrightarrow> send_task_async E tg cap pl tid n = (n', x) \<Longrightarrow> own_step e n n'"
| Publish: "ed E = e \<Longrightarrow> publish_event E ty tg d eid n = (n', y) \<Longrightarrow> own_step e n n'"
| Discover: "own_step e n (discover_start qid n)"
| Discover_end: "ed E = e \<Longrightarrow> discover_resume E to qid n = (n', ds) \<Longrightarrow> own_step e n n'"
| Run: "ed E = e \<Longrightarrow> run_start E eid n = (n', y) \<Longrightarrow> own_step e n n'"
| Run_round: "ed E = e \<Longrightarrow> run_round E n = (n', go) \<Longrightarrow> own_step e n n'"
| Disconnect: "own_step e n (node_disconnect n)"

text \<open>The network adds bytes, the end of a stream, or a failure of the transport.\<close>

inductive node_step :: "ed25519 \<Rightarrow> node \<Rightarrow> node \<Rightarrow> bool" for e where
  Own: "own_step e n n' \<Longrightarrow> node_step e n n'"
| Receive: "conns n i = Some c \<Longrightarrow>
    node_step e n (n\<lparr>conns := (conns n)(i \<mapsto> c\<lparr>c_buf := c_buf c @ bs, c_eof := c_eof c \<or> eof, c_broken := c_broken c \<or> br\<rparr>)\<rparr>)"

inductive node_steps :: "ed25519 \<Rightarrow> node \<Rightarrow> node \<Rightarrow> bool" for e where
  steps_refl: "node_steps e n n"
| steps_step: "node_steps e n n1 \<Longrightarrow> node_step e n1 n2 \<Longrightarrow> node_steps e n n2"

lemma node_inv_conn:
  assumes "node_inv e me n" "spoken (vouched e me) (c_sent c)"
  shows "node_inv e me (n\<lparr>conns := (conns n)(i \<mapsto> c)\<rparr>)"
  using assms by (auto simp: node_inv_def tcp_inv_def voice_ok_def intro: voiced_set)

lemma node_inv_recv:
  assumes "node_inv e me n" "conns n i = Some c" "conn_recv now c = (c', out)"
  shows "node_inv e me (n\<lparr>conns := (conns n)(i \<mapsto> c')\<rparr>)"
proof (rule node_inv_conn [OF assms(1)])
  have "c_sent c' = c_sent c" using assms(3) by (auto simp: conn_recv_def split: read_outcome.splits if_splits)
  then show "spoken (vouched e me) (c_sent c')"
    using voiced_conn [OF _ assms(2)] assms(1) by (auto simp: node_inv_def voice_ok_def)
qed

lemma incoming_inv:
  "node_inv (ed E) me n \<Longrightarrow> conns n i \<noteq> None \<Longrightarrow> i \<notin> snd ` set (peers n) \<Longrightarrow>
   node_inv (ed E) me (handle_incoming (handle_message E) pn i out n)"
  by (rule node_invI [OF _ _ node_voice.S_incoming [OF node_inv_speaking]])
    (simp_all add: node_inv_def node_handler.handle_incoming_inv node_app.P_incoming)

lemma finish_inv:
  "node_inv (ed E) me n \<Longrightarrow> conns n i \<noteq> None \<Longrightarrow> i \<notin> snd ` set (peers n) \<Longrightarrow>
   node_inv (ed E) me (fst (finish_connect (handle_message E) canonical i ack n))"
  by (rule node_invI [OF _ _ node_voice.S_finish [OF node_inv_speaking]])
    (simp_all add: node_inv_def node_handler.finish_connect_inv node_app.P_finish)

lemma read_inv: "node_inv (ed E) me n \<Longrightarrow> node_inv (ed E) me (fst (read_loop_step (handle_message E) (mono E) a i n))"
  by (rule node_invI [OF _ _ node_voice.S_read [OF node_inv_speaking]])
    (simp_all add: node_inv_def node_handler.read_loop_step_inv node_app.P_read)

lemma tick_inv:
  "order_ok (ord_addr E) \<Longrightarrow> node_inv (ed E) me n \<Longrightarrow>
   node_inv (ed E) me (fst (heartbeat_tick (ord_addr E) (handle_message E) (mono E) ts n))"
  by (rule node_invI [OF _ _ node_voice.S_tick [OF node_inv_speaking]])
    (simp_all add: node_inv_def node_handler.heartbeat_tick_inv node_app.P_tick)

lemma own_step_inv: "own_step e n n' \<Longrightarrow> node_inv e me n \<Longrightarrow> node_inv e me n'"
proof (induction rule: own_step.induct)
  case (Accept n i a now)
  then show ?case by (intro node_inv_conn) (simp_all add: new_conn_def)
next
  case (Incoming E n i c c' out pn)
  have "node_inv (ed E) me (n\<lparr>conns := (conns n)(i \<mapsto> c')\<rparr>)" using node_inv_recv [OF Incoming(5,2,4)] Incoming(1) by simp
  then show ?case using incoming_inv [of E me _ i pn out] Incoming(1,3) by simp
next
  case (Read E a i n n')
  then show ?case using read_inv [of E me n a i] by simp
next
  case (Read_end E a i n n')
  then show ?case using read_inv [of E me n a i] node_inv_job_done by simp
next
  case (Connect_job E a hello n net n' r)
  then have "vouched (ed E) me hello" by (auto simp: node_inv_def voice_ok_def voiced_def)
  then show ?case using Connect_job dial_inv [of E me n net a hello] node_inv_job_done by simp
next
  case (Flush_job E n)
  then show ?case using harmless_inv [OF harmless_flush] node_inv_job_done by simp
next
  case (Flush_tick E n)
  then show ?case using harmless_inv [OF harmless_flush] by simp
next
  case (Retry_job E t n created tid rtid qid n' st)
  then show ?case using harmless_inv [OF harmless_send_task] node_inv_job_done by blast
next
  case (Retry_end E n t r)
  then show ?case using harmless_inv [OF harmless_retry] by simp
next
  case (Reconnect_job a n n' st)
  then show ?case using harmless_inv [OF harmless_start, of e me n a] node_inv_job_done by simp
next
  case (Reconnect_wake E a n net n' st)
  then show ?case using wake_inv [of E me n net a] by simp
next
  case (Heartbeat E n n' x)
  then show ?case
    using tick_inv [of E me n "\<lfloor>wall E\<rfloor>"] by (auto simp: heartbeat_round_def split: if_splits)
next
  case (Datagram E n bs ip)
  then show ?case by (auto simp: node_datagram_def node_inv_def tcp_inv_def voice_ok_def voiced_def spawn_def split: option.split prod.split)
next
  case (Discovered_job E nid a n net n')
  then have "node_inv e me n'"
    using dial_inv [of E me n "\<lambda>_. net" a] node_inv_hello [of "ed E" me n E]
    by (auto simp: on_discovered_peer_def split: sum.splits bool.splits)
  then show ?case by (rule node_inv_job_done)
next
  case (Lan_start n ok)
  then show ?case
    using app_inv_discovery [of e n "Some (lan_start ok (new_lan (self_id n) (tcp_port n)))"] lan_inv(1,2)
    by (auto simp: node_inv_def tcp_inv_def voice_ok_def lan_start_def new_lan_def)
next
  case (Lan_announce n ok)
  then show ?case
    using harmless_inv [OF harmless_lan [of "lan_announce ok"]] lan_inv(3) by (auto simp: announce_def lan_announce_def)
next
  case (Lan_round E n)
  then show ?case
    using harmless_inv [OF harmless_lan [of "\<lambda>l. fst (lan_round (multicast E) l)"]] lan_inv(4)
    by (auto simp: node_announce_round_def lan_round_def lan_announce_def)
next
  case (Register ags mds tls n n' x)
  then show ?case using harmless_inv [OF harmless_register, of e me n ags mds tls] by simp
next
  case (Start n assigned)
  then show ?case
    by (auto simp: node_inv_def tcp_inv_def voice_ok_def voiced_def on_message_def start_def Let_def intro: app_inv_more [of _ n])
next
  case (Dial E net a n n' r)
  then show ?case using dial_inv [of E me n net a "build_hello_msg E n"] node_inv_hello [of "ed E" me n E] by simp
next
  case (Dial_open n i hello canonical now n' x)
  let ?n = "n\<lparr>conns := (conns n)(i \<mapsto> new_conn canonical now)\<rparr>"
  have n: "node_inv e me ?n" using Dial_open(4) by (intro node_inv_conn) (simp_all add: new_conn_def)
  have "vouched e me hello"
    using Dial_open(2) app_inv_me [of e n] Dial_open(4) by (auto simp: own_hello_def node_inv_def same_identity_def)
  then have "voice_ok e n'" using Dial_open(3) n more_send_conn [of i hello ?n] voiced_send [of "vouched e me" ?n hello i]
      same_more(11) [of n' ?n] by (auto simp: node_inv_def voice_ok_def)
  then show ?case
    using keeps_send_conn [of ?n i hello] more_send_conn [of i hello ?n] Dial_open(3) tcp_inv_keeps [of ?n n'] n
      same_more(11) [of n' ?n]
    by (auto simp: node_inv_def intro: app_inv_more [of n' ?n] self_keeps)
next
  case (Dial_ack E n i c c' out canonical n' r)
  have "node_inv (ed E) me (n\<lparr>conns := (conns n)(i \<mapsto> c')\<rparr>)" using node_inv_recv [OF Dial_ack(6,2,4)] Dial_ack(1) by simp
  then have "node_inv (ed E) me (fst (finish_connect (handle_message E) canonical i (Some out) (n\<lparr>conns := (conns n)(i \<mapsto> c')\<rparr>)))"
    by (rule finish_inv) (simp_all add: Dial_ack(3))
  then show ?case using Dial_ack(1,5) by simp
next
  case (Visibility m n t)
  then show ?case using harmless_inv [OF harmless_fields(6)] by simp
next
  case (Allow n nid)
  then show ?case using harmless_inv [OF harmless_fields(6)] by simp
next
  case (Revoke n nid)
  then show ?case using harmless_inv [OF harmless_fields(6)] by simp
next
  case (On_task n f)
  then show ?case using harmless_inv [OF harmless_fields(5)] by simp
next
  case (Send E created tid rtid qid req n n' st)
  then show ?case using harmless_inv [OF harmless_send_task] by blast
next
  case (Resume E created to st n n' st')
  then show ?case using harmless_inv [OF harmless_resume] by blast
next
  case (Send_async E tg cap pl tid n n' x)
  then show ?case using harmless_inv [OF harmless_async, of E me n tg cap pl tid] by simp
next
  case (Publish E ty tg d eid n n' y)
  then show ?case using harmless_inv [OF harmless_event, of e me n E ty tg d eid] by simp
next
  case (Discover n qid)
  then show ?case
    using harmless_inv [OF harmless_trans [OF harmless_fields(2) harmless_broadcast]] by (simp add: discover_start_def)
next
  case (Discover_end E to qid n n' ds)
  then show ?case using harmless_inv [OF harmless_discover] by simp
next
  case (Run E eid n n' y)
  then show ?case using harmless_inv [OF harmless_event, of e me n E "''node.online''" "[]" JNull eid]
    by (auto simp: run_start_def split: if_splits)
next
  case (Run_round E n n' go)
  then show ?case using harmless_inv [OF harmless_flush] by (auto simp: run_round_def split: if_splits)
next
  case (Disconnect n)
  let ?s = "n\<lparr>shutdown_event := True\<rparr>"
  let ?n = "?s\<lparr>discovery := map_option lan_stop (discovery ?s)\<rparr>"
  have "node_inv e me ?s" by (rule harmless_inv [OF harmless_fields(7) Disconnect])
  then have "node_inv e me ?n"
    using harmless_inv [OF harmless_lan [of lan_stop], of e me ?s] lan_inv(5) by (auto simp: lan_stop_def)
  then show ?case
    using more_stop [of ?n] stop_inv [of ?n] voiced_stop [of "vouched e me" ?n] same_more(11) [of "stop ?n" ?n]
    by (auto simp: node_inv_def voice_ok_def node_disconnect_def intro: app_inv_more [of _ ?n])
qed

lemma node_step_inv: "node_step e n n' \<Longrightarrow> node_inv e me n \<Longrightarrow> node_inv e me n'"
proof (induction rule: node_step.induct)
  case (Own n n')
  then show ?case by (rule own_step_inv)
next
  case (Receive n i c bs eof br)
  then show ?case using voiced_conn [of "vouched e me" n i c] by (intro node_inv_conn) (auto simp: node_inv_def voice_ok_def)
qed

lemma node_steps_inv: "node_steps e n n' \<Longrightarrow> node_inv e me n \<Longrightarrow> node_inv e me n'"
  by (induction rule: node_steps.induct) (auto intro: node_step_inv)

lemma init_inv:
  assumes "queue_inv q"
  shows "node_inv e (identity_of e sk) (init_node e nm prt prs tr allow ver (identity_of e sk) verify hb host now q lp)"
  using assms
  by (auto simp: node_inv_def tcp_inv_def app_inv_def cache_ok_def own_identity_def table_ok_def known_peers_def
      init_node_def Let_def empty_table_def lan_ok_def voice_ok_def voiced_def)

text \<open>
  C9: the invariant of a running node. From a fresh node with its own key, whatever the
  network, the peers, the clock and the application do, in any order, every state it reaches
  has a table of peers with one entry per address and one address per connection, an interest
  table with one entry per peer and proper capabilities, a cache that holds only keys of their
  ids, its own key's id, a queue file of complete lines, and has announced nothing but its own
  id on the local network.
\<close>

theorem reachable_states_ok:
  assumes "queue_inv q"
    "node_steps e (init_node e nm prt prs tr allow ver (identity_of e sk) verify hb host now q lp) n"
  shows "tcp_inv n \<and> table_ok (routing n) \<and> cache_ok e n \<and> own_identity e n \<and> queue_inv (pending_queue n) \<and>
    (\<forall>l. discovery n = Some l \<longrightarrow> set (lan_sent l) \<subseteq> {announcement (self_id n) (lan_port l)})"
  using node_steps_inv [OF assms(2) init_inv [OF assms(1)]]
  unfolding node_inv_def app_inv_def lan_ok_def lan_inv_def by metis

theorem reachable_states_ok_witness:
  "tcp_inv ((init_node toy_ed ''n'' 7878 [] ''public'' [] ''0.5.1'' (identity_of toy_ed [1]) True 30 [] 0 None None)
     \<lparr>task_handler := Some (\<lambda>t. Inr JNull)\<rparr>)"
proof -
  let ?n = "init_node toy_ed ''n'' 7878 [] ''public'' [] ''0.5.1'' (identity_of toy_ed [1]) True 30 [] 0 None None"
  have "node_steps toy_ed ?n (?n\<lparr>task_handler := Some (\<lambda>t. Inr JNull)\<rparr>)"
    by (rule steps_step [OF steps_refl Own [OF On_task]])
  from reachable_states_ok [OF _ this] show ?thesis by (simp add: queue_inv_def)
qed

text \<open>
  C10: in every reachable state of every node, signatures decide. Nothing that happened before
  (other keys, expired cache entries, any messages) can make a node with verification on refuse
  a task that the caller's key signed, or let a signed task through whose signature does not
  verify under the key of the id it names.
\<close>

theorem reachable_nodes_verify:
  assumes "ed_ok (ed E)" "queue_inv q" "verify_peers n"
    "node_steps (ed E) (init_node (ed E) nm prt prs tr allow ver (identity_of (ed E) sk) verify hb host now q lp) n"
    "dget msg ''caller'' (JStr []) = JStr (node_id_of (ed E) (identity_of (ed E) sk'))"
    "py_truthy (dget msg ''signature'' JNull)"
  shows "snd (check_task_signature E msg n) =
    Inr (if verify_signature (ed E) (ed_public (ed E) sk') (without_signature msg) (dget msg ''signature'' JNull)
         then Sig_ok else Sig_bad)"
proof (rule task_sig_eq)
  show "cache_ok (ed E) n"
    using node_steps_inv [OF assms(4) init_inv [OF assms(2)]] by (simp add: node_inv_def app_inv_def)
  show "node_id_of (ed E) (identity_of (ed E) sk') \<noteq> []"
    using node_id_length [OF assms(1), of sk'] by auto
  show "id_to_pubkey (ed E) (node_id_of (ed E) (identity_of (ed E) sk')) = Inr (ed_public (ed E) sk')"
    using id_roundtrip [OF assms(1)] by (simp add: node_id_of_def identity_of_def)
qed (use assms in auto)

theorem reachable_nodes_verify_witness:
  "snd (check_task_signature demo_env [(''caller'', JStr (node_id_of toy_ed (identity_of toy_ed [2]))), (''signature'', JInt 1)]
     (init_node toy_ed ''n'' 7878 [] ''public'' [] ''0.5.1'' (identity_of toy_ed [1]) True 30 [] 0 None None)) = Inr Sig_bad"
proof -
  let ?n = "init_node toy_ed ''n'' 7878 [] ''public'' [] ''0.5.1'' (identity_of toy_ed [1]) True 30 [] 0 None None"
  have "verify_peers ?n" by (simp add: init_node_def Let_def)
  moreover have "node_steps (ed demo_env) (init_node (ed demo_env) ''n'' 7878 [] ''public'' [] ''0.5.1'' (identity_of (ed demo_env) [1]) True 30 [] 0 None None) ?n"
    by (simp add: steps_refl)
  ultimately show ?thesis
    using reachable_nodes_verify [of demo_env None ?n "''n''" 7878 "[]" "''public''" "[]" "''0.5.1''" "[1]" True 30 "[]" 0 None
        "[(''caller'', JStr (node_id_of toy_ed (identity_of toy_ed [2]))), (''signature'', JInt 1)]" "[2]"] toy_ed_ok
    by (simp add: queue_inv_def dget_def verify_signature_def)
qed

definition plain_hello :: "privkey \<Rightarrow> pydict" where
  "plain_hello sk = hello_msg (JStr (node_id_of toy_ed (identity_of toy_ed sk))) (JObj []) [] [] []"

lemma plain_hello_fits: "\<exists>fr. encode_frame (plain_hello sk) = Inr fr"
  by (rule frame_fits) (simp_all add: plain_hello_def hello_msg_def wf_dict_def mt.simps MAX_PAYLOAD_SIZE_def)

lemma plain_hello_own: "self_id n = node_id_of toy_ed (identity_of toy_ed sk) \<Longrightarrow> own_hello n (plain_hello sk)"
  by (auto simp: plain_hello_def own_hello_def)

text \<open>A node that has dialled and written its HELLO.\<close>

lemma plain_hello_sent:
  assumes "n0 = init_node toy_ed nm prt prs tr allow ver (identity_of toy_ed sk) verify hb host now q lp"
  shows "\<exists>n fr. node_steps toy_ed n0 n \<and> encode_frame (plain_hello sk) = Inr fr \<and>
    conns n 0 = Some ((new_conn ''h:1'' 0)\<lparr>c_sent := fr\<rparr>)"
proof -
  let ?c = "new_conn ''h:1'' 0"
  obtain fr where fr: "encode_frame (plain_hello sk) = Inr fr" using plain_hello_fits by blast
  have s: "conn_send (plain_hello sk) ?c = (?c\<lparr>c_sent := fr\<rparr>, None)"
    using conn_send_ok [OF _ _ fr, of ?c] by (simp add: new_conn_def)
  define n where "n = fst (send_conn 0 (plain_hello sk) (n0\<lparr>conns := (conns n0)(0 \<mapsto> ?c)\<rparr>))"
  have "node_steps toy_ed n0 n" unfolding n_def
    by (rule steps_step [OF steps_refl Own [OF Dial_open [OF _ plain_hello_own prod.collapse [symmetric]]]])
      (simp_all add: assms init_node_def Let_def)
  moreover have "conns n 0 = Some (?c\<lparr>c_sent := fr\<rparr>)" unfolding n_def by (simp add: send_conn_def s)
  ultimately show ?thesis using fr by blast
qed

text \<open>
  C4: a node names itself, signs its tasks, and its tasks are accepted. Whatever the network
  sends it and whatever it does, the bytes a node has written on any of its connections are
  frames of messages of which every HELLO, HELLO_ACK and HEARTBEAT carries its id, every TASK
  names it as the caller and carries the signature of its key over the rest of the message, and
  every RESULT that reports success carries such a signature too. So no peer can make a node
  pass on a task in another's name, and every task it has ever sent passes the signature check
  of every other node. Nothing is said of the other messages: a forwarded QUERY keeps the origin
  it came with, and a RESULT that reports an error is not signed.
\<close>

theorem speaks_as_itself:
  assumes "ed_ok e" "queue_inv q"
    "node_steps e (init_node e nm prt prs tr allow ver (identity_of e sk) verify hb host now q lp) n" "conns n i = Some c"
  shows "\<exists>ms. c_sent c = concat (map frame_bytes ms) \<and> (\<forall>m\<in>set ms. \<exists>fr. encode_frame m = Inr fr) \<and>
    (\<forall>m\<in>set ms. vouched e (identity_of e sk) m \<and>
       (dget m ''type'' JNull = JStr (mt TASK) \<longrightarrow>
          (\<forall>E r. ed E = e \<and> cache_ok e r \<longrightarrow> snd (check_task_signature E m r) = Inr Sig_ok)))"
proof -
  have "node_inv e (identity_of e sk) n" by (rule node_steps_inv [OF assms(3) init_inv [OF assms(2)]])
  then have "voiced (vouched e (identity_of e sk)) n" by (auto simp: node_inv_def voice_ok_def)
  then have "spoken (vouched e (identity_of e sk)) (c_sent c)" using assms(4) by (rule voiced_conn)
  then show ?thesis using vouched_accepted [OF assms(1) refl] unfolding spoken_def by blast
qed

theorem speaks_as_itself_witness:
  "\<exists>(n::node) c ms. conns n 0 = Some c \<and> c_sent c = frame_bytes (plain_hello [1]) \<and> c_sent c = concat (map frame_bytes ms) \<and>
    (\<forall>m\<in>set ms. vouched toy_ed (identity_of toy_ed [1]) m)"
proof -
  obtain n fr where n: "node_steps toy_ed (init_node toy_ed ''n'' 7878 [] ''public'' [] ''0.5.1'' (identity_of toy_ed [1]) True 30 [] 0 None None) n"
    "encode_frame (plain_hello [1]) = Inr fr" "conns n 0 = Some ((new_conn ''h:1'' 0)\<lparr>c_sent := fr\<rparr>)"
    using plain_hello_sent [OF refl] by blast
  have "queue_inv None" by (simp add: queue_inv_def)
  from speaks_as_itself [OF toy_ed_ok this n(1,3)] obtain ms where
    "c_sent ((new_conn ''h:1'' 0)\<lparr>c_sent := fr\<rparr>) = concat (map frame_bytes ms)"
    "\<forall>m\<in>set ms. vouched toy_ed (identity_of toy_ed [1]) m" by blast
  moreover have "c_sent ((new_conn ''h:1'' 0)\<lparr>c_sent := fr\<rparr>) = frame_bytes (plain_hello [1])" by (simp add: n(2) frame_bytes_def)
  ultimately show ?thesis using n(3) by blast
qed

end
