(* ===== verification/Streams.thy ===== *)
theory Streams
  imports Node_Steps
begin

text \<open>
  What holds of every connection of a node, whatever it does: a property that sending,
  reading, closing and naming a connection preserve holds of every connection in every state
  the node reaches.
\<close>

section \<open>Properties of every connection\<close>

definition all_conns :: "(cid \<Rightarrow> conn \<Rightarrow> bool) \<Rightarrow> (cid \<Rightarrow> bool) \<Rightarrow> 'a tcp_scheme \<Rightarrow> bool" where
  "all_conns Q unused s \<longleftrightarrow> (\<forall>i. case conns s i of None \<Rightarrow> unused i | Some c \<Rightarrow> Q i c)"

lemma all_connsD: "all_conns Q u s \<Longrightarrow> conns s i = Some c \<Longrightarrow> Q i c"
  "all_conns Q u s \<Longrightarrow> conns s i = None \<Longrightarrow> u i"
  by (auto simp: all_conns_def split: option.splits dest: spec [of _ i])

lemma all_connsI: "(\<And>i c. conns s i = Some c \<Longrightarrow> Q i c) \<Longrightarrow> (\<And>i. conns s i = None \<Longrightarrow> u i) \<Longrightarrow> all_conns Q u s"
  by (auto simp: all_conns_def split: option.split)

text \<open>
  \<open>Q\<close> is the property of a connection and its id, \<open>unused\<close> one of the ids without a
  connection. The operations of the manager make connections, send on them, read, close and
  rename them.
\<close>

locale conn_property =
  fixes Q :: "cid \<Rightarrow> conn \<Rightarrow> bool" and unused :: "cid \<Rightarrow> bool"
  assumes Q_new: "unused i \<Longrightarrow> Q i (new_conn a now)"
    and Q_le: "conn_le c c' \<Longrightarrow> Q i c \<Longrightarrow> Q i c'"
    and Q_close: "Q i c \<Longrightarrow> Q i (conn_close c)"
    and Q_addr: "Q i c \<Longrightarrow> Q i (c\<lparr>c_addr := a\<rparr>)"
    and Q_recv: "Q i c \<Longrightarrow> Q i (fst (conn_recv now c))"
begin

lemma C_same: "conns s' = conns s \<Longrightarrow> all_conns Q unused s \<Longrightarrow> all_conns Q unused s'"
  by (simp add: all_conns_def)

lemma C_set: "all_conns Q unused s \<Longrightarrow> Q i c \<Longrightarrow> conns s' = (conns s)(i \<mapsto> c) \<Longrightarrow> all_conns Q unused s'"
  by (auto simp: all_conns_def)

lemma C_new: "all_conns Q unused s \<Longrightarrow> conns s i = None \<Longrightarrow> all_conns Q unused (s\<lparr>conns := (conns s)(i \<mapsto> new_conn a now)\<rparr>)"
  by (rule C_set [OF _ Q_new]) (auto dest: all_connsD)

lemma C_keeps: "keeps_table s s' \<Longrightarrow> all_conns Q unused s \<Longrightarrow> all_conns Q unused s'"
proof -
  assume k: "keeps_table s s'" and C: "all_conns Q unused s"
  have r: "rel_option conn_le (conns s i) (conns s' i)" for i using k by (simp add: keeps_table_def)
  show "all_conns Q unused s'"
  proof (rule all_connsI)
    fix i c' assume "conns s' i = Some c'"
    with r [of i] obtain c where "conns s i = Some c" "conn_le c c'" by (cases "conns s i") auto
    then show "Q i c'" using Q_le all_connsD(1) [OF C] by blast
  next
    fix i assume "conns s' i = None"
    with r [of i] have "conns s i = None" by (cases "conns s i") auto
    then show "unused i" by (rule all_connsD(2) [OF C])
  qed
qed

lemma C_upd: "all_conns Q unused s \<Longrightarrow> (\<And>c. Q i c \<Longrightarrow> Q i (f c)) \<Longrightarrow> all_conns Q unused (upd_conn i f s)"
  by (rule all_connsI) (auto simp: upd_conn_def dest: all_connsD split: if_splits)

lemma C_close: "all_conns Q unused s \<Longrightarrow> all_conns Q unused (close_conn i s)"
  unfolding close_conn_def by (rule C_upd) (auto intro: Q_close)

lemma C_adopt: "all_conns Q unused s \<Longrightarrow> all_conns Q unused (adopt rid a i s)"
proof -
  assume C: "all_conns Q unused s"
  have "all_conns Q unused (upd_conn i (\<lambda>c. c\<lparr>c_addr := a\<rparr>) s)" using C by (rule C_upd) (rule Q_addr)
  then have "all_conns Q unused (fst (remove_stale_peer (take 12 rid) (upd_conn i (\<lambda>c. c\<lparr>c_addr := a\<rparr>) s)))"
    by (auto simp: remove_stale_peer_def split: option.split intro!: C_upd Q_close) (simp add: all_conns_def)
  then show ?thesis by (auto simp: adopt_def Let_def intro: C_same [rotated])
qed

lemma C_spawn: "all_conns Q unused s \<Longrightarrow> all_conns Q unused (spawn j s)"
  by (rule C_keeps [OF keeps_spawn])

lemma C_peers: "all_conns Q unused s \<Longrightarrow> all_conns Q unused (s\<lparr>peers := ps\<rparr>)"
  by (simp add: all_conns_def)

lemma C_call: "msg_handler h \<Longrightarrow> all_conns Q unused s \<Longrightarrow> all_conns Q unused (fst (call_handler h a m s))"
  by (rule C_keeps [OF msg_handler.call_keeps])

lemma C_call_eq: "call_handler h a m s = (s', e) \<Longrightarrow> msg_handler h \<Longrightarrow> all_conns Q unused s \<Longrightarrow> all_conns Q unused s'"
  using C_call [of h s a m] by simp

lemma C_send: "send_conn i m s = (s', e) \<Longrightarrow> all_conns Q unused s \<Longrightarrow> all_conns Q unused s'"
  using C_keeps [OF keeps_send_conn, of s i m] by simp

lemma C_incoming: "msg_handler h \<Longrightarrow> all_conns Q unused s \<Longrightarrow> all_conns Q unused (handle_incoming h pn i out s)"
  by (auto simp: handle_incoming_def Let_def intro!: C_close C_spawn
      dest: C_call_eq [OF _ _ C_adopt] split: recv_out.split sum.split option.split prod.split)

lemma C_end: "msg_handler h \<Longrightarrow> all_conns Q unused s \<Longrightarrow> all_conns Q unused (end_read_loop h a i s)"
  by (simp add: end_read_loop_def Let_def C_call C_peers C_close)

lemma C_read:
  assumes "msg_handler h" "all_conns Q unused s"
  shows "all_conns Q unused (fst (read_loop_step h now a i s))"
proof (cases "stopped s \<or> conns s i = None")
  case False
  then obtain c where c: "conns s i = Some c" by blast
  obtain c' out where r: "conn_recv now c = (c', out)" by fastforce
  let ?s = "s\<lparr>conns := (conns s)(i \<mapsto> c')\<rparr>"
  have "Q i c" by (rule all_connsD(1) [OF assms(2) c])
  then have "Q i c'" using Q_recv [of i c now] r by simp
  then have C: "all_conns Q unused ?s" by (rule C_set [OF assms(2)]) simp
  show ?thesis
    using False c r
    by (auto simp: read_loop_step_def Let_def intro!: C_end assms(1) C
        dest: C_call_eq [OF _ assms(1) C] split: recv_out.split option.split prod.split)
qed (auto simp: read_loop_step_def C_end [OF assms])

lemma C_finish: "msg_handler h \<Longrightarrow> all_conns Q unused s \<Longrightarrow> all_conns Q unused (fst (finish_connect h c i ack s))"
  by (auto simp: finish_connect_def Let_def intro!: C_close C_spawn
      dest: C_call_eq [OF _ _ C_adopt] split: recv_out.split sum.split option.split prod.split)

lemma C_connect:
  assumes "msg_handler h" "all_conns Q unused s" "\<And>i ack. net = Opened i ack \<Longrightarrow> conns s i = None"
  shows "all_conns Q unused (fst (connect_to_peer h now ad hello net s))"
proof -
  have new: "all_conns Q unused (s\<lparr>conns := (conns s)(i \<mapsto> new_conn c now)\<rparr>)" if "net = Opened i ack" for i c ack
    by (rule C_new [OF assms(2) assms(3) [OF that]])
  show ?thesis
    by (auto simp: connect_to_peer_def Let_def assms(2) intro!: C_finish [OF assms(1)] new
        dest: C_send [OF _ new] split: dial_result.split sum.split option.split prod.split)
qed

lemma C_purge: "msg_handler h \<Longrightarrow> all_conns Q unused s \<Longrightarrow> all_conns Q unused (fst (purge_dead h as s))"
proof (induction as arbitrary: s)
  case (Cons a as)
  show ?case
  proof (cases "map_of (peers s) a")
    case (Some i)
    define s1 where "s1 = close_conn i (s\<lparr>peers := dpop a (peers s)\<rparr>)"
    have "all_conns Q unused s1" unfolding s1_def by (intro C_close C_peers Cons.prems)
    moreover obtain s2 e where c: "call_handler h a bye_notice s1 = (s2, e)" by fastforce
    ultimately have "all_conns Q unused s2" using C_call_eq Cons.prems(1) by blast
    then show ?thesis using Some c Cons.IH [of s2] Cons.prems(1) by (cases e) (simp_all add: s1_def)
  qed (simp add: Cons)
qed simp

lemma C_tick: "msg_handler h \<Longrightarrow> all_conns Q unused s \<Longrightarrow> all_conns Q unused (fst (heartbeat_tick ord h now ts s))"
proof -
  assume h: "msg_handler h" and C: "all_conns Q unused s"
  let ?hb = "heartbeat_msg (JStr (self_id s)) ts"
  obtain s1 dead where sc: "heartbeat_scan now ?hb (peers s) s = (s1, dead)" by fastforce
  have "all_conns Q unused s1" using C_keeps [OF msg_handler.heartbeat_scan_keeps [OF h] C, of now ?hb "peers s"] sc by simp
  then show ?thesis using sc C_purge [OF h] by (simp add: heartbeat_tick_def)
qed

lemma C_stop: "all_conns Q unused s \<Longrightarrow> all_conns Q unused (stop s)"
proof -
  have b: "all_conns Q unused s \<Longrightarrow> all_conns Q unused (bye_all ps s)" for ps and s :: "'a tcp_scheme"
    by (induction ps s rule: bye_all.induct) (auto intro!: C_upd Q_close C_keeps [OF keeps_send_conn])
  assume "all_conns Q unused s"
  then have "all_conns Q unused (bye_all (peers s) (s\<lparr>stopped := True\<rparr>))" by (intro b) (simp add: all_conns_def)
  then show ?thesis by (simp add: stop_def all_conns_def)
qed

lemma C_recv:
  "all_conns Q unused s \<Longrightarrow> conns s i = Some c \<Longrightarrow> conn_recv now c = (c', out) \<Longrightarrow>
   all_conns Q unused (s\<lparr>conns := (conns s)(i \<mapsto> c')\<rparr>)"
proof -
  assume C: "all_conns Q unused s" and c: "conns s i = Some c" and r: "conn_recv now c = (c', out)"
  have "Q i c" by (rule all_connsD(1) [OF C c])
  then have "Q i c'" using Q_recv [of i c now] unfolding r fst_conv by blast
  then show ?thesis by (rule C_set [OF C]) simp
qed

lemma C_harmless: "harmless e n n' \<Longrightarrow> all_conns Q unused n \<Longrightarrow> all_conns Q unused n'"
  by (rule C_keeps) (simp_all add: harmless_def)

lemma C_dial: "all_conns Q unused n \<Longrightarrow> fresh_net net a n \<Longrightarrow> dial E net hello a n = (n', r) \<Longrightarrow> all_conns Q unused n'"
  using C_connect [OF node_handler.msg_handler_axioms, of n "net a" E "mono E" a hello] by (simp add: dial_def fresh_net_def)

lemma C_jobs: "all_conns Q unused n \<Longrightarrow> all_conns Q unused (n\<lparr>jobs := js\<rparr>)"
  by (simp add: all_conns_def)

lemma C_wake:
  "fresh_net (\<lambda>_. net) a n \<Longrightarrow> reconnect_wake E net a n = (n', st) \<Longrightarrow> all_conns Q unused n \<Longrightarrow> all_conns Q unused n'"
proof -
  assume f: "fresh_net (\<lambda>_. net) a n" and w: "reconnect_wake E net a n = (n', st)" and C: "all_conns Q unused n"
  obtain n1 r where d: "dial E (\<lambda>_. net) (build_hello_msg E n) a n = (n1, r)" by fastforce
  have C1: "all_conns Q unused n1" by (rule C_dial [OF C f d])
  have "all_conns Q unused (fst (reconnect_head a n1))" by (rule C_harmless [OF harmless_head C1])
  then show ?thesis
    using w d C C1 by (auto simp: reconnect_wake_def leave_reconnect_def all_conns_def split: if_splits sum.splits)
qed

lemma C_step: "own_step e n n' \<Longrightarrow> all_conns Q unused n \<Longrightarrow> all_conns Q unused n'"
proof (induction rule: own_step.induct)
  case (Accept n i a now)
  then show ?case by (intro C_new)
next
  case (Incoming E n i c c' out pn)
  then show ?case by (intro C_incoming node_handler.msg_handler_axioms C_recv [of n i c])
next
  case (Read E a i n n')
  then show ?case using C_read [OF node_handler.msg_handler_axioms, of n E "mono E" a i] by simp
next
  case (Read_end E a i n n')
  then show ?case using C_read [OF node_handler.msg_handler_axioms, of n E "mono E" a i] C_jobs by simp
next
  case (Connect_job E a hello n net n' r)
  then show ?case by (blast intro: C_jobs C_dial)
next
  case (Flush_job E n)
  then show ?case by (intro C_jobs) (rule C_harmless [OF harmless_flush])
next
  case (Flush_tick E n)
  then show ?case by (intro C_harmless [OF harmless_flush])
next
  case (Retry_job E t n created tid rtid qid n' st)
  then show ?case by (intro C_jobs) (rule C_harmless [OF harmless_send_task])
next
  case (Retry_end E n t r)
  then show ?case by (intro C_harmless [OF harmless_retry])
next
  case (Reconnect_job a n n' st)
  then show ?case using C_harmless [OF harmless_start, of n a] C_jobs by simp
next
  case (Reconnect_wake E a n net n' st)
  then show ?case by - (rule C_wake)
next
  case (Heartbeat E n n' x)
  then show ?case
    using C_tick [OF node_handler.msg_handler_axioms, of n "ord_addr E" E "mono E" "\<lfloor>wall E\<rfloor>"]
    by (auto simp: heartbeat_round_def split: if_splits)
next
  case (Datagram E n bs ip)
  then show ?case
    by (auto simp: node_datagram_def spawn_def all_conns_def split: option.split prod.split)
next
  case (Discovered_job E nid a n net n')
  then have "all_conns Q unused n'"
    using C_dial [OF Discovered_job(5,3) prod.collapse [symmetric]]
    unfolding on_discovered_peer_def by (auto split: sum.splits bool.splits)
  then show ?case by (rule C_jobs)
next
  case (Register ags mds tls n n' x)
  then show ?case using C_harmless [OF harmless_register, of n ags mds tls] by simp
next
  case (Dial E net a n n' r)
  then show ?case by (blast intro: C_dial)
next
  case (Dial_open n i hello canonical now n' x)
  then show ?case using C_send [OF _ C_new] by blast
next
  case (Dial_ack E n i c c' out canonical n' r)
  then show ?case
    using C_finish [OF node_handler.msg_handler_axioms C_recv [of n i c "mono E" c' out], of E canonical i "Some out"] by simp
next
  case (Send E created tid rtid qid req n n' st)
  then show ?case by - (rule C_harmless [OF harmless_send_task])
next
  case (Resume E created to st n n' st')
  then show ?case by - (rule C_harmless [OF harmless_resume])
next
  case (Send_async E tg cap pl tid n n' x)
  then show ?case using C_harmless [OF harmless_async, of n E tg cap pl tid] by simp
next
  case (Publish E ty tg d eid n n' y)
  then show ?case using C_harmless [OF harmless_event, of n E ty tg d eid] by simp
next
  case (Discover n qid)
  then show ?case using C_harmless [OF harmless_trans [OF harmless_fields(2) harmless_broadcast]] by (simp add: discover_start_def)
next
  case (Discover_end E to qid n n' ds)
  then show ?case by - (rule C_harmless [OF harmless_discover])
next
  case (Run E eid n n' y)
  then show ?case using C_harmless [OF harmless_event, of n E "''node.online''" "[]" JNull eid]
    by (auto simp: run_start_def split: if_splits)
next
  case (Run_round E n n' go)
  then show ?case using C_harmless [OF harmless_flush] by (auto simp: run_round_def split: if_splits)
next
  case (Disconnect n)
  then show ?case unfolding node_disconnect_def by (intro C_stop) (simp add: all_conns_def)
qed (simp_all add: all_conns_def announce_def node_announce_round_def on_message_def start_def Let_def)

end

text \<open>A property of connections that also what arrives from the network leaves true.\<close>

locale stable_conn_property = conn_property Q "\<lambda>_. True" for Q +
  assumes Q_arrive: "Q i c \<Longrightarrow> Q i (c\<lparr>c_buf := bs, c_eof := eof, c_broken := br\<rparr>)"
begin

lemma C_node_step: "node_step e n n' \<Longrightarrow> all_conns Q (\<lambda>_. True) n \<Longrightarrow> all_conns Q (\<lambda>_. True) n'"
proof (induction rule: node_step.induct)
  case (Own n n')
  then show ?case by (rule C_step)
next
  case (Receive n i c bs eof br)
  have "Q i c" by (rule all_connsD(1) [OF Receive(2,1)])
  then show ?case using Receive(2) by (auto simp: all_conns_def intro: Q_arrive)
qed

lemma C_steps: "node_steps e n n' \<Longrightarrow> all_conns Q (\<lambda>_. True) n \<Longrightarrow> all_conns Q (\<lambda>_. True) n'"
  by (induction rule: node_steps.induct) (auto intro: C_node_step)

lemma reachable_conn:
  assumes "node_steps e (init_node e nm prt prs tr allow ver me verify hb host now q lp) n" "conns n i = Some c"
  shows "Q i c"
proof (rule all_connsD(1) [OF C_steps [OF assms(1)] assms(2)])
  show "all_conns Q (\<lambda>_. True) (init_node e nm prt prs tr allow ver me verify hb host now q lp)"
    by (simp add: all_conns_def init_node_def Let_def)
qed

end

section \<open>The streams of a node\<close>

text \<open>Frames are what a list of messages encodes to.\<close>

lemma framed_messages:
  "framed bs \<Longrightarrow> \<exists>ms. bs = concat (map frame_bytes ms) \<and> (\<forall>m\<in>set ms. \<exists>fr. encode_frame m = Inr fr)"
proof (induction rule: framed.induct)
  case (framed_more bs m fr)
  then obtain ms where "bs = concat (map frame_bytes ms)" "\<forall>m\<in>set ms. \<exists>fr. encode_frame m = Inr fr" by blast
  then have "bs @ fr = concat (map frame_bytes (ms @ [m])) \<and> (\<forall>m\<in>set (ms @ [m]). \<exists>fr. encode_frame m = Inr fr)"
    using framed_more.hyps(2) by (auto simp: frame_bytes_def)
  then show ?case by blast
qed (rule exI [of _ "[]"], simp)

lemma conn_recv_fields:
  "c_sent (fst (conn_recv now c)) = c_sent c" "c_closed (fst (conn_recv now c)) = c_closed c"
  "c_alive (fst (conn_recv now c)) \<Longrightarrow> c_alive c"
  by (auto simp: conn_recv_def split: read_outcome.splits if_splits)

definition closed_is_dead :: "conn \<Rightarrow> bool" where
  "closed_is_dead c \<longleftrightarrow> (c_closed c \<longrightarrow> \<not> c_alive c)"

interpretation streams: stable_conn_property "\<lambda>_ c. framed (c_sent c)"
proof (unfold_locales, goal_cases)
  case (2 c d i)
  then obtain bs where "framed bs" "c_sent d = c_sent c @ bs" unfolding conn_le_def by blast
  then show ?case using 2(2) by (simp add: framed_append)
qed (simp_all add: new_conn_def framed_none conn_close_def conn_recv_fields)

interpretation closing: stable_conn_property "\<lambda>_. closed_is_dead"
proof (unfold_locales, goal_cases)
  case (2 c d i)
  then show ?case unfolding conn_le_def closed_is_dead_def by blast
next
  case (5 i c now)
  then show ?case using conn_recv_fields [where c = c and now = now] unfolding closed_is_dead_def by blast
qed (simp_all add: new_conn_def conn_close_def closed_is_dead_def)

text \<open>
  C12: what a node writes on a connection is whole frames, always. In every state a node
  reaches, whatever the peers send, whichever writes fail, and however handlers, background
  jobs and operations interleave, the bytes written on each of its connections are the frames
  of a list of messages, one after another: no frame is cut, no two are mixed. So the peer
  reads back exactly those messages, and a connection that was closed is never written again.
\<close>

theorem streams_framed:
  assumes "node_steps e (init_node e nm prt prs tr allow ver me verify hb host now q lp) n" "conns n i = Some c"
  shows "(\<exists>ms. c_sent c = concat (map frame_bytes ms) \<and> (\<forall>m\<in>set ms. \<exists>fr. encode_frame m = Inr fr) \<and>
      (list_all wf_dict ms \<longrightarrow> read_n next_frame (length ms) (c_sent c @ rest) = Some (ms, rest))) \<and>
    (c_closed c \<longrightarrow> conn_send m c = (c, Some ConnectionErr))"
proof -
  obtain ms where ms: "c_sent c = concat (map frame_bytes ms)" "\<forall>m\<in>set ms. \<exists>fr. encode_frame m = Inr fr"
    using framed_messages [OF streams.reachable_conn [OF assms]] by blast
  have "list_all wf_dict ms \<longrightarrow> read_n next_frame (length ms) (c_sent c @ rest) = Some (ms, rest)"
    unfolding ms(1) using ms(2) by (intro impI frames.read_n_puts) (auto simp: list_all_iff frame_ok_def)
  moreover have "c_closed c \<longrightarrow> conn_send m c = (c, Some ConnectionErr)"
    using closing.reachable_conn [OF assms] by (simp add: closed_is_dead_def conn_send_def)
  ultimately show ?thesis using ms by blast
qed

theorem streams_framed_witness:
  "\<exists>n c ms. node_steps toy_ed (init_node toy_ed ''n'' 7878 [] ''public'' [] ''0.5.1'' (identity_of toy_ed [1]) True 30 [] 0 None None) n \<and>
    conns n 0 = Some c \<and> c_sent c = frame_bytes (plain_hello [1]) \<and> c_sent c = concat (map frame_bytes ms) \<and>
    (\<forall>m\<in>set ms. \<exists>fr. encode_frame m = Inr fr)"
proof -
  obtain n fr where n: "node_steps toy_ed (init_node toy_ed ''n'' 7878 [] ''public'' [] ''0.5.1'' (identity_of toy_ed [1]) True 30 [] 0 None None) n"
    "encode_frame (plain_hello [1]) = Inr fr" "conns n 0 = Some ((new_conn ''h:1'' 0)\<lparr>c_sent := fr\<rparr>)"
    using plain_hello_sent [OF refl] by blast
  from streams_framed [OF n(1,3)] obtain ms where "c_sent ((new_conn ''h:1'' 0)\<lparr>c_sent := fr\<rparr>) = concat (map frame_bytes ms)"
    "\<forall>m\<in>set ms. \<exists>fr. encode_frame m = Inr fr" by blast
  moreover have "c_sent ((new_conn ''h:1'' 0)\<lparr>c_sent := fr\<rparr>) = frame_bytes (plain_hello [1])" by (simp add: n(2) frame_bytes_def)
  ultimately show ?thesis using n(1,3) by blast
qed

end
