(* ===== verification/Mesh.thy ===== *)
theory Mesh
  imports Streams
begin

text \<open>
  A mesh: any number of nodes, whose connections are joined in pairs. Each node takes its own
  steps; the network joins connections, carries bytes from one end of a pair to the other in
  pieces of any size, and breaks connections at any time.
\<close>

section \<open>Reading a stream of frames\<close>

lemma frame_prefix_free:
  assumes "encode_frame m = Inr fr" "encode_frame m' = Inr fr'" "fr @ a = fr' @ b"
  shows "fr = fr' \<and> a = b"
proof -
  obtain d where d: "fr = pack_u32 (length d) @ d" "length d \<le> MAX_PAYLOAD_SIZE"
    using assms(1) by (auto simp: encode_frame_Inr Let_def)
  obtain d' where d': "fr' = pack_u32 (length d') @ d'" "length d' \<le> MAX_PAYLOAD_SIZE"
    using assms(2) by (auto simp: encode_frame_Inr Let_def)
  have p: "pack_u32 (length d) = pack_u32 (length d')" and b: "d @ a = d' @ b" using assms(3) d(1) d'(1) by simp_all
  have "unpack_u32 (pack_u32 (length d)) = unpack_u32 (pack_u32 (length d'))" by (rule arg_cong [OF p])
  then have "length d = length d'" by (simp only: frame_body_length [OF d(2)] frame_body_length [OF d'(2)])
  then show ?thesis using b d(1) d'(1) by simp
qed

lemma framed_split: "framed s \<Longrightarrow> s \<noteq> [] \<Longrightarrow> \<exists>m fr r. s = fr @ r \<and> encode_frame m = Inr fr \<and> framed r"
proof (induction rule: framed.induct)
  case (framed_more bs m fr)
  show ?case
  proof (cases "bs = []")
    case True
    then have "bs @ fr = fr @ [] \<and> encode_frame m = Inr fr \<and> framed []" using framed_more.hyps(2) framed_none by simp
    then show ?thesis by blast
  next
    case False
    then obtain m' fr' r where "bs = fr' @ r" "encode_frame m' = Inr fr'" "framed r" using framed_more.IH by blast
    then have "bs @ fr = fr' @ (r @ fr) \<and> encode_frame m' = Inr fr' \<and> framed (r @ fr)"
      using framed.framed_more [OF _ framed_more.hyps(2)] by simp
    then show ?thesis by blast
  qed
qed simp

lemma framed_cancel: "framed x \<Longrightarrow> framed (x @ y) \<Longrightarrow> framed y"
proof (induction "length x" arbitrary: x rule: less_induct)
  case less
  show ?case
  proof (cases "x = []")
    case False
    then obtain m fr r where x: "x = fr @ r" "encode_frame m = Inr fr" "framed r" using framed_split [OF less.prems(1)] by blast
    obtain m' fr' r' where y: "x @ y = fr' @ r'" "encode_frame m' = Inr fr'" "framed r'"
      using framed_split [OF less.prems(2)] False by blast
    have "r' = r @ y" using frame_prefix_free [OF x(2) y(2), of "r @ y" r'] x(1) y(1) by simp
    moreover have "length r < length x" using x(1,2) by (auto simp: encode_frame_Inr Let_def)
    ultimately show ?thesis using less.hyps x(3) y(3) by blast
  qed (use less.prems in simp)
qed

text \<open>A read takes exactly one frame off a stream of frames, however much of it has arrived.\<close>

lemma read_one_frame:
  assumes "framed (buf @ rest)" "read_frame eof buf = Got j r"
  shows "\<exists>fr. framed fr \<and> buf = fr @ r"
proof -
  obtain hdr body where b: "buf = hdr @ body @ r" "length hdr = 4" "length body = unpack_u32 hdr"
    using read_frame_Got [OF assms(2)] by blast
  have "buf @ rest \<noteq> []" using b(1,2) by auto
  then obtain m fr s where s: "buf @ rest = fr @ s" "encode_frame m = Inr fr" using framed_split [OF assms(1)] by blast
  obtain d where d: "fr = pack_u32 (length d) @ d" "length d \<le> MAX_PAYLOAD_SIZE" using s(2) by (auto simp: encode_frame_Inr Let_def)
  have "hdr = pack_u32 (length d)" "body @ r @ rest = d @ s" using b(1,2) s(1) d(1) by simp_all
  then have "body = d" using b(3) frame_body_length [OF d(2)] by simp
  then have "buf = fr @ r" using b(1) d(1) \<open>hdr = pack_u32 (length d)\<close> by simp
  then show ?thesis using s(2) by blast
qed

text \<open>\<open>g\<close> are the bytes that have arrived; what was read of them are whole frames.\<close>

definition reads_frames :: "byte list \<Rightarrow> conn \<Rightarrow> bool" where
  "reads_frames g c \<longleftrightarrow> (\<forall>s. framed s \<and> prefix g s \<longrightarrow> (\<exists>x. framed x \<and> g = x @ c_buf c))"

lemma reads_frames_recv: "reads_frames g c \<Longrightarrow> reads_frames g (fst (conn_recv now c))"
  unfolding reads_frames_def
proof (intro allI impI)
  fix s assume r: "\<forall>s. framed s \<and> prefix g s \<longrightarrow> (\<exists>x. framed x \<and> g = x @ c_buf c)" and s: "framed s \<and> prefix g s"
  then obtain x where x: "framed x" "g = x @ c_buf c" by blast
  obtain t where "s = g @ t" using s by (auto simp: prefix_def)
  then have f: "framed (c_buf c @ t)" using framed_cancel [OF x(1), of "c_buf c @ t"] s x(2) by simp
  show "\<exists>x. framed x \<and> g = x @ c_buf (fst (conn_recv now c))"
  proof (cases "read_frame (c_eof c) (c_buf c)")
    case (Got j r)
    obtain fr where "framed fr" "c_buf c = fr @ r" using read_one_frame [OF f Got] by blast
    then have "framed (x @ fr) \<and> g = (x @ fr) @ r" using x framed_append [of fr x] by simp
    then show ?thesis using Got by (auto simp: conn_recv_def)
  qed (use x in \<open>auto simp: conn_recv_def\<close>)
qed

interpretation whole_reads: conn_property "\<lambda>i. reads_frames (g i)" "\<lambda>i. g i = []" for g :: "cid \<Rightarrow> byte list"
proof (unfold_locales, goal_cases)
  case (1 i a now)
  then show ?case using framed_none by (simp add: reads_frames_def new_conn_def)
next
  case (2 c d i)
  then have "c_buf d = c_buf c" unfolding conn_le_def by blast
  then show ?case using 2(2) by (simp add: reads_frames_def)
qed (simp_all add: reads_frames_recv, simp_all add: reads_frames_def conn_close_def)

text \<open>What is written stays written.\<close>

interpretation sent_stays: conn_property "\<lambda>i c. \<forall>p. w i = Some p \<longrightarrow> prefix p (c_sent c)" "\<lambda>i. w i = None"
  for w :: "cid \<Rightarrow> byte list option"
proof (unfold_locales, goal_cases)
  case (2 c d i)
  then obtain bs where "c_sent d = c_sent c @ bs" unfolding conn_le_def by blast
  then show ?case using 2(2) by (auto intro: prefix_order.trans)
qed (simp_all add: conn_close_def conn_recv_fields)

section \<open>The mesh\<close>

text \<open>
  \<open>links\<close> gives the other end of a connection, \<open>got\<close> the bytes that have arrived at an end so far.
\<close>

type_synonym mesh_end = "nat \<times> cid"

record mesh =
  nodes :: "nat \<Rightarrow> node"
  links :: "mesh_end \<Rightarrow> mesh_end option"
  got :: "mesh_end \<Rightarrow> byte list"

definition conn_at :: "mesh \<Rightarrow> mesh_end \<Rightarrow> conn option" where
  "conn_at M x = conns (nodes M (fst x)) (snd x)"

definition put_node :: "nat \<Rightarrow> node \<Rightarrow> mesh \<Rightarrow> mesh" where
  "put_node k n M = M\<lparr>nodes := (nodes M)(k := n)\<rparr>"

definition put_conn :: "mesh_end \<Rightarrow> conn \<Rightarrow> mesh \<Rightarrow> mesh" where
  "put_conn x c M = (let n = nodes M (fst x) in put_node (fst x) (n\<lparr>conns := (conns n)(snd x \<mapsto> c)\<rparr>) M)"

text \<open>
  A node takes a step of its own; two connections become the ends of one; more of what one end
  wrote arrives at the other, unless that has seen the end of the stream; a connection ends or
  breaks.
\<close>

inductive mesh_step :: "ed25519 \<Rightarrow> mesh \<Rightarrow> mesh \<Rightarrow> bool" for e where
  Local: "own_step e (nodes M k) n \<Longrightarrow> mesh_step e M (put_node k n M)"
| Link: "conn_at M x \<noteq> None \<Longrightarrow> conn_at M y \<noteq> None \<Longrightarrow> links M x = None \<Longrightarrow> links M y = None \<Longrightarrow> x \<noteq> y \<Longrightarrow>
    mesh_step e M (M\<lparr>links := (links M)(x \<mapsto> y, y \<mapsto> x)\<rparr>)"
| Deliver: "links M x = Some y \<Longrightarrow> conn_at M x = Some c \<Longrightarrow> conn_at M y = Some d \<Longrightarrow> \<not> c_eof c \<Longrightarrow>
    c_sent d = got M x @ bs @ rest \<Longrightarrow>
    mesh_step e M ((put_conn x (c\<lparr>c_buf := c_buf c @ bs\<rparr>) M)\<lparr>got := (got M)(x := got M x @ bs)\<rparr>)"
| Cut: "conn_at M x = Some c \<Longrightarrow> mesh_step e M (put_conn x (c\<lparr>c_eof := c_eof c \<or> eof, c_broken := c_broken c \<or> br\<rparr>) M)"

inductive mesh_steps :: "ed25519 \<Rightarrow> mesh \<Rightarrow> mesh \<Rightarrow> bool" for e where
  mesh_refl: "mesh_steps e M M"
| mesh_more: "mesh_steps e M M1 \<Longrightarrow> mesh_step e M1 M2 \<Longrightarrow> mesh_steps e M M2"

lemma put_conn_fields [simp]:
  "conn_at (put_conn x c M) y = (if y = x then Some c else conn_at M y)"
  "links (put_conn x c M) = links M" "got (put_conn x c M) = got M"
  by (cases x; cases y; simp add: conn_at_def put_conn_def put_node_def Let_def)+

lemma put_conn_got [simp]: "put_conn x c M\<lparr>got := got M\<rparr> = put_conn x c M"
  by (cases M) (simp add: put_conn_def put_node_def Let_def)

lemma put_node_fields [simp]:
  "conn_at (put_node k n M) y = (if fst y = k then conns n (snd y) else conn_at M y)"
  "links (put_node k n M) = links M" "got (put_node k n M) = got M"
  by (simp_all add: conn_at_def put_node_def)

lemma conn_at_update [simp]: "conn_at (M\<lparr>links := ls\<rparr>) y = conn_at M y" "conn_at (M\<lparr>got := g\<rparr>) y = conn_at M y"
  by (simp_all add: conn_at_def)

definition end_ok :: "mesh \<Rightarrow> mesh_end \<Rightarrow> bool" where
  "end_ok M x \<longleftrightarrow>
     (\<forall>c. conn_at M x = Some c \<longrightarrow> framed (c_sent c) \<and> (\<exists>z. framed z \<and> got M x = z @ c_buf c)) \<and>
     (case links M x of
        None \<Rightarrow> got M x = []
      | Some y \<Rightarrow> conn_at M x \<noteq> None \<and> (\<exists>d. conn_at M y = Some d \<and> prefix (got M x) (c_sent d)))"

definition mesh_inv :: "mesh \<Rightarrow> bool" where
  "mesh_inv M \<longleftrightarrow> (\<forall>x. end_ok M x)"

lemma mesh_invD: "mesh_inv M \<Longrightarrow> end_ok M x"
  unfolding mesh_inv_def by blast

lemma got_framed: "mesh_inv M \<Longrightarrow> \<exists>s. framed s \<and> prefix (got M x) s"
proof (cases "links M x")
  case None
  assume "mesh_inv M"
  then have "end_ok M x" by (rule mesh_invD)
  then have "got M x = []" using None by (simp add: end_ok_def)
  then show ?thesis using framed_none by auto
next
  case (Some y)
  assume M: "mesh_inv M"
  then have "end_ok M x" "end_ok M y" by (rule mesh_invD)+
  then show ?thesis using Some by (auto simp: end_ok_def)
qed

lemma node_keeps_conns:
  assumes M: "mesh_inv M" and s: "own_step e (nodes M k) n"
  shows "all_conns (\<lambda>_ c. framed (c_sent c)) (\<lambda>_. True) n"
    and "all_conns (\<lambda>i. reads_frames (got M (k, i))) (\<lambda>i. got M (k, i) = []) n"
    and "all_conns (\<lambda>i c. \<forall>p. map_option c_sent (conn_at M (k, i)) = Some p \<longrightarrow> prefix p (c_sent c))
           (\<lambda>i. map_option c_sent (conn_at M (k, i)) = None) n"
proof -
  have ok: "end_ok M (k, i)" for i by (rule mesh_invD [OF M])
  have c: "conns (nodes M k) i = conn_at M (k, i)" for i by (simp add: conn_at_def)
  show "all_conns (\<lambda>_ c. framed (c_sent c)) (\<lambda>_. True) n"
    by (rule streams.C_step [OF s all_connsI]) (use ok in \<open>auto simp: c end_ok_def\<close>)
  show "all_conns (\<lambda>i. reads_frames (got M (k, i))) (\<lambda>i. got M (k, i) = []) n"
  proof (rule whole_reads.C_step [OF s all_connsI])
    fix i d assume "conns (nodes M k) i = Some d"
    then show "reads_frames (got M (k, i)) d" using ok [of i] by (simp add: c end_ok_def reads_frames_def)
  next
    fix i assume "conns (nodes M k) i = None"
    then show "got M (k, i) = []" using ok [of i] by (auto simp: c end_ok_def split: option.splits)
  qed
  show "all_conns (\<lambda>i c. \<forall>p. map_option c_sent (conn_at M (k, i)) = Some p \<longrightarrow> prefix p (c_sent c))
      (\<lambda>i. map_option c_sent (conn_at M (k, i)) = None) n"
    by (rule sent_stays.C_step [OF s all_connsI]) (auto simp: c)
qed

lemma local_step_inv:
  assumes M: "mesh_inv M" and s: "own_step e (nodes M k) n"
  shows "mesh_inv (put_node k n M)"
  unfolding mesh_inv_def
proof
  fix x
  let ?M = "put_node k n M"
  note keeps = node_keeps_conns [OF M s]
  have ok: "end_ok M x" by (rule mesh_invD [OF M])
  have grows: "\<exists>c'. conn_at ?M y = Some c' \<and> prefix (c_sent c) (c_sent c')" if "conn_at M y = Some c" for y c
  proof (cases "fst y = k")
    case True
    then have y: "y = (k, snd y)" by (cases y) simp
    then have "conns n (snd y) \<noteq> None" using all_connsD(2) [OF keeps(3), of "snd y"] that by auto
    then obtain c' where c': "conns n (snd y) = Some c'" by blast
    moreover have "prefix (c_sent c) (c_sent c')" using all_connsD(1) [OF keeps(3) c'] that y by auto
    ultimately show ?thesis using True by simp
  qed (use that in simp)
  have new: "framed (c_sent c) \<and> (\<exists>z. framed z \<and> got M x = z @ c_buf c)" if "conn_at ?M x = Some c" for c
  proof (cases "fst x = k")
    case True
    then have x: "x = (k, snd x)" and c: "conns n (snd x) = Some c" using that by (cases x; simp)+
    have "reads_frames (got M x) c" using all_connsD(1) [OF keeps(2) c] x by simp
    then show ?thesis using all_connsD(1) [OF keeps(1) c] got_framed [OF M, of x] by (auto simp: reads_frames_def)
  next
    case False
    then show ?thesis using that ok by (simp add: end_ok_def)
  qed
  show "end_ok ?M x"
  proof (cases "links M x")
    case None
    then show ?thesis using ok new by (simp add: end_ok_def)
  next
    case (Some y)
    then obtain c d where "conn_at M x = Some c" "conn_at M y = Some d" "prefix (got M x) (c_sent d)"
      using ok by (auto simp: end_ok_def)
    then show ?thesis using Some new grows [of x] grows [of y] by (fastforce simp: end_ok_def intro: prefix_order.trans)
  qed
qed

lemma put_conn_inv:
  assumes M: "mesh_inv M" and c: "conn_at M x = Some c" "c_sent c' = c_sent c" "c_buf c' = c_buf c @ bs"
    and bs: "bs = [] \<or> (\<exists>y d. links M x = Some y \<and> conn_at M y = Some d \<and> prefix (got M x @ bs) (c_sent d))"
  shows "mesh_inv ((put_conn x c' M)\<lparr>got := (got M)(x := got M x @ bs)\<rparr>)" (is "mesh_inv ?M")
  unfolding mesh_inv_def
proof
  fix v
  have ok: "end_ok M v" by (rule mesh_invD [OF M])
  have sent: "\<exists>d'. conn_at ?M y = Some d' \<and> c_sent d' = c_sent d" if "conn_at M y = Some d" for y d
    using that c by auto
  have new: "framed (c_sent d) \<and> (\<exists>z. framed z \<and> got ?M v = z @ c_buf d)" if "conn_at ?M v = Some d" for d
  proof (cases "v = x")
    case True
    then have d: "d = c'" using that by simp
    obtain z where "framed z" "got M x = z @ c_buf c" using ok c True by (auto simp: end_ok_def)
    then have "framed z \<and> got ?M v = z @ c_buf d" using c True d by simp
    moreover have "framed (c_sent d)" using ok c True d by (simp add: end_ok_def)
    ultimately show ?thesis by blast
  next
    case False
    then show ?thesis using that ok by (simp add: end_ok_def)
  qed
  show "end_ok ?M v"
  proof (cases "links M v")
    case None
    then have "got ?M v = []" using ok bs by (auto simp: end_ok_def)
    then show ?thesis using None new by (simp add: end_ok_def)
  next
    case (Some y)
    obtain d where d: "conn_at M y = Some d" "prefix (got ?M v) (c_sent d)"
      using ok bs Some by (cases "v = x") (auto simp: end_ok_def)
    obtain d' where "conn_at ?M y = Some d'" "c_sent d' = c_sent d" using sent d(1) by blast
    moreover have "conn_at ?M v \<noteq> None" using ok Some by (auto simp: end_ok_def)
    ultimately show ?thesis using Some new d(2) by (auto simp: end_ok_def)
  qed
qed

lemma mesh_step_inv: "mesh_step e M M' \<Longrightarrow> mesh_inv M \<Longrightarrow> mesh_inv M'"
proof (induction rule: mesh_step.induct)
  case (Local M k n)
  then show ?case by (intro local_step_inv)
next
  case (Link M x y)
  have "end_ok (M\<lparr>links := (links M)(x \<mapsto> y, y \<mapsto> x)\<rparr>) z" for z
    using mesh_invD [OF Link(6), of x] mesh_invD [OF Link(6), of y] mesh_invD [OF Link(6), of z] Link(1-5)
    by (auto simp: end_ok_def split: if_splits option.splits)
  then show ?case unfolding mesh_inv_def by blast
next
  case (Deliver M x y c d bs rest)
  then have "prefix (got M x @ bs) (c_sent d)" by simp
  then show ?case using Deliver by (intro put_conn_inv [where c = c]) auto
next
  case (Cut M x c br eof)
  then show ?case
    using put_conn_inv [of M x c "c\<lparr>c_eof := c_eof c \<or> eof, c_broken := c_broken c \<or> br\<rparr>" "[]"] by simp
qed

lemma mesh_steps_inv: "mesh_steps e M M' \<Longrightarrow> mesh_inv M \<Longrightarrow> mesh_inv M'"
  by (induction rule: mesh_steps.induct) (auto intro: mesh_step_inv)

text \<open>What a node goes through in a mesh it can go through alone, so its invariants hold there too.\<close>

lemma put_conn_step:
  assumes "conn_at M x = Some c" "d = c\<lparr>c_buf := c_buf c @ bs, c_eof := c_eof c \<or> eof, c_broken := c_broken c \<or> br\<rparr>"
  shows "nodes (put_conn x d M) k = nodes M k \<or> node_step e (nodes M k) (nodes (put_conn x d M) k)"
  using assms Receive [where n = "nodes M (fst x)" and i = "snd x" and c = c and e = e and bs = bs and eof = eof and br = br]
  by (cases "k = fst x") (simp_all add: conn_at_def put_conn_def put_node_def Let_def)

lemma mesh_step_node: "mesh_step e M M' \<Longrightarrow> nodes M' k = nodes M k \<or> node_step e (nodes M k) (nodes M' k)"
proof (induction rule: mesh_step.induct)
  case (Local M j n)
  then show ?case by (cases "k = j") (auto simp: put_node_def intro: Own)
next
  case (Deliver M x y c d bs rest)
  have "c\<lparr>c_buf := c_buf c @ bs\<rparr> = c\<lparr>c_buf := c_buf c @ bs, c_eof := c_eof c \<or> False, c_broken := c_broken c \<or> False\<rparr>"
    by (cases c) simp
  from put_conn_step [OF Deliver.hyps(2) this, of k e] show ?case by simp
next
  case (Cut M x c br eof)
  then show ?case using put_conn_step [where M = M and x = x and c = c and bs = "[]" and eof = eof and br = br and k = k and e = e] by simp
qed simp

lemma mesh_node_steps: "mesh_steps e M M' \<Longrightarrow> node_steps e (nodes M k) (nodes M' k)"
proof (induction rule: mesh_steps.induct)
  case (mesh_more M M1 M2)
  then show ?case using mesh_step_node [OF mesh_more.hyps(2), of k] by (auto intro: steps_step)
qed (rule steps_refl)

definition start_mesh :: "mesh \<Rightarrow> bool" where
  "start_mesh M \<longleftrightarrow> (\<forall>k. conns (nodes M k) = Map.empty) \<and> links M = Map.empty \<and> (\<forall>x. got M x = [])"

lemma start_mesh_inv: "start_mesh M \<Longrightarrow> mesh_inv M"
  by (simp add: start_mesh_def mesh_inv_def end_ok_def conn_at_def)

definition fresh_node :: "ed25519 \<Rightarrow> node \<Rightarrow> bool" where
  "fresh_node e n \<longleftrightarrow> (\<exists>nm prt prs tr allow ver sk verify hb host now q lp.
     queue_inv q \<and> n = init_node e nm prt prs tr allow ver (identity_of e sk) verify hb host now q lp)"

lemma fresh_node_inv: "fresh_node e n \<Longrightarrow> \<exists>sk. node_inv e (identity_of e sk) n"
  unfolding fresh_node_def using init_inv by blast

text \<open>Two nodes, one of which has dialled the other; its HELLO has arrived.\<close>

lemma demo_mesh:
  "\<exists>M0 M c. start_mesh M0 \<and> (\<forall>k. fresh_node toy_ed (nodes M0 k)) \<and> mesh_steps toy_ed M0 M \<and>
    links M (1, 0) = Some (0, 0) \<and> conn_at M (1, 0) = Some c \<and> c_buf c = frame_bytes (plain_hello [1])"
proof -
  let ?n = "init_node toy_ed ''n'' 7878 [] ''public'' [] ''0.5.1'' (identity_of toy_ed [1]) True 30 [] 0 None None"
  let ?a = "new_conn ''h:1'' 0" and ?M0 = "\<lparr>nodes = \<lambda>_. ?n, links = Map.empty, got = \<lambda>_. []\<rparr>"
  have e: "conns ?n = Map.empty" by (simp add: init_node_def Let_def)
  obtain fr where fr: "encode_frame (plain_hello [1]) = Inr fr" using plain_hello_fits by auto
  let ?d = "?a\<lparr>c_sent := fr\<rparr>"
  have s: "conn_send (plain_hello [1]) ?a = (?d, None)" using conn_send_ok [OF _ _ fr, of ?a] by (simp add: new_conn_def)
  define n where "n = fst (send_conn 0 (plain_hello [1]) (?n\<lparr>conns := (conns ?n)(0 \<mapsto> ?a)\<rparr>))"
  have n: "conns n = [0 \<mapsto> ?d]" unfolding n_def by (simp add: send_conn_def s e)
  define M1 where "M1 = put_node 0 n ?M0"
  define M2 where "M2 = put_node 1 (?n\<lparr>conns := (conns ?n)(0 \<mapsto> ?a)\<rparr>) M1"
  define M3 where "M3 = M2\<lparr>links := (links M2)((1, 0) \<mapsto> (0, 0), (0, 0) \<mapsto> (1, 0))\<rparr>"
  define M4 where "M4 = (put_conn (1, 0) (?a\<lparr>c_buf := c_buf ?a @ fr\<rparr>) M3)\<lparr>got := (got M3)((1, 0) := got M3 (1, 0) @ fr)\<rparr>"
  have at: "conn_at M2 (1, 0) = Some ?a" "conn_at M2 (0, 0) = Some ?d" "links M2 = Map.empty" "got M2 = (\<lambda>_. [])"
    by (simp_all add: M2_def M1_def n e)
  have "own_step toy_ed ?n n" unfolding n_def
    by (rule Dial_open [OF _ plain_hello_own prod.collapse [symmetric]]) (simp_all add: init_node_def Let_def)
  then have s1: "mesh_step toy_ed ?M0 M1" unfolding M1_def by (intro Local) simp
  have "own_step toy_ed ?n (?n\<lparr>conns := (conns ?n)(0 \<mapsto> ?a)\<rparr>)" by (rule Accept) (simp add: e)
  then have "own_step toy_ed (nodes M1 1) (?n\<lparr>conns := (conns ?n)(0 \<mapsto> ?a)\<rparr>)" by (simp add: M1_def put_node_def)
  then have s2: "mesh_step toy_ed M1 M2" unfolding M2_def by (rule Local)
  have s3: "mesh_step toy_ed M2 M3" unfolding M3_def by (rule Link) (simp_all add: at del: One_nat_def)
  have at3: "conn_at M3 (1, 0) = Some ?a" "conn_at M3 (0, 0) = Some ?d" "links M3 (1, 0) = Some (0, 0)" "got M3 = (\<lambda>_. [])"
    unfolding M3_def conn_at_update using at by simp_all
  have s4: "mesh_step toy_ed M3 M4" unfolding M4_def
    by (rule Deliver [OF at3(3,1,2), where rest = "[]"]) (simp_all add: at3(4) new_conn_def)
  have steps: "mesh_steps toy_ed ?M0 M4"
    by (rule mesh_more [OF mesh_more [OF mesh_more [OF mesh_more [OF mesh_refl s1] s2] s3] s4])
  have st: "start_mesh ?M0" by (simp add: start_mesh_def e)
  have fin: "links M4 (1, 0) = Some (0, 0)" "conn_at M4 (1, 0) = Some (?a\<lparr>c_buf := c_buf ?a @ fr\<rparr>)"
    by (simp_all add: M4_def M3_def)
  have b: "c_buf (?a\<lparr>c_buf := c_buf ?a @ fr\<rparr>) = frame_bytes (plain_hello [1])" by (simp add: new_conn_def frame_bytes_def fr)
  have "queue_inv None" by (simp add: queue_inv_def)
  then have "fresh_node toy_ed ?n" unfolding fresh_node_def by blast
  then have "\<forall>k. fresh_node toy_ed (nodes ?M0 k)" by simp
  then show ?thesis using st steps fin b by blast
qed

lemma framed_read:
  assumes "c_buf c @ rest = concat (map frame_bytes ms)" "list_all frame_ok ms"
  shows "case snd (conn_recv now c) of
      Msg j \<Rightarrow> (\<exists>m ms'. ms = m # ms' \<and> j = JObj m \<and> c_buf c = frame_bytes m @ c_buf (fst (conn_recv now c)))
    | Waiting \<Rightarrow> \<not> c_eof c
    | End_of_stream \<Rightarrow> c_eof c
    | Raised _ \<Rightarrow> False"
proof (cases ms)
  case Nil
  then show ?thesis using assms(1) by (simp add: conn_recv_def read_frame_def FRAME_HEADER_SIZE_def)
next
  case (Cons m ms')
  then obtain fr where fr: "encode_frame m = Inr fr" "wf_dict m" using assms(2) by (auto simp: frame_ok_def)
  then have b: "frame_bytes m = fr" by (simp add: frame_bytes_def)
  then have "c_buf c @ rest = fr @ concat (map frame_bytes ms')" using assms(1) Cons by simp
  then consider (part) "strict_prefix (c_buf c) fr" | (whole) r where "c_buf c = fr @ r"
    by (auto simp: append_eq_append_conv2 strict_prefix_def) blast
  then show ?thesis
  proof cases
    case part
    then show ?thesis using read_frame_partial [OF fr(1) part] by (cases "c_eof c") (simp_all add: conn_recv_def)
  next
    case whole
    then show ?thesis using read_encode_frame [OF fr(2,1), of "c_eof c" r] Cons b by (simp add: conn_recv_def)
  qed
qed

text \<open>
  C11: messages arrive whole, unchanged and in order, in every mesh. Start any number of nodes
  without connections and let them run in any interleaving, whatever they do, while the network
  carries the bytes in pieces of any size and breaks connections where it likes. Then at every
  end of a connection the bytes written by the other end are the frames of the messages it
  sent: those already read at this end, and those still to be read. The next read gives the
  first of these (when the values are proper JSON), waits, or finds the stream ended; it never
  fails on a frame of another node and never sees a message that was not sent.
\<close>

theorem mesh_in_order:
  assumes "start_mesh M0" "mesh_steps e M0 M" "links M x = Some y" "conn_at M x = Some c"
  shows "\<exists>d done todo. conn_at M y = Some d \<and> c_sent d = concat (map frame_bytes (done @ todo)) \<and>
    (\<forall>m \<in> set (done @ todo). \<exists>fr. encode_frame m = Inr fr) \<and>
    got M x = concat (map frame_bytes done) @ c_buf c \<and>
    (list_all wf_dict todo \<longrightarrow>
      (case snd (conn_recv now c) of
         Msg j \<Rightarrow> \<exists>m rest. todo = m # rest \<and> j = JObj m \<and>
           got M x = concat (map frame_bytes (done @ [m])) @ c_buf (fst (conn_recv now c))
       | Waiting \<Rightarrow> \<not> c_eof c
       | End_of_stream \<Rightarrow> c_eof c
       | Raised _ \<Rightarrow> False))"
proof -
  have ok: "end_ok M v" for v by (rule mesh_invD [OF mesh_steps_inv [OF assms(2) start_mesh_inv [OF assms(1)]]])
  obtain d where d: "conn_at M y = Some d" "prefix (got M x) (c_sent d)" using ok [of x] assms(3) by (auto simp: end_ok_def)
  obtain z where z: "framed z" "got M x = z @ c_buf c" using ok [of x] assms(4) by (auto simp: end_ok_def)
  obtain t where t: "c_sent d = z @ (c_buf c @ t)" using d(2) z(2) by (auto simp: prefix_def)
  have "framed (c_sent d)" using ok [of y] d(1) by (simp add: end_ok_def)
  then have f: "framed (c_buf c @ t)" using framed_cancel [OF z(1)] t by simp
  obtain ds where ds: "z = concat (map frame_bytes ds)" "\<forall>m\<in>set ds. \<exists>fr. encode_frame m = Inr fr"
    using framed_messages [OF z(1)] by blast
  obtain ts where ts: "c_buf c @ t = concat (map frame_bytes ts)" "\<forall>m\<in>set ts. \<exists>fr. encode_frame m = Inr fr"
    using framed_messages [OF f] by blast
  have "c_sent d = concat (map frame_bytes (ds @ ts))" using t ds(1) ts(1) by simp
  moreover have "\<forall>m \<in> set (ds @ ts). \<exists>fr. encode_frame m = Inr fr" using ds(2) ts(2) by auto
  moreover have "got M x = concat (map frame_bytes ds) @ c_buf c" using z(2) ds(1) by simp
  moreover have "case snd (conn_recv now c) of
         Msg j \<Rightarrow> \<exists>m rest. ts = m # rest \<and> j = JObj m \<and>
           got M x = concat (map frame_bytes (ds @ [m])) @ c_buf (fst (conn_recv now c))
       | Waiting \<Rightarrow> \<not> c_eof c | End_of_stream \<Rightarrow> c_eof c | Raised _ \<Rightarrow> False" if "list_all wf_dict ts"
  proof -
    have "list_all frame_ok ts" using that ts(2) by (auto simp: list_all_iff frame_ok_def)
    then show ?thesis
      using framed_read [OF ts(1), of now] z(2) ds(1) by (auto split: recv_out.splits)
  qed
  ultimately show ?thesis using d(1) by blast
qed

theorem mesh_in_order_witness:
  "\<exists>M0 M c d read todo. start_mesh M0 \<and> mesh_steps toy_ed M0 M \<and> links M (1, 0) = Some (0, 0) \<and>
    conn_at M (1, 0) = Some c \<and> c_buf c = frame_bytes (plain_hello [1]) \<and> conn_at M (0, 0) = Some d \<and>
    c_sent d = concat (map frame_bytes (read @ todo)) \<and> got M (1, 0) = concat (map frame_bytes read) @ c_buf c"
proof -
  obtain M0 M c where m: "start_mesh M0" "mesh_steps toy_ed M0 M" "links M (1, 0) = Some (0, 0)" "conn_at M (1, 0) = Some c"
    "c_buf c = frame_bytes (plain_hello [1])" using demo_mesh by metis
  from mesh_in_order [OF m(1-4)] m show ?thesis by blast
qed

section \<open>Who is at the other end\<close>

lemma frames_prefix:
  assumes "concat (map frame_bytes ds) @ r = concat (map frame_bytes ms)"
    "\<forall>m\<in>set ds. \<exists>fr. encode_frame m = Inr fr" "\<forall>m\<in>set ms. \<exists>fr. encode_frame m = Inr fr"
  shows "\<exists>ms1 ms2. ms = ms1 @ ms2 \<and> r = concat (map frame_bytes ms2)"
  using assms
proof (induction ds arbitrary: ms)
  case (Cons d ds)
  obtain fr where fr: "encode_frame d = Inr fr" using Cons.prems(2) by auto
  then have "fr \<noteq> []" by (auto simp: encode_frame_Inr Let_def pack_u32_def)
  then have "frame_bytes d \<noteq> []" by (simp add: frame_bytes_def fr)
  then obtain m ms' where ms: "ms = m # ms'" using Cons.prems(1) by (cases ms) auto
  obtain fr' where fr': "encode_frame m = Inr fr'" using Cons.prems(3) ms by auto
  have "frame_bytes d = fr" "frame_bytes m = fr'" using fr fr' by (simp_all add: frame_bytes_def)
  then have "fr @ (concat (map frame_bytes ds) @ r) = fr' @ concat (map frame_bytes ms')"
    using Cons.prems(1) ms by simp
  then have "concat (map frame_bytes ds) @ r = concat (map frame_bytes ms')"
    using frame_prefix_free [OF fr fr'] by blast
  then obtain ms1 ms2 where "ms' = ms1 @ ms2 \<and> r = concat (map frame_bytes ms2)"
    using Cons.IH Cons.prems(2,3) ms by force
  then have "ms = (m # ms1) @ ms2 \<and> r = concat (map frame_bytes ms2)" by (simp add: ms)
  then show ?case by blast
qed auto

text \<open>A message read is the first of those that have been written and not read.\<close>

lemma read_first:
  assumes "c_buf c @ t = concat (map frame_bytes ms)" "\<forall>m\<in>set ms. \<exists>fr. encode_frame m = Inr fr"
    "snd (conn_recv now c) = Msg j"
  shows "\<exists>m ms'. ms = m # ms' \<and> prefix (frame_bytes m) (c_buf c) \<and> (wf_dict m \<longrightarrow> j = JObj m)"
proof -
  obtain r where got: "read_frame (c_eof c) (c_buf c) = Got j r"
    using assms(3) by (auto simp: conn_recv_def split: read_outcome.splits if_splits)
  then have "c_buf c \<noteq> []" by (auto simp: read_frame_def FRAME_HEADER_SIZE_def split: if_splits)
  then obtain m ms' where ms: "ms = m # ms'" using assms(1) by (cases ms) auto
  obtain fr where fr: "encode_frame m = Inr fr" using assms(2) ms by auto
  have "c_buf c @ t = fr @ concat (map frame_bytes ms')" using assms(1) ms fr by (simp add: frame_bytes_def)
  then consider (part) "strict_prefix (c_buf c) fr" | (whole) s where "c_buf c = fr @ s"
    by (auto simp: append_eq_append_conv2 strict_prefix_def) blast
  then show ?thesis
  proof cases
    case part
    then show ?thesis using read_frame_partial [OF fr part] got by (cases "c_eof c") simp_all
  next
    case whole
    then show ?thesis using read_encode_frame [OF _ fr, of "c_eof c" s] got ms fr by (auto simp: frame_bytes_def)
  qed
qed

text \<open>
  C5: in a mesh of nodes nobody can be mistaken for another. Start any number of fresh nodes,
  each with its own key, and let them run in any interleaving over a network that carries bytes
  in pieces and breaks connections. Whatever a node reads on a connection was written by the
  node at the other end in its own name: a task that it reads names that node as the caller,
  and passes its signature check.
\<close>

theorem callers_are_who_they_say:
  assumes "ed_ok e" "start_mesh M0" "\<forall>k. fresh_node e (nodes M0 k)" "mesh_steps e M0 M"
    "links M x = Some y" "conn_at M x = Some c" "snd (conn_recv now c) = Msg j"
  shows "\<exists>m. prefix (frame_bytes m) (c_buf c) \<and> vouched e (ident (nodes M (fst y))) m \<and>
    (wf_dict m \<longrightarrow> j = JObj m) \<and>
    (dget m ''type'' JNull = JStr (mt TASK) \<longrightarrow>
       dget m ''caller'' (JStr []) = JStr (self_id (nodes M (fst y))) \<and>
       (\<forall>E. ed E = e \<longrightarrow> snd (check_task_signature E m (nodes M (fst x))) = Inr Sig_ok))"
proof -
  have inv: "\<exists>sk. node_inv e (identity_of e sk) (nodes M k)" for k
    using fresh_node_inv assms(3) node_steps_inv [OF mesh_node_steps [OF assms(4)]] by blast
  obtain sk where sk: "node_inv e (identity_of e sk) (nodes M (fst y))" using inv by blast
  define me where "me = identity_of e sk"
  have me: "ident (nodes M (fst y)) = me" "self_id (nodes M (fst y)) = node_id_of e me"
    using sk app_inv_me [of e "nodes M (fst y)"] by (auto simp: node_inv_def me_def same_identity_def)
  have ok: "end_ok M v" for v by (rule mesh_invD [OF mesh_steps_inv [OF assms(4) start_mesh_inv [OF assms(2)]]])
  obtain d where d: "conn_at M y = Some d" "prefix (got M x) (c_sent d)" using ok [of x] assms(5) by (auto simp: end_ok_def)
  obtain z where z: "framed z" "got M x = z @ c_buf c" using ok [of x] assms(6) by (auto simp: end_ok_def)
  obtain t where t: "c_sent d = z @ (c_buf c @ t)" using d(2) z(2) by (auto simp: prefix_def)
  have "spoken (vouched e me) (c_sent d)"
    using sk d(1) voiced_conn [of "vouched e me" "nodes M (fst y)" "snd y" d]
    by (auto simp: node_inv_def voice_ok_def conn_at_def me_def)
  then obtain ms where ms: "c_sent d = concat (map frame_bytes ms)"
    "\<forall>m\<in>set ms. vouched e me m \<and> (\<exists>fr. encode_frame m = Inr fr)" unfolding spoken_def by blast
  obtain ds where ds: "z = concat (map frame_bytes ds)" "\<forall>m\<in>set ds. \<exists>fr. encode_frame m = Inr fr"
    using framed_messages [OF z(1)] by blast
  obtain ms1 ms2 where m2: "ms = ms1 @ ms2" "c_buf c @ t = concat (map frame_bytes ms2)"
    using frames_prefix [of ds "c_buf c @ t" ms] t ms ds by auto
  obtain m ms' where m: "ms2 = m # ms'" "prefix (frame_bytes m) (c_buf c)" "wf_dict m \<longrightarrow> j = JObj m"
    using read_first [OF m2(2) _ assms(7)] ms(2) m2(1) by auto
  have v: "vouched e me m" using m(1) m2(1) ms(2) by simp
  have "cache_ok e (nodes M (fst x))" using inv [of "fst x"] by (auto simp: node_inv_def app_inv_def)
  then have "\<forall>E. ed E = e \<longrightarrow> snd (check_task_signature E m (nodes M (fst x))) = Inr Sig_ok"
    if "dget m ''type'' JNull = JStr (mt TASK)"
    using vouched_accepted [OF assms(1) me_def v that] by blast
  moreover have "dget m ''caller'' (JStr []) = JStr (node_id_of e me)" if "dget m ''type'' JNull = JStr (mt TASK)"
    using v that by (simp add: vouched_def Let_def)
  ultimately show ?thesis using m(2,3) v me by auto
qed

theorem callers_are_who_they_say_witness:
  "\<exists>M0 M c m. start_mesh M0 \<and> mesh_steps toy_ed M0 M \<and> conn_at M (1, 0) = Some c \<and>
    snd (conn_recv 5 c) = Msg (JObj (plain_hello [1])) \<and> prefix (frame_bytes m) (c_buf c) \<and>
    vouched toy_ed (ident (nodes M 0)) m"
proof -
  obtain M0 M c where m: "start_mesh M0" "\<forall>k. fresh_node toy_ed (nodes M0 k)" "mesh_steps toy_ed M0 M"
    "links M (1, 0) = Some (0, 0)" "conn_at M (1, 0) = Some c" "c_buf c = frame_bytes (plain_hello [1])"
    using demo_mesh by metis
  obtain fr where fr: "encode_frame (plain_hello [1]) = Inr fr" using plain_hello_fits by blast
  have "wf_dict (plain_hello [1])" by (simp add: plain_hello_def hello_msg_def wf_dict_def)
  then have "read_frame (c_eof c) (c_buf c) = Got (JObj (plain_hello [1])) []"
    using read_encode_frame [OF _ fr, of "c_eof c" "[]"] m(6) fr by (simp add: frame_bytes_def)
  then have r: "snd (conn_recv 5 c) = Msg (JObj (plain_hello [1]))" by (simp add: conn_recv_def)
  from callers_are_who_they_say [OF toy_ed_ok m(1-5) r] obtain w where
    "prefix (frame_bytes w) (c_buf c)" "vouched toy_ed (ident (nodes M 0)) w" by auto
  then show ?thesis using m(1,3,5) r by blast
qed

end
