(* ===== verification/Network.thy ===== *)
theory Network
  imports Node_Steps
begin

text \<open>
  Two nodes joined by a connection: the bytes one writes arrive at the other. A task is
  followed from the send to the handler of the peer and back.
\<close>

section \<open>Bytes on their way\<close>

text \<open>The bytes \<open>bs\<close> arrive on connection \<open>i\<close>.\<close>

definition arrive :: "byte list \<Rightarrow> cid \<Rightarrow> node \<Rightarrow> node" where
  "arrive bs i n = (case conns n i of None \<Rightarrow> n
     | Some c \<Rightarrow> n\<lparr>conns := (conns n)(i \<mapsto> c\<lparr>c_buf := c_buf c @ bs\<rparr>)\<rparr>)"

text \<open>A live peer from which nothing waits to be read, on a node that handles messages.\<close>

definition quiet_peer :: "node \<Rightarrow> string \<Rightarrow> cid \<Rightarrow> conn \<Rightarrow> bool" where
  "quiet_peer n a i c \<longleftrightarrow> live_peer n a i c \<and> c_buf c = [] \<and> has_handler n \<and> \<not> stopped n"

lemma read_arrived_by:
  assumes "quiet_peer n a i c" "wf_dict m" "encode_frame m = Inr fr"
  shows "read_loop_step h now a i (arrive fr i n) =
    (case h a (JObj m) (n\<lparr>conns := (conns n)(i \<mapsto> c\<lparr>c_last_read := now\<rparr>)\<rparr>) of
       (s, None) \<Rightarrow> (s, True) | (s, Some _) \<Rightarrow> (end_read_loop h a i s, False))"
proof -
  have "read_frame eof fr = Got (JObj m) []" for eof
    using read_encode_frame [OF assms(2,3), of eof "[]"] by simp
  then have "conn_recv now (c\<lparr>c_buf := fr\<rparr>) = (c\<lparr>c_last_read := now\<rparr>, Msg (JObj m))"
    using assms(1) by (cases c) (simp add: conn_recv_def quiet_peer_def)
  then show ?thesis
    using assms(1) by (simp add: read_loop_step_def arrive_def quiet_peer_def live_peer_def call_handler_def)
qed

lemmas read_arrived = read_arrived_by [where h = "handle_message E" for E]

lemma handle_counted:
  assumes "dget m ''type'' (JStr []) = ty" "ty \<noteq> JStr (mt HELLO)" "ty \<noteq> JStr (mt BYE)"
    "fst (bump_count (mono E) a (msg_count n)) \<le> 100"
  shows "handle_message E a (JObj m) n = dispatch E ty a m (count_message (mono E) a ty n)"
  using assms by (simp add: handle_message_JObj hello_flood_def Let_def)

section \<open>A task and its answer\<close>

lemma task_body_ok:
  assumes "snd (check_task_signature E m n) = Inr Sig_ok" "dget m ''caller'' (JStr []) = JStr cid"
    "run_task E m (fst (check_task_signature E m n)) = Inr out"
  shows "task_body E b m n =
    send_to b (signed_result E (dget m ''id'' (JStr [])) out (fst (check_task_signature E m n))) (fst (check_task_signature E m n))"
proof -
  obtain n1 where "check_task_signature E m n = (n1, Inr Sig_ok)" using assms(1) by (cases "check_task_signature E m n") auto
  then show ?thesis using assms(2,3) by (simp add: task_body_def Let_def)
qed

lemma ident_pubkey [simp]: "ident (fst (get_caller_pubkey E nid n)) = ident n"
  by (auto simp: get_caller_pubkey_def Let_def split: option.split prod.split sum.split)

lemma task_run:
  assumes "snd (check_task_signature E m n) = Inr Sig_ok" "dget m ''caller'' (JStr []) = JStr cid"
    "dget m ''capability'' (JStr []) \<noteq> JStr ''health''" "task_handler n = Some f" "f (incoming_task E m) = Inr out"
    "live_peer n b j d" "encode_frame (signed_result E (dget m ''id'' (JStr [])) out n) = Inr fr"
  shows "conns (on_task E b m n) = (conns n)(j \<mapsto> d\<lparr>c_sent := c_sent d @ fr\<rparr>)"
proof -
  let ?n = "fst (check_task_signature E m n)"
  have s: "signed_result E (dget m ''id'' (JStr [])) out ?n = signed_result E (dget m ''id'' (JStr [])) out n"
    by (simp add: signed_result_def)
  have l: "live_peer ?n b j d" using assms(6) by (simp add: live_peer_def)
  have "run_task E m ?n = Inr out" using assms(3-5) by (simp add: run_task_def)
  from task_body_ok [OF assms(1,2) this, of b] show ?thesis
    unfolding on_task_def s using send_to_live [OF l, of "signed_result E (dget m ''id'' (JStr [])) out n"] assms(7) by simp
qed

lemma signed_task_type: "dget (signed_task E tid tg cap pl n) ''type'' d = JStr (mt TASK)"
  "dget (signed_task E tid tg cap pl n) ''id'' d = JStr tid"
  "dget (signed_task E tid tg cap pl n) ''capability'' d = cap"
  by (simp_all add: signed_task_def Let_def dget_dset dget_dpop task_msg_def dget_def)

lemma signed_task_payload: "dget (signed_task E tid tg cap pl n) ''payload'' x = pl"
  by (simp add: signed_task_def Let_def dget_dset dget_dpop task_msg_def dget_def)

lemma signed_result_get:
  "dget (signed_result E tid out n) ''type'' d = JStr (mt RESULT)"
  "dget (signed_result E tid out n) ''id'' d = tid"
  "dget (signed_result E tid out n) ''status'' d = JStr ''success''"
  "dget (signed_result E tid out n) ''payload'' (JObj []) = (if out = JNull then JObj [] else out)"
  by (simp_all add: signed_result_def Let_def dget_dset result_msg_def dget_def)

text \<open>The peer a send goes to at once.\<close>

definition sends_to :: "env \<Rightarrow> send_req \<Rightarrow> node \<Rightarrow> string \<Rightarrow> bool" where
  "sends_to E req n a \<longleftrightarrow>
     (if py_truthy (sr_target req) then target_peer (sr_target req) n
      else find_peer_for (ord_addr E) (sr_capability req) (routing n)) = Inr (Some a)"

abbreviation request_task :: "env \<Rightarrow> string \<Rightarrow> send_req \<Rightarrow> node \<Rightarrow> pydict" where
  "request_task E tid req n \<equiv> signed_task E tid (sr_target req) (sr_capability req) (sr_payload req) n"

lemma send_starts:
  assumes "connected n" "sends_to E req n a" "live_peer n a i c" "encode_frame (request_task E tid req n) = Inr fr"
  shows "send_task E created tid rtid qid req n =
    (expect_result tid (n\<lparr>conns := (conns n)(i \<mapsto> c\<lparr>c_sent := c_sent c @ fr\<rparr>)\<rparr>), Wait_result tid req)"
  using assms(1,2,4) send_to_live [OF assms(3), of "request_task E tid req n"]
  by (auto simp: send_task_def sends_to_def send_direct_def Let_def split: if_splits)

lemma receive_task:
  assumes "quiet_peer B b j d" "wf_dict m" "encode_frame m = Inr fr" "dget m ''type'' (JStr []) = JStr (mt TASK)"
    "fst (bump_count (mono E) b (msg_count B)) \<le> 100"
    "\<And>n. cache_ok (ed E) n \<Longrightarrow> snd (check_task_signature E m n) = Inr Sig_ok" "cache_ok (ed E) B"
    "dget m ''caller'' (JStr []) = JStr cid"
    "dget m ''capability'' (JStr []) \<noteq> JStr ''health''" "task_handler B = Some f" "f (incoming_task E m) = Inr out"
    "encode_frame (signed_result E (dget m ''id'' (JStr [])) out B) = Inr fr'"
  shows "\<exists>B'. read_loop_step (handle_message E) now b j (arrive fr j B) = (B', True) \<and>
    conns B' j = Some (d\<lparr>c_last_read := now, c_sent := c_sent d @ fr'\<rparr>)"
proof -
  let ?d = "d\<lparr>c_last_read := now\<rparr>"
  define n where "n = count_message (mono E) b (JStr (mt TASK)) (B\<lparr>conns := (conns B)(j \<mapsto> ?d)\<rparr>)"
  have n: "task_handler n = task_handler B" "ident n = ident B" "pubkey_cache n = pubkey_cache B"
      "conns n = (conns B)(j \<mapsto> ?d)" "peers n = peers B"
    by (simp_all add: n_def count_message_def Let_def)
  have c: "cache_ok (ed E) n" using assms(7) by (simp add: cache_ok_def n)
  have th: "task_handler n = Some f" using assms(10) n by simp
  have l: "live_peer n b j ?d" using assms(1) by (simp add: quiet_peer_def live_peer_def n)
  have s: "encode_frame (signed_result E (dget m ''id'' (JStr [])) out n) = Inr fr'"
    using assms(12) by (simp add: signed_result_def n)
  have "handle_message E b (JObj m) (B\<lparr>conns := (conns B)(j \<mapsto> ?d)\<rparr>) = (on_task E b m n, None)"
    using handle_counted [OF assms(4), of E b "B\<lparr>conns := (conns B)(j \<mapsto> ?d)\<rparr>"] assms(5)
    by (simp add: dispatch_def n_def)
  moreover have "conns (on_task E b m n) j = Some (?d\<lparr>c_sent := c_sent ?d @ fr'\<rparr>)"
    using task_run [OF assms(6) [OF c] assms(8,9) th assms(11) l s] n by simp
  ultimately show ?thesis
    using read_arrived [OF assms(1-3), of E now] by simp
qed

lemma receive_result:
  assumes "quiet_peer A a i c" "wf_dict m" "encode_frame m = Inr fr" "dget m ''type'' (JStr []) = JStr (mt RESULT)"
    "fst (bump_count (mono E) a (msg_count A)) \<le> 100"
    "\<And>n. cache_ok (ed E) n \<Longrightarrow> snd (check_result_signature E a m n) = Inr Sig_ok" "cache_ok (ed E) A"
    "dget m ''id'' (JStr []) = JStr tid" "dget m ''status'' (JStr ''error'') = JStr ''success''"
    "map_of (pending_results A) tid = Some None"
  shows "\<exists>A'. read_loop_step (handle_message E) now a i (arrive fr i A) = (A', True) \<and>
    map_of (pending_results A') tid = Some (Some (result_success (JStr tid) (dget m ''payload'' (JObj [])))) \<and>
    conns A' = (conns A)(i \<mapsto> c\<lparr>c_last_read := now\<rparr>) \<and> peers A' = peers A \<and> ident A' = ident A \<and> self_id A' = self_id A \<and>
    pending_queue A' = pending_queue A"
proof -
  let ?c = "c\<lparr>c_last_read := now\<rparr>"
  define n where "n = count_message (mono E) a (JStr (mt RESULT)) (A\<lparr>conns := (conns A)(i \<mapsto> ?c)\<rparr>)"
  have n: "pending_results n = pending_results A" "pubkey_cache n = pubkey_cache A" "conns n = (conns A)(i \<mapsto> ?c)"
    "peers n = peers A" "ident n = ident A" "self_id n = self_id A" "pending_queue n = pending_queue A"
    by (simp_all add: n_def count_message_def Let_def)
  have "cache_ok (ed E) n" using assms(7) by (simp add: cache_ok_def n)
  from assms(6) [OF this] obtain n1 where k: "check_result_signature E a m n = (n1, Inr Sig_ok)"
    by (cases "check_result_signature E a m n") auto
  have "n1 = fst (check_result_signature E a m n)" by (simp add: k)
  then have n1: "conns n1 = conns n" "peers n1 = peers n" "ident n1 = ident n" "self_id n1 = self_id n"
    "pending_queue n1 = pending_queue n"
    using self_keeps [OF keeps_pubkey [OF keeps_table_refl]] by simp_all
  let ?r = "result_success (JStr tid) (dget m ''payload'' (JObj []))"
  have "on_result E a m n = (n1\<lparr>pending_results := dset tid (Some ?r) (pending_results n)\<rparr>, None)"
    using k assms(8-10) n by (simp add: on_result_eq lookup_key_def str_key_def result_of_msg_def Let_def)
  moreover have "handle_message E a (JObj m) (A\<lparr>conns := (conns A)(i \<mapsto> ?c)\<rparr>) = on_result E a m n"
    using handle_counted [OF assms(4), of E a "A\<lparr>conns := (conns A)(i \<mapsto> ?c)\<rparr>"] assms(5)
    by (simp add: dispatch_def n_def)
  ultimately show ?thesis
    using read_arrived [OF assms(1-3), of E now] n n1 by simp
qed

lemma remote_execution:
  assumes "ed_ok (ed E)" "ed E' = ed E" "ed E2 = ed E" "own_identity (ed E) A" "cache_ok (ed E) A" "cache_ok (ed E) B"
    and "connected A" "sends_to E req A a" "a = take 12 rid @ ''@'' @ r" "CHR ''@'' \<notin> set rid"
    and "quiet_peer A a i c" "quiet_peer B b j d"
    and "fst (bump_count (mono E') b (msg_count B)) \<le> 100" "fst (bump_count (mono E2) a (msg_count A)) \<le> 100"
    and "wf_json (sr_target req)" "wf_json (sr_capability req)" "wf_json (sr_payload req)" "sr_capability req \<noteq> JStr ''health''"
    and "task_handler B = Some f" "f (incoming_task E' (request_task E tid req A)) = Inr out" "wf_json out"
    and "encode_frame (request_task E tid req A) = Inr fr" "encode_frame (signed_result E' (JStr tid) out B) = Inr fr'"
  shows "\<exists>A1 B1 A2 A3. send_task E created tid rtid qid req A = (A1, Wait_result tid req) \<and>
    conns A1 i = Some (c\<lparr>c_sent := c_sent c @ fr\<rparr>) \<and>
    read_loop_step (handle_message E') now b j (arrive fr j B) = (B1, True) \<and>
    conns B1 j = Some (d\<lparr>c_last_read := now, c_sent := c_sent d @ fr'\<rparr>) \<and>
    read_loop_step (handle_message E2) now2 a i (arrive fr' i A1) = (A2, True) \<and>
    resume_send E3 created to (Wait_result tid req) A2 =
      (A3, Finished (result_success (JStr tid) (if out = JNull then JObj [] else out))) \<and>
    pending_queue A3 = pending_queue A"
proof -
  let ?m = "request_task E tid req A" and ?r = "signed_result E' (JStr tid) out B"
  define A1 where "A1 = expect_result tid (A\<lparr>conns := (conns A)(i \<mapsto> c\<lparr>c_sent := c_sent c @ fr\<rparr>)\<rparr>)"
  have s: "send_task E created tid rtid qid req A = (A1, Wait_result tid req)"
    using send_starts [OF assms(7,8) _ assms(22)] assms(11) by (simp add: A1_def quiet_peer_def)
  have wm: "wf_dict ?m" by (rule wf_signed_task [OF assms(15-17)])
  have ok: "snd (check_task_signature E' ?m n) = Inr Sig_ok" if "cache_ok (ed E') n" for n
    by (rule honest_check [OF assms(1,4,2) that])
  obtain B1 where b1: "read_loop_step (handle_message E') now b j (arrive fr j B) = (B1, True)"
    "conns B1 j = Some (d\<lparr>c_last_read := now, c_sent := c_sent d @ fr'\<rparr>)"
    using receive_task [OF assms(12) wm assms(22) signed_task_type(1) assms(13) ok _ signed_task_get(1) _ assms(19,20), of fr' now]
      assms(2,6,18,23) by (auto simp: signed_task_type)
  let ?c = "c\<lparr>c_sent := c_sent c @ fr\<rparr>"
  have q: "quiet_peer A1 a i ?c" "cache_ok (ed E2) A1" "map_of (pending_results A1) tid = Some None" "msg_count A1 = msg_count A"
    using assms(3,5,11) by (simp_all add: A1_def expect_result_def quiet_peer_def live_peer_def cache_ok_def)
  have wr: "wf_dict ?r" using assms(21) by (intro wf_signed_result) simp
  have rk: "snd (check_result_signature E2 a ?r n) = Inr Sig_ok" if "cache_ok (ed E2) n" for n
    using result_sig_ok [OF _ that assms(10), of r] assms(1,3,9) by simp
  obtain A2 where a2: "read_loop_step (handle_message E2) now2 a i (arrive fr' i A1) = (A2, True)"
    "map_of (pending_results A2) tid = Some (Some (result_success (JStr tid) (dget ?r ''payload'' (JObj []))))"
    "pending_queue A2 = pending_queue A1"
    using receive_result [OF q(1) wr assms(23) signed_result_get(1) _ rk q(2) signed_result_get(2,3) q(3), of now2] q(4) assms(14)
    by auto
  have "resume_send E3 created to (Wait_result tid req) A2 =
      (A2\<lparr>pending_results := dpop tid (pending_results A2)\<rparr>, Finished (result_success (JStr tid) (if out = JNull then JObj [] else out)))"
    using a2(2) by (simp add: resume_send_def take_result_def finish_send_eq signed_result_get result_success_def)
  then show ?thesis
    using s b1 a2(1,3) by (auto simp: A1_def expect_result_def)
qed

text \<open>
  C1: a task sent to a connected peer comes back with its handler's answer. The sender writes
  one frame on the peer's connection and waits; the peer reads it, checks the signature, runs
  its handler on the task and writes one signed result; the sender reads that, and the send
  ends with exactly the handler's value. Each node may be in any state that satisfies the
  premises, with any clocks, and with verification on or off.
\<close>

theorem task_executed_remotely:
  assumes "ed_ok (ed E)" "ed E' = ed E" "ed E2 = ed E" "own_identity (ed E) A" "cache_ok (ed E) A" "cache_ok (ed E) B"
    and "connected A" "sends_to E req A a" "a = take 12 rid @ ''@'' @ r" "CHR ''@'' \<notin> set rid"
    and "quiet_peer A a i c" "quiet_peer B b j d"
    and "fst (bump_count (mono E') b (msg_count B)) \<le> 100" "fst (bump_count (mono E2) a (msg_count A)) \<le> 100"
    and "wf_json (sr_target req)" "wf_json (sr_capability req)" "wf_json (sr_payload req)" "sr_capability req \<noteq> JStr ''health''"
    and "task_handler B = Some f" "f (incoming_task E' (request_task E tid req A)) = Inr out" "wf_json out"
    and "encode_frame (request_task E tid req A) = Inr fr" "encode_frame (signed_result E' (JStr tid) out B) = Inr fr'"
  shows "\<exists>A1 B1 A2 A3. send_task E created tid rtid qid req A = (A1, Wait_result tid req) \<and>
    conns A1 i = Some (c\<lparr>c_sent := c_sent c @ fr\<rparr>) \<and>
    read_loop_step (handle_message E') now b j (arrive fr j B) = (B1, True) \<and>
    conns B1 j = Some (d\<lparr>c_last_read := now, c_sent := c_sent d @ fr'\<rparr>) \<and>
    read_loop_step (handle_message E2) now2 a i (arrive fr' i A1) = (A2, True) \<and>
    resume_send E3 created to (Wait_result tid req) A2 =
      (A3, Finished (result_success (JStr tid) (if out = JNull then JObj [] else out)))"
  using remote_execution [OF assms, of created rtid qid now now2 E3 to] by blast

lemma demo_quiet: "quiet_peer demo_node ''abc@h:1'' 0 (new_conn ''h:1'' 0)"
  using demo_live by (simp add: quiet_peer_def new_conn_def) (simp add: demo_node_def init_node_def Let_def)

definition demo_provider :: interest_table where
  "demo_provider = fst (register_peer ''abc@h:1'' (JObj [(''agents'', JArr [JObj [(''name'', JStr ''x'')]])]) (JArr []) empty_table)"

lemma demo_provider: "fwd demo_provider (JStr ''x'') = [''abc@h:1'']" "known_peers demo_provider = [''abc@h:1'']"
  by (simp_all add: demo_provider_def register_peer_def cap_names_def dget_def item_name_def py_set_def set_add_def set_of_def
      bindE_def empty_table_def fwd_def fwd_add_def Let_def known_peers_def)

theorem task_executed_remotely_witness:
  "\<exists>A fr B B1 fr' A1 A2 A3.
     send_task demo_env (Dec 1000 1) ''t'' ''r'' ''q'' demo_req A = (A1, Wait_result ''t'' demo_req) \<and>
     read_loop_step (handle_message demo_env) 100 ''abc@h:1'' 0 (arrive fr 0 B) = (B1, True) \<and>
     read_loop_step (handle_message demo_env) 100 ''abc@h:1'' 0 (arrive fr' 0 A1) = (A2, True) \<and>
     resume_send demo_env (Dec 1000 1) False (Wait_result ''t'' demo_req) A2 =
       (A3, Finished (result_success (JStr ''t'') (JStr ''done'')))"
proof -
  let ?A = "demo_node\<lparr>routing := demo_provider\<rparr>"
  let ?B = "demo_node\<lparr>task_handler := Some (\<lambda>t. Inr (JStr ''done''))\<rparr>"
  have st: "sends_to demo_env demo_req ?A ''abc@h:1''"
    by (simp add: sends_to_def find_peer_for_def demo_provider)
  have q: "quiet_peer ?A ''abc@h:1'' 0 (new_conn ''h:1'' 0)" "quiet_peer ?B ''abc@h:1'' 0 (new_conn ''h:1'' 0)"
    using demo_quiet by (simp_all add: quiet_peer_def live_peer_def)
  have i: "own_identity (ed demo_env) ?A" "cache_ok (ed demo_env) ?A" "cache_ok (ed demo_env) ?B"
    using demo_own demo_cache by (simp_all add: own_identity_def cache_ok_def)
  have k: "''abc@h:1'' = take 12 ''abc'' @ ''@'' @ ''h:1''" "CHR ''@'' \<notin> set ''abc''" by simp_all
  obtain fr where fr: "encode_frame (request_task demo_env ''t'' demo_req ?A) = Inr fr"
    using demo_task_fits [of ?A "[]"] by auto
  obtain fr' where fr': "encode_frame (signed_result demo_env (JStr ''t'') (JStr ''done'') ?B) = Inr fr'"
    using demo_result_fits [of ?B "[]"] by auto
  obtain A1 B1 A2 A3 where
    "send_task demo_env (Dec 1000 1) ''t'' ''r'' ''q'' demo_req ?A = (A1, Wait_result ''t'' demo_req)"
    "read_loop_step (handle_message demo_env) 100 ''abc@h:1'' 0 (arrive fr 0 ?B) = (B1, True)"
    "read_loop_step (handle_message demo_env) 100 ''abc@h:1'' 0 (arrive fr' 0 A1) = (A2, True)"
    "resume_send demo_env (Dec 1000 1) False (Wait_result ''t'' demo_req) A2 =
       (A3, Finished (result_success (JStr ''t'') (JStr ''done'')))"
    using task_executed_remotely [OF _ refl refl i _ st k q _ _ _ _ _ _ _ _ _ fr fr',
      of "\<lambda>t. Inr (JStr ''done'')" "Dec 1000 1" "''r''" "''q''" 100 100 demo_env False] toy_ed_ok
    by (auto simp: connected_def bump_count_def dget_def)
  then show ?thesis by blast
qed

end
