(* ===== verification/Retry.thy ===== *)
theory Retry
  imports Network
begin

text \<open>
  The life of a task in the retry queue, from the file to the answer of the peer that appeared.
\<close>

section \<open>A queued task\<close>

lemma task_peer_sends: "sends_to E (retry_req t) n a \<longleftrightarrow> task_peer E t n = Inr (Some a)"
  by (simp add: sends_to_def task_peer_def retry_req_def)

lemma sends_ready: "sends_to E (retry_req t) n a \<Longrightarrow> ready E n t"
  by (simp add: task_peer_sends ready_def can_retry_def)

lemma sends_to_cong:
  "peers n' = peers n \<Longrightarrow> routing n' = routing n \<Longrightarrow> sends_to E req n' a = sends_to E req n a"
  by (simp add: sends_to_def target_peer_def peer_with_id_def peer_addresses_def)

lemma retry_id [simp]: "p_task_id (one_retry_more t) = p_task_id t"
  by (simp add: one_retry_more_def split: sum.split)

lemma started_leaves_queue:
  assumes "\<not> flushing_pending n" "queue_io E = Io_ok" "load_all Io_ok (pending_queue n) = ts" "list_all wf_pending ts"
    "list_all (readable E n) ts" "distinct (map p_task_id ts)" "t \<in> set ts" "\<not> expired E t" "ready E n t"
  shows "RetryTask t \<in> set (jobs (flush_pending E n)) \<and>
    p_task_id t \<notin> p_task_id ` set (load_all Io_ok (pending_queue (flush_pending E n)))"
proof -
  define waiting where "waiting = filter (\<lambda>t. \<not> expired E t \<and> \<not> ready E n t) ts"
  have ne: "ts \<noteq> []" using assms(7) by auto
  have t: "t \<notin> set waiting" using assms(9) by (simp add: waiting_def)
  then have w: "waiting \<noteq> ts" using assms(7) by blast
  have wf: "list_all wf_pending (map one_retry_more waiting)"
    using assms(4) by (auto simp: waiting_def list_all_iff intro: wf_one_retry_more)
  have "p_task_id x \<noteq> p_task_id t" if "x \<in> set waiting" for x
    using assms(6,7) t that by (auto simp: waiting_def distinct_map dest: inj_onD)
  then have "p_task_id t \<notin> p_task_id ` set (map one_retry_more waiting)" by force
  then show ?thesis
    using flush_effect [OF assms(1-3) ne assms(5) refl waiting_def] queue.load_save [OF wf, of "pending_queue n"] w assms(7-9)
    by simp
qed

text \<open>
  C17: a queued task reaches the peer that turns up. When the queue is flushed with a peer for
  the task connected, its retry starts and the task leaves the file; the retry sends the
  task, the peer checks it, runs its handler and answers; the send ends with the handler's
  value, the retry queues nothing again, and no task with that id is left in the file.
\<close>

theorem queued_task_delivered:
  assumes "\<not> flushing_pending A" "queue_io E = Io_ok" "load_all Io_ok (pending_queue A) = ts" "list_all wf_pending ts"
      "list_all (readable E A) ts" "distinct (map p_task_id ts)" "t \<in> set ts" "\<not> expired E t"
    and "ed_ok (ed E)" "ed E' = ed E" "ed E2 = ed E" "own_identity (ed E) A" "cache_ok (ed E) A" "cache_ok (ed E) B"
    and "connected A" "sends_to E (retry_req t) A a" "a = take 12 rid @ ''@'' @ r" "CHR ''@'' \<notin> set rid"
    and "quiet_peer A a i c" "quiet_peer B b j d"
    and "fst (bump_count (mono E') b (msg_count B)) \<le> 100" "fst (bump_count (mono E2) a (msg_count A)) \<le> 100"
    and "p_capability t \<noteq> JStr ''health''"
    and "task_handler B = Some f" "f (incoming_task E' (request_task E tid (retry_req t) A)) = Inr out" "wf_json out"
    and "encode_frame (request_task E tid (retry_req t) A) = Inr fr" "encode_frame (signed_result E' (JStr tid) out B) = Inr fr'"
  shows "\<exists>A0 A1 B1 A2 A3 res. flush_pending E A = A0 \<and> RetryTask t \<in> set (jobs A0) \<and>
    send_task E created tid rtid qid (retry_req t) A0 = (A1, Wait_result tid (retry_req t)) \<and>
    conns A1 i = Some (c\<lparr>c_sent := c_sent c @ fr\<rparr>) \<and>
    read_loop_step (handle_message E') now b j (arrive fr j B) = (B1, True) \<and>
    conns B1 j = Some (d\<lparr>c_last_read := now, c_sent := c_sent d @ fr'\<rparr>) \<and>
    read_loop_step (handle_message E2) now2 a i (arrive fr' i A1) = (A2, True) \<and>
    resume_send E3 created to (Wait_result tid (retry_req t)) A2 = (A3, Finished res) \<and>
    res = result_success (JStr tid) (if out = JNull then JObj [] else out) \<and> retry_finish E3 t res A3 = A3 \<and>
    p_task_id t \<notin> p_task_id ` set (load_all Io_ok (pending_queue A3))"
proof -
  define A0 where "A0 = flush_pending E A"
  note started = started_leaves_queue [OF assms(1-8) sends_ready [OF assms(16)]]
  have ne: "ts \<noteq> []" using assms(7) by auto
  have eq: "\<exists>js q. A0 = A\<lparr>jobs := js, pending_queue := q\<rparr>"
    using flush_effect [OF assms(1-3) ne assms(5) refl refl] unfolding A0_def by blast
  have A0: "own_identity (ed E) A0" "cache_ok (ed E) A0" "connected A0" "sends_to E (retry_req t) A0 a" "quiet_peer A0 a i c"
    "msg_count A0 = msg_count A" "request_task E tid (retry_req t) A0 = request_task E tid (retry_req t) A"
    using eq assms(12,13,15,16,19) sends_to_cong [of A0 A E "retry_req t" a]
    by (auto simp: own_identity_def cache_ok_def connected_def quiet_peer_def live_peer_def signed_task_def)
  have wf: "wf_json (sr_target (retry_req t))" "wf_json (sr_capability (retry_req t))" "wf_json (sr_payload (retry_req t))"
    using assms(4,7) by (auto simp: list_all_iff wf_pending_iff retry_req_def)
  have cap: "sr_capability (retry_req t) \<noteq> JStr ''health''" using assms(23) by (simp add: retry_req_def)
  let ?res = "result_success (JStr tid) (if out = JNull then JObj [] else out)"
  obtain A1 B1 A2 A3 where r: "send_task E created tid rtid qid (retry_req t) A0 = (A1, Wait_result tid (retry_req t))"
      "conns A1 i = Some (c\<lparr>c_sent := c_sent c @ fr\<rparr>)"
      "read_loop_step (handle_message E') now b j (arrive fr j B) = (B1, True)"
      "conns B1 j = Some (d\<lparr>c_last_read := now, c_sent := c_sent d @ fr'\<rparr>)"
      "read_loop_step (handle_message E2) now2 a i (arrive fr' i A1) = (A2, True)"
      "resume_send E3 created to (Wait_result tid (retry_req t)) A2 = (A3, Finished ?res)" "pending_queue A3 = pending_queue A0"
    using remote_execution [OF assms(9-11) A0(1,2) assms(14) A0(3,4) assms(17,18) A0(5) assms(20,21) _ wf cap assms(24), of tid out fr fr'
        created rtid qid now now2 E3 to] assms(22,25-28) A0(6,7)
    by auto
  have "retry_finish E3 t ?res A3 = A3" by (simp add: retry_finish_def result_success_def)
  then show ?thesis using r started unfolding A0_def by metis
qed

theorem queued_task_delivered_witness:
  "\<exists>A t A0 A1 A2 A3 B B1 fr fr' res. t \<in> set (load_all Io_ok (pending_queue A)) \<and>
    flush_pending demo_env A = A0 \<and> RetryTask t \<in> set (jobs A0) \<and>
    send_task demo_env (Dec 1000 1) ''t'' ''r'' ''q'' (retry_req t) A0 = (A1, Wait_result ''t'' (retry_req t)) \<and>
    read_loop_step (handle_message demo_env) 100 ''abc@h:1'' 0 (arrive fr 0 B) = (B1, True) \<and>
    read_loop_step (handle_message demo_env) 100 ''abc@h:1'' 0 (arrive fr' 0 A1) = (A2, True) \<and>
    resume_send demo_env (Dec 1000 1) False (Wait_result ''t'' (retry_req t)) A2 = (A3, Finished res) \<and>
    res = result_success (JStr ''t'') (JStr ''done'') \<and> p_task_id t \<notin> p_task_id ` set (load_all Io_ok (pending_queue A3))"
proof -
  let ?t = "queued_task (Dec 1000 1) ''t'' demo_req"
  let ?A = "demo_node\<lparr>routing := demo_provider, pending_queue := save_all Io_ok [?t] None\<rparr>"
  let ?B = "demo_node\<lparr>task_handler := Some (\<lambda>t. Inr (JStr ''done''))\<rparr>"
  have wf: "list_all wf_pending [?t]" by (simp add: wf_pending_iff queued_task_def)
  have l: "load_all Io_ok (pending_queue ?A) = [?t]" using queue.load_save [OF wf, of None] by simp
  have rq: "sr_target (retry_req ?t) = JStr []" "sr_capability (retry_req ?t) = JStr ''x''" "sr_payload (retry_req ?t) = JNull"
    by (simp_all add: retry_req_def queued_task_def)
  have st: "sends_to demo_env (retry_req ?t) ?A ''abc@h:1''"
    unfolding sends_to_def rq by (simp add: find_peer_for_def demo_provider)
  have rd: "list_all (readable demo_env ?A) [?t]"
    using sends_ready [OF st] by (simp add: readable_def ready_def queued_task_def)
  have ex: "\<not> expired demo_env ?t" by (simp add: expired_def queued_task_def dec_val_def)
  have q: "quiet_peer ?A ''abc@h:1'' 0 (new_conn ''h:1'' 0)" "quiet_peer ?B ''abc@h:1'' 0 (new_conn ''h:1'' 0)"
    using demo_quiet by (simp_all add: quiet_peer_def live_peer_def)
  have i: "own_identity (ed demo_env) ?A" "cache_ok (ed demo_env) ?A" "cache_ok (ed demo_env) ?B"
    using demo_own demo_cache by (simp_all add: own_identity_def cache_ok_def)
  have k: "''abc@h:1'' = take 12 ''abc'' @ ''@'' @ ''h:1''" "CHR ''@'' \<notin> set ''abc''" by simp_all
  have c: "connected ?A" "\<not> flushing_pending ?A" "queue_io demo_env = Io_ok" "distinct (map p_task_id [?t])" "?t \<in> set [?t]"
    "p_capability ?t \<noteq> JStr ''health''" "ed_ok (ed demo_env)"
    "fst (bump_count (mono demo_env) ''abc@h:1'' (msg_count ?B)) \<le> 100" "fst (bump_count (mono demo_env) ''abc@h:1'' (msg_count ?A)) \<le> 100"
    "task_handler ?B = Some (\<lambda>t. Inr (JStr ''done''))" "wf_json (JStr ''done'')"
    by (simp_all add: connected_def queued_task_def bump_count_def dget_def toy_ed_ok)
  obtain fr where fr: "encode_frame (request_task demo_env ''t'' (retry_req ?t) ?A) = Inr fr"
    unfolding rq using demo_task_fits [of ?A "[]"] by auto
  obtain fr' where fr': "encode_frame (signed_result demo_env (JStr ''t'') (JStr ''done'') ?B) = Inr fr'"
    using demo_result_fits [of ?B "[]"] by auto
  note r = queued_task_delivered [OF c(2,3) l wf rd c(4,5) ex c(7) refl refl i c(1) st k q c(8,9,6,10) refl c(11) fr fr',
    of "Dec 1000 1" "''r''" "''q''" 100 100 demo_env False]
  have "?t \<in> set (load_all Io_ok (pending_queue ?A))" unfolding l by simp
  then show ?thesis using r by (simp only: json.distinct if_False) blast
qed

end
