(* ===== verification/Queue_Dir.thy ===== *)
theory Queue_Dir
  imports Pending
begin

text \<open>
  \<open>elo/pending_queue.py\<close> on its directory: the names of the queue's files, their permissions,
  and every system call an operation makes, each of which may fail. \<^term>\<open>enqueue\<close>,
  \<^term>\<open>save_all\<close> and \<^term>\<open>load_all\<close> see the queue as the text of one file; here the file is
  one of a directory, a write may break off in the middle, and saving goes through a
  temporary file. The lemmas show which failures the text of the file can show: a failed
  save none, a failed append at most a torn last line.
\<close>

section \<open>The directory and its system calls\<close>

record disk_file =
  f_text :: string
  f_mode :: nat

text \<open>The mode of the directory (None before it is made) and its files.\<close>

record queue_disk =
  d_mode :: "nat option"
  d_files :: "string \<Rightarrow> disk_file option"

text \<open>\<open>chmod\<close> sets the mode, raises NotImplementedError, which the code ignores, or an OSError.\<close>

datatype chmod_out = Chmod_ok | Chmod_unsupported | Chmod_fails

text \<open>Opening fails, the write breaks off after some characters, or all is written.\<close>

datatype write_out = Open_fails | Torn nat | Written

text \<open>
  How the calls of one operation go: \<open>mkdir\<close>, the two kinds of \<open>chmod\<close>, the write, the
  rename, and the modes the umask leaves a new directory and a new file.
\<close>

record fs_calls =
  fs_mkdir :: bool
  fs_chmod_dir :: chmod_out
  fs_chmod :: chmod_out
  fs_write :: write_out
  fs_replace :: bool
  fs_dir_mode :: nat
  fs_new_mode :: nat

text \<open>\<open>tasks_{node_id[:12]}.jsonl\<close>, and the name with another suffix.\<close>

definition queue_name :: "string \<Rightarrow> string" where
  "queue_name nid = ''tasks_'' @ take 12 nid @ ''.jsonl''"

definition with_suffix :: "string \<Rightarrow> string \<Rightarrow> string" where
  "with_suffix name suf = rev (tl (dropWhile (\<lambda>c. c \<noteq> CHR ''.'') (rev name))) @ suf"

definition temp_name :: "string \<Rightarrow> string" where
  "temp_name nid = with_suffix (queue_name nid) ''.tmp''"

definition set_mode :: "fs_calls \<Rightarrow> string \<Rightarrow> queue_disk \<Rightarrow> queue_disk \<times> bool" where
  "set_mode fs name d = (case fs_chmod fs of
     Chmod_ok \<Rightarrow> (d\<lparr>d_files := (d_files d)(name := map_option (f_mode_update (\<lambda>_. 6 * 64)) (d_files d name))\<rparr>, True)
   | Chmod_unsupported \<Rightarrow> (d, True)
   | Chmod_fails \<Rightarrow> (d, False))"

text \<open>
  \<open>_init_dir\<close>: what it leaves, and whether it returns; an OSError leaves the constructor.
\<close>

definition init_dir :: "fs_calls \<Rightarrow> string \<Rightarrow> queue_disk \<Rightarrow> queue_disk \<times> bool" where
  "init_dir fs nid d =
     (if \<not> fs_mkdir fs then (d, False)
      else (let d1 = d\<lparr>d_mode := Some (case d_mode d of None \<Rightarrow> fs_dir_mode fs | Some m \<Rightarrow> m)\<rparr> in
        if fs_chmod_dir fs = Chmod_fails then (d1, False)
        else (let d2 = (if fs_chmod_dir fs = Chmod_ok then d1\<lparr>d_mode := Some (7 * 64)\<rparr> else d1) in
          if d_files d2 (queue_name nid) = None then (d2, True)
          else set_mode fs (queue_name nid) d2)))"

text \<open>\<open>open\<close> in mode \<open>a\<close> or \<open>w\<close>, the writes and the close: the directory and whether all went well.\<close>

definition write_file :: "fs_calls \<Rightarrow> bool \<Rightarrow> string \<Rightarrow> string \<Rightarrow> queue_disk \<Rightarrow> queue_disk \<times> bool" where
  "write_file fs app name txt d =
     (let old = d_files d name;
          base = (if app then (case old of None \<Rightarrow> [] | Some f \<Rightarrow> f_text f) else []);
          mode = (case old of None \<Rightarrow> fs_new_mode fs | Some f \<Rightarrow> f_mode f);
          put = (\<lambda>s. d\<lparr>d_files := (d_files d)(name := Some \<lparr>f_text = base @ s, f_mode = mode\<rparr>)\<rparr>) in
      if d_mode d = None then (d, False)
      else (case fs_write fs of
          Open_fails \<Rightarrow> (d, False)
        | Torn k \<Rightarrow> (put (take k txt), False)
        | Written \<Rightarrow> (put txt, True)))"

definition move_file :: "string \<Rightarrow> string \<Rightarrow> queue_disk \<Rightarrow> queue_disk" where
  "move_file a b d = d\<lparr>d_files := (d_files d)(b := d_files d a, a := None)\<rparr>"

section \<open>The operations\<close>

definition file_enqueue :: "fs_calls \<Rightarrow> string \<Rightarrow> pending_task \<Rightarrow> queue_disk \<Rightarrow> queue_disk" where
  "file_enqueue fs nid t d =
     (case write_file fs True (queue_name nid) (pending_line t) d of
        (d1, False) \<Rightarrow> d1
      | (d1, True) \<Rightarrow> fst (set_mode fs (queue_name nid) d1))"

definition file_save :: "fs_calls \<Rightarrow> string \<Rightarrow> pending_task list \<Rightarrow> queue_disk \<Rightarrow> queue_disk" where
  "file_save fs nid ts d =
     (case write_file fs False (temp_name nid) (concat (map pending_line ts)) d of
        (d1, False) \<Rightarrow> d1
      | (d1, True) \<Rightarrow> (case set_mode fs (temp_name nid) d1 of
            (d2, False) \<Rightarrow> d2
          | (d2, True) \<Rightarrow> if fs_replace fs then move_file (temp_name nid) (queue_name nid) d2 else d2))"

text \<open>The queue of a node: the text of its file.\<close>

definition queue_text :: "string \<Rightarrow> queue_disk \<Rightarrow> queue_file" where
  "queue_text nid d = map_option f_text (d_files d (queue_name nid))"

text \<open>
  Reading fails at \<open>open\<close>, after some lines, or not at all; \<open>load_all\<close> returns the tasks it has
  by then.
\<close>

datatype read_out = Read_fails | Read_breaks nat | Read_all

definition file_load :: "read_out \<Rightarrow> string \<Rightarrow> queue_disk \<Rightarrow> pending_task list" where
  "file_load ro nid d = (case queue_text nid d of
     None \<Rightarrow> []
   | Some s \<Rightarrow>
       (let ls = file_lines (univ_newlines s) in
        List.map_filter load_line (case ro of Read_fails \<Rightarrow> [] | Read_breaks k \<Rightarrow> take k ls | Read_all \<Rightarrow> ls)))"

lemma file_load_all: "file_load Read_all nid d = load_all Io_ok (queue_text nid d)"
  by (simp add: file_load_def load_all_def Let_def split: option.splits)

lemma file_load_fails: "file_load Read_fails nid d = load_all Io_fail (queue_text nid d)"
  by (simp add: file_load_def load_all_def List.map_filter_simps split: option.splits)

text \<open>A read that breaks off gives a prefix of the queue, so saving what was read drops the rest.\<close>

lemma file_load_breaks: "\<exists>us. file_load Read_all nid d = file_load (Read_breaks k) nid d @ us"
proof (cases "queue_text nid d")
  case (Some s)
  let ?ls = "file_lines (univ_newlines s)"
  have "List.map_filter load_line ?ls =
      List.map_filter load_line (take k ?ls) @ List.map_filter load_line (drop k ?ls)"
    by (metis append_take_drop_id map_filter_append)
  then show ?thesis by (auto simp: file_load_def Some)
qed (simp add: file_load_def)

section \<open>Names\<close>

lemma temp_name_eq: "temp_name nid = ''tasks_'' @ take 12 nid @ ''.tmp''"
  by (simp add: temp_name_def with_suffix_def queue_name_def)

lemma queue_name_inj: "queue_name a = queue_name b \<longleftrightarrow> take 12 a = take 12 b"
  by (simp add: queue_name_def)

lemma temp_not_queue: "temp_name a \<noteq> queue_name b" "queue_name b \<noteq> temp_name a"
proof -
  have "last (temp_name a) \<noteq> last (queue_name b)"
    by (simp add: temp_name_eq queue_name_def last_append)
  then show "temp_name a \<noteq> queue_name b" "queue_name b \<noteq> temp_name a" by auto
qed

section \<open>What the operations do to the text\<close>

lemmas disk_simps = queue_text_def set_mode_def write_file_def move_file_def Let_def

lemma set_mode_text [simp]: "queue_text m (fst (set_mode fs name d)) = queue_text m d"
  by (auto simp: disk_simps option.map_comp comp_def split: chmod_out.splits)

lemma set_mode_dir [simp]: "d_mode (fst (set_mode fs name d)) = d_mode d"
  by (simp add: set_mode_def split: chmod_out.splits)

text \<open>What an append and a save amount to, seen as operations on the text.\<close>

definition append_text :: "fs_calls \<Rightarrow> queue_disk \<Rightarrow> pending_task \<Rightarrow> queue_file \<Rightarrow> queue_file" where
  "append_text fs d t f =
     (if d_mode d = None then f
      else (case fs_write fs of
          Open_fails \<Rightarrow> f
        | Torn k \<Rightarrow> Some ((case f of None \<Rightarrow> [] | Some s \<Rightarrow> s) @ take k (pending_line t))
        | Written \<Rightarrow> enqueue Io_ok t f))"

definition save_io :: "fs_calls \<Rightarrow> queue_disk \<Rightarrow> io" where
  "save_io fs d =
     (if d_mode d \<noteq> None \<and> fs_write fs = Written \<and> fs_chmod fs \<noteq> Chmod_fails \<and> fs_replace fs
      then Io_ok else Io_fail)"

lemma file_enqueue_text: "queue_text nid (file_enqueue fs nid t d) = append_text fs d t (queue_text nid d)"
  by (auto simp: file_enqueue_def append_text_def enqueue_def disk_simps option.map_comp comp_def
      split: write_out.splits chmod_out.splits option.splits)

text \<open>Saving is atomic: whatever call fails, the queue is the old one or the new one.\<close>

lemma file_save_text: "queue_text nid (file_save fs nid ts d) = save_all (save_io fs d) ts (queue_text nid d)"
  using temp_not_queue
  by (auto simp: file_save_def save_io_def save_all_def disk_simps split: write_out.splits chmod_out.splits)

text \<open>The queue of another node is not touched.\<close>

lemma file_enqueue_other:
  "take 12 m \<noteq> take 12 nid \<Longrightarrow> queue_text m (file_enqueue fs nid t d) = queue_text m d"
  by (auto simp: file_enqueue_def disk_simps queue_name_inj split: write_out.splits chmod_out.splits)

lemma file_save_other:
  "take 12 m \<noteq> take 12 nid \<Longrightarrow> queue_text m (file_save fs nid ts d) = queue_text m d"
  using temp_not_queue
  by (auto simp: file_save_def disk_simps queue_name_inj split: write_out.splits chmod_out.splits)

lemma init_dir_text [simp]: "queue_text m (fst (init_dir fs nid d)) = queue_text m d"
  by (auto simp: init_dir_def Let_def) (auto simp: queue_text_def)

lemma init_dir_made: "snd (init_dir fs nid d) \<Longrightarrow> d_mode (fst (init_dir fs nid d)) \<noteq> None"
  by (auto simp: init_dir_def Let_def split: if_splits)

section \<open>Permissions\<close>

text \<open>
  The directory is the owner's alone once it is made on a system that has modes, and no later
  call changes that; a file the queue wrote in full is 0600.
\<close>

lemma init_dir_private:
  "snd (init_dir fs nid d) \<Longrightarrow> fs_chmod_dir fs = Chmod_ok \<Longrightarrow> d_mode (fst (init_dir fs nid d)) = Some (7 * 64)"
  by (auto simp: init_dir_def Let_def split: if_splits)

lemma write_file_dir [simp]: "d_mode (fst (write_file fs app name txt d)) = d_mode d"
  by (simp add: disk_simps split: write_out.splits)

lemma file_enqueue_dir [simp]: "d_mode (file_enqueue fs nid t d) = d_mode d"
  by (auto simp: file_enqueue_def disk_simps split: write_out.splits chmod_out.splits)

lemma file_save_dir [simp]: "d_mode (file_save fs nid ts d) = d_mode d"
  by (auto simp: file_save_def disk_simps split: write_out.splits chmod_out.splits)

definition queue_mode :: "string \<Rightarrow> queue_disk \<Rightarrow> nat option" where
  "queue_mode nid d = map_option f_mode (d_files d (queue_name nid))"

lemma file_enqueue_mode:
  "d_mode d \<noteq> None \<Longrightarrow> fs_write fs = Written \<Longrightarrow> fs_chmod fs = Chmod_ok \<Longrightarrow>
   queue_mode nid (file_enqueue fs nid t d) = Some (6 * 64)"
  by (auto simp: file_enqueue_def queue_mode_def disk_simps)

lemma file_save_mode:
  "save_io fs d = Io_ok \<Longrightarrow> fs_chmod fs = Chmod_ok \<Longrightarrow> queue_mode nid (file_save fs nid ts d) = Some (6 * 64)"
  using temp_not_queue by (auto simp: file_save_def save_io_def queue_mode_def disk_simps split: if_splits)

section \<open>A broken append\<close>

lemma file_lines_no_newline: "CHR 0x0A \<notin> set l \<Longrightarrow> file_lines l = (if l = [] then [] else [l])"
  by (induction l) auto

lemma load_text: "CHR 0x0D \<notin> set s \<Longrightarrow> load_all Io_ok (Some s) = List.map_filter load_line (file_lines s)"
  by (simp add: load_all_def univ_newlines_id)

lemma load_line_Nil [simp]: "load_line [] = None"
  by (simp add: load_line_def py_strip_def)

text \<open>
  Text behind a complete queue: what was there is still read, and the rest is one more line.
\<close>

definition text_of :: "queue_file \<Rightarrow> string" where
  "text_of f = (case f of None \<Rightarrow> [] | Some s \<Rightarrow> s)"

lemma load_behind:
  assumes "queue_inv f" "CHR 0x0D \<notin> set l" "CHR 0x0A \<notin> set l"
  shows "load_all Io_ok (Some (text_of f @ l)) = load_all Io_ok f @ List.map_filter load_line [l]"
    and "load_all Io_ok (Some (text_of f @ l @ pending_line t)) =
      load_all Io_ok f @ List.map_filter load_line [l @ pending_line t]"
proof -
  let ?s = "text_of f"
  have nl: "?s = [] \<or> last ?s = CHR 0x0A" and cr: "CHR 0x0D \<notin> set ?s"
    and f: "load_all Io_ok f = List.map_filter load_line (file_lines ?s)"
    using assms(1) by (auto simp: queue_inv_def text_of_def load_text load_all_def [of _ None] List.map_filter_simps
        split: option.splits)
  show "load_all Io_ok (Some (?s @ l)) = load_all Io_ok f @ List.map_filter load_line [l]"
    using assms(2,3) cr
    by (simp add: load_text f file_lines_complete [OF nl] file_lines_no_newline map_filter_append List.map_filter_simps)
  have "CHR 0x0A \<notin> set (l @ dump file_opts (JObj (pending_to_dict t)))"
    using assms(3) printable_no_nl [OF printable_line] by (simp del: dump.simps)
  from file_lines_append [OF this, of "[]"] have "file_lines (l @ pending_line t) = [l @ pending_line t]"
    by (simp add: pending_line_def del: dump.simps)
  then show "load_all Io_ok (Some (?s @ l @ pending_line t)) =
      load_all Io_ok f @ List.map_filter load_line [l @ pending_line t]"
    using assms(2) cr pending_line_no_cr [of t]
    by (simp add: load_text f file_lines_complete [OF nl] map_filter_append)
qed

text \<open>
  An append that breaks off keeps every task that was there. What is left of the line counts
  if it is complete but for its newline; the next append continues the broken line, so its
  task is lost with it.
\<close>

lemma torn_append:
  assumes "queue_inv (queue_text nid d)" "d_mode d \<noteq> None" "fs_write fs = Torn k" "k < length (pending_line t)"
  defines "d' \<equiv> file_enqueue fs nid t d"
  shows "file_load Read_all nid d' = file_load Read_all nid d @ List.map_filter load_line [take k (pending_line t)]"
    and "d_mode d' \<noteq> None \<Longrightarrow> fs_write fs' = Written \<Longrightarrow>
      file_load Read_all nid (file_enqueue fs' nid u d') =
        file_load Read_all nid d @ List.map_filter load_line [take k (pending_line t) @ pending_line u]"
proof -
  let ?l = "take k (pending_line t)"
  have "?l = take k (dump file_opts (JObj (pending_to_dict t)))"
    using assms(4) by (simp add: pending_line_def del: dump.simps)
  then have l: "CHR 0x0D \<notin> set ?l" "CHR 0x0A \<notin> set ?l"
    using printable_no_nl [OF printable_line] by (metis in_set_takeD)+
  have t: "queue_text nid d' = Some (text_of (queue_text nid d) @ ?l)"
    using assms(2,3) by (auto simp: d'_def file_enqueue_text append_text_def text_of_def)
  show "file_load Read_all nid d' = file_load Read_all nid d @ List.map_filter load_line [?l]"
    using load_behind(1) [OF assms(1) l] by (simp add: file_load_all t)
  show "file_load Read_all nid (file_enqueue fs' nid u d') =
        file_load Read_all nid d @ List.map_filter load_line [?l @ pending_line u]"
    if "d_mode d' \<noteq> None" "fs_write fs' = Written"
    using load_behind(2) [OF assms(1) l, of u] that
    by (auto simp: file_load_all file_enqueue_text append_text_def enqueue_def t)
qed

section \<open>A run of the queue\<close>

datatype queue_call =
    Q_append fs_calls pending_task
  | Q_save fs_calls "pending_task list"

fun run_call :: "string \<Rightarrow> queue_call \<Rightarrow> queue_disk \<Rightarrow> queue_disk" where
  "run_call nid (Q_append fs t) d = file_enqueue fs nid t d"
| "run_call nid (Q_save fs ts) d = file_save fs nid ts d"

text \<open>The specification: a list of tasks, and what each call that succeeds does to it.\<close>

fun spec_call :: "queue_call \<Rightarrow> pending_task list \<Rightarrow> pending_task list" where
  "spec_call (Q_append fs t) ts = (if fs_write fs = Written then ts @ [t] else ts)"
| "spec_call (Q_save fs us) ts =
     (if fs_write fs = Written \<and> fs_chmod fs \<noteq> Chmod_fails \<and> fs_replace fs then us else ts)"

fun call_ok :: "queue_call \<Rightarrow> bool" where
  "call_ok (Q_append fs t) \<longleftrightarrow> wf_pending t \<and> (case fs_write fs of Torn k \<Rightarrow> False | _ \<Rightarrow> True)"
| "call_ok (Q_save fs ts) \<longleftrightarrow> list_all wf_pending ts"

lemma run_call_dir [simp]: "d_mode (run_call nid c d) = d_mode d"
  by (cases c) auto

lemma run_call_other: "take 12 m \<noteq> take 12 nid \<Longrightarrow> queue_text m (run_call nid c d) = queue_text m d"
  by (cases c) (auto simp: file_enqueue_other file_save_other)

lemma run_call_simulates:
  assumes "call_ok c" "d_mode d \<noteq> None" "queue_inv (queue_text nid d)"
  shows "queue_inv (queue_text nid (run_call nid c d)) \<and>
    file_load Read_all nid (run_call nid c d) = spec_call c (file_load Read_all nid d)"
proof (cases c)
  case (Q_append fs t)
  then show ?thesis
    using assms queue.load_append queue.inv_append
    by (auto simp: file_enqueue_text append_text_def file_load_all split: write_out.splits)
next
  case (Q_save fs ts)
  then show ?thesis
    using assms queue.load_save [of ts "queue_text nid d"] queue_inv_save
    by (auto simp: file_save_text save_io_def file_load_all save_all_def [of Io_fail])
qed

lemma run_calls_simulate:
  assumes "list_all call_ok cs" "d_mode d \<noteq> None" "queue_inv (queue_text nid d)"
  shows "file_load Read_all nid (fold (run_call nid) cs d) = fold spec_call cs (file_load Read_all nid d)"
  using assms by (induction cs arbitrary: d) (simp_all add: run_call_simulates)

lemma run_calls_other:
  "take 12 m \<noteq> take 12 nid \<Longrightarrow> queue_text m (fold (run_call nid) cs d) = queue_text m d"
  by (induction cs arbitrary: d) (simp_all add: run_call_other)

lemma run_calls_inv:
  "list_all call_ok cs \<Longrightarrow> d_mode d \<noteq> None \<Longrightarrow> queue_inv (queue_text nid d) \<Longrightarrow>
   queue_inv (queue_text nid (fold (run_call nid) cs d)) \<and> d_mode (fold (run_call nid) cs d) \<noteq> None"
  by (induction cs arbitrary: d) (simp_all add: run_call_simulates)

text \<open>
  C38: the queue keeps the tasks through failures of the file system. The specification is
  a list: an append that is written adds its task at the end, a save that goes through
  replaces the list, and any other outcome of a call leaves it alone. Once the constructor
  has returned, loading after any sequence of appends and saves gives the list of the
  specification, although a save may fail while writing, at \<open>chmod\<close> or at the rename
  (only appends that break off in the middle of the line are excluded from the sequence).
  If the next append does break off in the middle, every task is still read. The queues of
  nodes whose ids begin otherwise are never touched.
\<close>

theorem queue_on_disk:
  assumes "init_dir fs nid d0 = (d, True)" "queue_inv (queue_text nid d0)" "list_all call_ok cs"
  defines "e \<equiv> fold (run_call nid) cs d"
    and "ts \<equiv> fold spec_call cs (file_load Read_all nid d0)"
  shows "file_load Read_all nid e = ts \<and>
    (\<forall>fs' k t. fs_write fs' = Torn k \<and> k < length (pending_line t) \<longrightarrow>
      take (length ts) (file_load Read_all nid (file_enqueue fs' nid t e)) = ts) \<and>
    (\<forall>m. take 12 m \<noteq> take 12 nid \<longrightarrow> queue_text m e = queue_text m d0)"
proof -
  have d: "d_mode d \<noteq> None" "queue_inv (queue_text nid d)" "\<And>m. queue_text m d = queue_text m d0"
    using init_dir_made [of fs nid d0] init_dir_text [of _ fs nid d0] assms(1,2) by auto
  have l: "file_load Read_all nid e = ts"
    using run_calls_simulate [OF assms(3) d(1,2)] by (simp add: e_def ts_def file_load_all d(3))
  have "take (length ts) (file_load Read_all nid (file_enqueue fs' nid t e)) = ts"
    if "fs_write fs' = Torn k" "k < length (pending_line t)" for fs' k t
    using torn_append(1) [OF _ _ that] run_calls_inv [OF assms(3) d(1,2)] by (simp add: e_def l [unfolded e_def])
  then show ?thesis
    using l run_calls_other [of _ nid cs d] by (simp add: e_def d(3))
qed

definition demo_fs :: fs_calls where
  "demo_fs = \<lparr>fs_mkdir = True, fs_chmod_dir = Chmod_ok, fs_chmod = Chmod_ok, fs_write = Written, fs_replace = True,
     fs_dir_mode = 493, fs_new_mode = 420\<rparr>"

definition empty_disk :: queue_disk where
  "empty_disk = \<lparr>d_mode = None, d_files = (\<lambda>_. None)\<rparr>"

theorem queue_on_disk_witness:
  "file_load Read_all ''n'' (file_save (demo_fs\<lparr>fs_replace := False\<rparr>) ''n'' []
     (file_enqueue demo_fs ''n'' demo_pending (fst (init_dir demo_fs ''n'' empty_disk)))) = [demo_pending] \<and>
   take 1 (file_load Read_all ''n'' (file_enqueue (demo_fs\<lparr>fs_write := Torn 9\<rparr>) ''n'' demo_pending
     (file_enqueue demo_fs ''n'' demo_pending (fst (init_dir demo_fs ''n'' empty_disk))))) = [demo_pending]"
proof -
  let ?d = "fst (init_dir demo_fs ''n'' empty_disk)"
  have i: "init_dir demo_fs ''n'' empty_disk = (?d, True)"
    by (simp add: init_dir_def demo_fs_def empty_disk_def)
  have q: "queue_inv (queue_text ''n'' empty_disk)" and z: "file_load Read_all ''n'' empty_disk = []"
    by (simp_all add: empty_disk_def queue_text_def queue_inv_def file_load_all load_all_def)
  have "9 < length (pending_line demo_pending)"
    by code_simp
  with queue_on_disk [OF i q, of "[Q_append demo_fs demo_pending, Q_save (demo_fs\<lparr>fs_replace := False\<rparr>) []]"]
    queue_on_disk [OF i q, of "[Q_append demo_fs demo_pending]"] z
  show ?thesis by (simp add: demo_fs_def demo_pending_wf)
qed

text \<open>
  The task after a torn append: the line that lacks only its newline still holds its task,
  but the append after it runs into it, and then neither is read.
\<close>

lemma torn_append_costs_two:
  "let d = file_enqueue (demo_fs\<lparr>fs_write := Torn (length (pending_line demo_pending) - 1)\<rparr>) ''n'' demo_pending
             (fst (init_dir demo_fs ''n'' empty_disk))
   in file_load Read_all ''n'' d = [demo_pending] \<and> file_load Read_all ''n'' (file_enqueue demo_fs ''n'' demo_pending d) = []"
  by code_simp

end
