(* ===== verification/Handshake.thy ===== *)
theory Handshake
  imports Network
begin

text \<open>
  The handshake of two nodes, from the dial of one to the tables of both.
\<close>

section \<open>The handshake\<close>

lemmas adopt_fields [simp] = same_more [OF more_simps(4)]

lemma adopt_same [simp]:
  "self_id (adopt rid a i s) = self_id s" "has_handler (adopt rid a i s) = has_handler s"
  "jobs (adopt rid a i s) = jobs s" "map_of (peers (adopt rid a i s)) a = Some i"
  by (simp_all add: adopt_def Let_def)

lemma adopt_conn:
  assumes "i \<notin> snd ` set (peers s)" "conns s i = Some c"
  shows "conns (adopt rid a i s) i = Some (c\<lparr>c_addr := a\<rparr>)"
proof -
  have "k \<noteq> i" if "find_stale p (peers s) = Some (x, k)" for p x k
    using that assms(1) by (auto simp: find_stale_def rev_image_eqI dest!: find_SomeD)
  then show ?thesis
    using assms(2) by (auto simp: adopt_def Let_def remove_stale_peer_def split: option.split)
qed

text \<open>What a node shows the peer \<open>nid\<close>, and the acknowledgement it sends it.\<close>

definition shown_caps :: "string \<Rightarrow> node \<Rightarrow> json" where
  "shown_caps nid n = (if visibility (tracker n) = ''public'' \<or> JStr nid \<in> set (allowlist (tracker n))
     then caps (tracker n) else caps_json [] [] [])"

definition ack_for :: "env \<Rightarrow> string \<Rightarrow> string \<Rightarrow> node \<Rightarrow> pydict" where
  "ack_for E a nid n = hello_ack_msg (JStr (self_id n)) (shown_caps nid n) (ord_val E (local_interests (routing n)))
     (visibility (tracker n))
     (if visibility (tracker n) \<in> {''public'', ''private''}
      then Some (filter (\<lambda>p. py_get p ''addr'' (JStr []) \<noteq> Inr (JStr a)) (get_known_peers E n)) else None)"

lemma shown_caps: "get_caps_for_peer (JStr nid) (tracker n) = Inr (shown_caps nid n)"
  by (cases "visibility (tracker n) = ''public''") (simp_all add: get_caps_public get_caps_private shown_caps_def)

lemma on_hello_sends:
  assumes "dget m ''type'' JNull = JStr (mt HELLO)" "dget m ''node_id'' (JStr []) = JStr nid"
    "register_peer a (dget m ''caps'' (JObj [])) (dget m ''interests'' (JArr [])) (routing n) = (t, None)"
  shows "on_hello E a m n =
    (spawn FlushPending (remember_peer a (try_send a (ack_for E a nid (n\<lparr>routing := t\<rparr>)) (n\<lparr>routing := t\<rparr>))), None)"
  using assms shown_caps [of nid "n\<lparr>routing := t\<rparr>"]
  by (simp add: on_hello_def ack_for_def Let_def)

lemma ack_for_cong:
  "self_id n' = self_id n \<Longrightarrow> routing n' = routing n \<Longrightarrow> tracker n' = tracker n \<Longrightarrow> ack_for E a nid n' = ack_for E a nid n"
proof -
  assume n: "self_id n' = self_id n" "routing n' = routing n" "tracker n' = tracker n"
  then have "peer_entry E n' = peer_entry E n" by (intro ext) (simp add: peer_entry_def)
  then show ?thesis using n by (simp add: ack_for_def shown_caps_def get_known_peers_def)
qed

lemma hello_get:
  "dget (build_hello_msg E n) ''type'' d = JStr (mt HELLO)" "dget (build_hello_msg E n) ''node_id'' d = JStr (self_id n)"
  "dget (build_hello_msg E n) ''caps'' d = get_public_caps (tracker n)"
  "dget (build_hello_msg E n) ''interests'' d = JArr (ord_val E (local_interests (routing n)))"
  "build_hello_msg E n \<noteq> []"
  by (simp_all add: build_hello_msg_def hello_msg_def dget_def)

lemma ack_get:
  "dget (ack_for E a nid n) ''type'' d = JStr (mt HELLO_ACK)" "dget (ack_for E a nid n) ''node_id'' d = JStr (self_id n)"
  "dget (ack_for E a nid n) ''caps'' d = shown_caps nid n"
  "dget (ack_for E a nid n) ''interests'' d = JArr (ord_val E (local_interests (routing n)))"
  by (simp_all add: ack_for_def hello_ack_msg_def dget_def)

lemma peer_entry_addr [simp]: "py_get (peer_entry E n x) ''addr'' d = Inr (JStr x)"
  by (simp add: peer_entry_def dget_def split: prod.split)

lemma ack_known:
  "dget (ack_for E a nid n) ''known_peers'' JNull = JNull \<or>
   (\<exists>ps. dget (ack_for E a nid n) ''known_peers'' JNull = JArr ps \<and> list_all (\<lambda>p. \<exists>x. py_get p ''addr'' (JStr []) = Inr (JStr x)) ps)"
  by (auto simp: ack_for_def hello_ack_msg_def dget_def get_known_peers_def list_all_iff)

lemma spawn_known_ok:
  "list_all (\<lambda>p. \<exists>x. py_get p ''addr'' (JStr []) = Inr (JStr x)) ps \<Longrightarrow>
   \<exists>n'. spawn_known a h ps n = (n', None) \<and> conns n' = conns n \<and> peers n' = peers n"
proof (induction ps arbitrary: n)
  case (Cons p ps)
  then obtain x where x: "py_get p ''addr'' (JStr []) = Inr (JStr x)" by auto
  obtain n' where "spawn_known a h ps (if x \<noteq> [] \<and> x \<noteq> a \<and> x \<notin> set (peer_addresses n) then spawn (ConnectTo x h) n else n) = (n', None)"
    "conns n' = conns n" "peers n' = peers n"
    using Cons.IH [of "if x \<noteq> [] \<and> x \<noteq> a \<and> x \<notin> set (peer_addresses n) then spawn (ConnectTo x h) n else n"] Cons.prems
    by (auto simp: spawn_def split: if_splits)
  then show ?case using x by simp
qed simp

lemma register_caps:
  assumes "cap_names [] cj = (cs, None)" "py_set ints = Inr is"
  shows "\<exists>t. register_peer a cj ints t0 = (t, None) \<and> get_peer_caps a t = (cs, is)"
  using assms by (auto simp: register_peer_ok get_peer_caps_def dget_def)

text \<open>The node that answers takes the caller in.\<close>

lemma hello_taken:
  assumes "tcp_inv B" "has_handler B" "conns B j = Some d" "j \<notin> snd ` set (peers B)" "c_alive d" "\<not> c_broken d"
    and "take 12 rid \<noteq> take 12 (self_id B)" "a = take 12 rid @ ''@'' @ peername_addr pn"
    and "dget m ''type'' JNull = JStr (mt HELLO)" "dget m ''type'' (JStr []) = JStr (mt HELLO)"
      "dget m ''node_id'' (JStr []) = JStr rid"
    and "\<not> hello_flood (mono E) a (JStr (mt HELLO)) B" "fst (bump_count (mono E) a (msg_count B)) \<le> 100"
    and "register_peer a (dget m ''caps'' (JObj [])) (dget m ''interests'' (JArr [])) (routing B) = (t, None)"
    and "encode_frame (ack_for E a rid (B\<lparr>routing := t\<rparr>)) = Inr fr"
  shows "\<exists>B'. handle_incoming (handle_message E) pn j (Msg (JObj m)) B = B' \<and>
    map_of (peers B') a = Some j \<and> ReadLoop a j \<in> set (jobs B') \<and> routing B' = t \<and>
    conns B' j = Some (d\<lparr>c_addr := a, c_sent := c_sent d @ fr\<rparr>)"
proof -
  define n0 where "n0 = adopt rid a j B"
  define n where "n = count_message (mono E) a (JStr (mt HELLO)) n0"
  have n: "self_id n = self_id B" "routing n = routing B" "tracker n = tracker B" "peers n = peers n0" "conns n = conns n0"
    by (simp_all add: n_def n0_def count_message_def Let_def)
  have cn: "check_hello (self_id B) (JObj m) = Inr (Some rid)"
    using assms(7,9,11) by (simp add: check_hello_def)
  have hm: "handle_message E a (JObj m) n0 = on_hello E a m n"
    using assms(10,12,13) by (simp add: handle_message_JObj hello_flood_def n_def n0_def dispatch_def Let_def)
  have ak: "ack_for E a rid (n\<lparr>routing := t\<rparr>) = ack_for E a rid (B\<lparr>routing := t\<rparr>)"
    by (rule ack_for_cong) (simp_all add: n)
  have oh: "on_hello E a m n =
    (spawn FlushPending (remember_peer a (try_send a (ack_for E a rid (B\<lparr>routing := t\<rparr>)) (n\<lparr>routing := t\<rparr>))), None)"
    using on_hello_sends [OF assms(9,11), of a n t E] assms(14) n ak by simp
  have l: "live_peer (n\<lparr>routing := t\<rparr>) a j (d\<lparr>c_addr := a\<rparr>)"
    using adopt_conn [OF assms(4,3), of rid a] assms(5,6) by (simp add: live_peer_def n n0_def)
  define n2 where "n2 = try_send a (ack_for E a rid (B\<lparr>routing := t\<rparr>)) (n\<lparr>routing := t\<rparr>)"
  have n2: "conns n2 j = Some (d\<lparr>c_addr := a, c_sent := c_sent d @ fr\<rparr>)" "peers n2 = peers n" "routing n2 = t"
    using send_to_live [OF l, of "ack_for E a rid (B\<lparr>routing := t\<rparr>)"] assms(15) by (simp_all add: n2_def try_send_def)
  have "handle_incoming (handle_message E) pn j (Msg (JObj m)) B =
      spawn (ReadLoop a j) (spawn FlushPending (remember_peer a n2))"
    using cn hm oh assms(2,8) by (simp add: handle_incoming_def call_handler_def Let_def n0_def n2_def)
  then show ?thesis using n2 n by (simp add: spawn_def n0_def)
qed

text \<open>The node that dials takes the answer in.\<close>

lemma ack_taken:
  assumes "has_handler A" "conns A i = None" "tcp_inv A"
    and "dial_target (tcp_port A) ad = Inr (Some (host, p))" "CHR ''@'' \<notin> set host" "\<not> (p = tcp_port A \<and> host \<in> set loopback)"
    and "h \<noteq> []" "encode_frame h = Inr hf" "a = take 12 rid @ ''@'' @ canonical_addr host p"
    and "m = ack_for E' b nid B" "self_id B = rid"
    and "fst (bump_count (mono E) a (msg_count A)) \<le> 100"
    and "register_peer a (shown_caps nid B) (JArr (ord_val E' (local_interests (routing B)))) (routing A) = (t, None)"
  shows "\<exists>A'. connect_to_peer (handle_message E) now ad h (Opened i (Some (Msg (JObj m)))) A = (A', Inr (Some a)) \<and>
    map_of (peers A') a = Some i \<and> ReadLoop a i \<in> set (jobs A') \<and> routing A' = t \<and>
    conns A' i = Some ((new_conn (canonical_addr host p) now)\<lparr>c_addr := a, c_sent := hf\<rparr>)"
proof -
  let ?ca = "canonical_addr host p"
  have "CHR ''@'' \<notin> set (show_nat p)" by (auto dest: show_nat_digits simp: is_dig_def)
  then have "CHR ''@'' \<notin> set ?ca" using assms(5) by (simp add: canonical_addr_def)
  then have nc: "?ca \<notin> set (peer_addresses A)"
    using assms(3) by (auto simp: tcp_inv_def peer_addresses_def)
  define A1 where "A1 = A\<lparr>conns := (conns A)(i \<mapsto> (new_conn ?ca now)\<lparr>c_sent := hf\<rparr>)\<rparr>"
  have s: "send_conn i h (A\<lparr>conns := (conns A)(i \<mapsto> new_conn ?ca now)\<rparr>) = (A1, None)"
    using assms(8) by (simp add: send_conn_def conn_send_def new_conn_def A1_def)
  have c: "connect_to_peer (handle_message E) now ad h (Opened i (Some (Msg (JObj m)))) A =
      finish_connect (handle_message E) ?ca i (Some (Msg (JObj m))) A1"
    using assms(4,6,7) nc s by (auto simp: connect_to_peer_def Let_def)
  define A2 where "A2 = adopt rid a i A1"
  define n where "n = count_message (mono E) a (JStr (mt HELLO_ACK)) A2"
  have ni: "i \<notin> snd ` set (peers A1)" using assms(2,3) by (auto simp: A1_def tcp_inv_def)
  have n: "routing n = routing A" "peers n = peers A2" "conns n = conns A2"
    by (simp_all add: n_def A2_def A1_def count_message_def Let_def)
  have g: "dget m ''type'' d = JStr (mt HELLO_ACK)" "dget m ''node_id'' d = JStr rid" "dget m ''caps'' d = shown_caps nid B"
    "dget m ''interests'' d = JArr (ord_val E' (local_interests (routing B)))" for d
    using assms(11) by (simp_all add: assms(10) ack_get)
  have "handle_message E a (JObj m) A2 = on_hello_ack E a m n"
    using handle_counted [OF g(1), of E a A2] assms(12) by (simp add: dispatch_def n_def A2_def A1_def)
  moreover define n1 where "n1 = spawn FlushPending (remember_peer a (n\<lparr>routing := t\<rparr>))"
  have oh: "on_hello E a m n = (n1, None)"
    using assms(13) by (simp add: on_hello_def g n n1_def)
  moreover have "\<exists>n'. on_hello_ack E a m n = (n', None) \<and> conns n' = conns n \<and> peers n' = peers n \<and> routing n' = t"
  proof (cases "dget m ''known_peers'' JNull = JNull")
    case True
    then show ?thesis using oh by (simp add: on_hello_ack_def n1_def spawn_def)
  next
    case False
    then obtain ps where ps: "dget m ''known_peers'' JNull = JArr ps"
      "list_all (\<lambda>p. \<exists>x. py_get p ''addr'' (JStr []) = Inr (JStr x)) ps"
      using ack_known [of E' b nid B] assms(10) by auto
    obtain n' where n': "spawn_known a (build_hello_msg E n1) ps n1 = (n', None)" "conns n' = conns n1" "peers n' = peers n1"
      using spawn_known_ok [OF ps(2)] by blast
    have "routing n' = routing n1" using spawn_known_keeps(1) [of a "build_hello_msg E n1" ps n1] unfolding n'(1) by simp
    then have "routing n' = t" by (simp add: n1_def)
    then show ?thesis
      using oh ps(1) n' by (simp add: on_hello_ack_def Let_def n1_def spawn_def)
  qed
  ultimately obtain n' where n': "handle_message E a (JObj m) A2 = (n', None)" "conns n' = conns n" "peers n' = peers n" "routing n' = t"
    by auto
  have hh: "has_handler A2" using assms(1) by (simp add: A2_def A1_def)
  have "finish_connect (handle_message E) ?ca i (Some (Msg (JObj m))) A1 = (spawn (ReadLoop a i) n', Inr (Some a))"
    using n'(1) hh assms(9) by (simp add: finish_connect_def g call_handler_def Let_def A2_def)
  moreover have "conns n' i = Some ((new_conn ?ca now)\<lparr>c_addr := a, c_sent := hf\<rparr>)"
    using adopt_conn [OF ni, of "(new_conn ?ca now)\<lparr>c_sent := hf\<rparr>" rid a] n'(2) n(3) by (simp add: A2_def A1_def)
  ultimately show ?thesis using c n' n by (simp add: spawn_def A2_def)
qed

text \<open>
  C3: the handshake joins two nodes. A node dials another whose announced id is not its own:
  the HELLO it writes is read by the other, which takes the connection into its table, files
  the caller with the capabilities and interests it announced and writes one acknowledgement;
  the caller reads that and does the same with what the other shows it. Both have a read loop
  for the connection, under the id of the other.
\<close>

theorem handshake_connects:
  assumes "tcp_inv A" "has_handler A" "conns A i = None" "dial_target (tcp_port A) ad = Inr (Some (host, p))"
      "CHR ''@'' \<notin> set host" "\<not> (p = tcp_port A \<and> host \<in> set loopback)"
    and "tcp_inv B" "has_handler B" "conns B j = Some (new_conn pa past)" "j \<notin> snd ` set (peers B)"
    and "take 12 (self_id A) \<noteq> take 12 (self_id B)"
    and "aA = take 12 (self_id A) @ ''@'' @ peername_addr pn" "aB = take 12 (self_id B) @ ''@'' @ canonical_addr host p"
    and "hello = build_hello_msg E A" "wf_dict hello" "encode_frame hello = Inr hf"
    and "cap_names [] (get_public_caps (tracker A)) = (cA, None)"
      "py_set (JArr (ord_val E (local_interests (routing A)))) = Inr iA"
    and "\<not> hello_flood (mono E') aA (JStr (mt HELLO)) B" "fst (bump_count (mono E') aA (msg_count B)) \<le> 100"
    and "Br = B\<lparr>routing := fst (register_peer aA (get_public_caps (tracker A)) (JArr (ord_val E (local_interests (routing A)))) (routing B))\<rparr>"
    and "ack = ack_for E' aA (self_id A) Br" "wf_dict ack" "encode_frame ack = Inr af"
    and "cap_names [] (shown_caps (self_id A) B) = (cB, None)"
      "py_set (JArr (ord_val E' (local_interests (routing B)))) = Inr iB"
    and "fst (bump_count (mono F) aB (msg_count A)) \<le> 100"
  shows "\<exists>A' B' d.
    conn_recv now ((new_conn pa past)\<lparr>c_buf := hf\<rparr>) = (d, Msg (JObj hello)) \<and>
    handle_incoming (handle_message E') pn j (Msg (JObj hello)) (B\<lparr>conns := (conns B)(j \<mapsto> d)\<rparr>) = B' \<and>
    map_of (peers B') aA = Some j \<and> ReadLoop aA j \<in> set (jobs B') \<and> get_peer_caps aA (routing B') = (cA, iA) \<and>
    conns B' j = Some (d\<lparr>c_addr := aA, c_sent := af\<rparr>) \<and> read_frame eof af = Got (JObj ack) [] \<and>
    connect_to_peer (handle_message F) later ad hello (Opened i (Some (Msg (JObj ack)))) A = (A', Inr (Some aB)) \<and>
    map_of (peers A') aB = Some i \<and> ReadLoop aB i \<in> set (jobs A') \<and> get_peer_caps aB (routing A') = (cB, iB) \<and>
    conns A' i = Some ((new_conn (canonical_addr host p) later)\<lparr>c_addr := aB, c_sent := hf\<rparr>)"
proof -
  let ?d = "(new_conn pa past)\<lparr>c_last_read := now\<rparr>"
  let ?B = "B\<lparr>conns := (conns B)(j \<mapsto> ?d)\<rparr>"
  have g: "dget hello ''type'' d = JStr (mt HELLO)" "dget hello ''node_id'' d = JStr (self_id A)"
    "dget hello ''caps'' d = get_public_caps (tracker A)"
    "dget hello ''interests'' d = JArr (ord_val E (local_interests (routing A)))" "hello \<noteq> []" for d
    by (simp_all add: assms(14) hello_get)
  have r: "read_frame eof fr = Got (JObj m) []" if "wf_dict m" "encode_frame m = Inr fr" for eof fr m
    using read_encode_frame [OF that, of eof "[]"] by simp
  have rd: "conn_recv now ((new_conn pa past)\<lparr>c_buf := hf\<rparr>) = (?d, Msg (JObj hello))"
    using r [OF assms(15,16)] by (simp add: conn_recv_def new_conn_def)
  obtain tA where tA: "register_peer aA (get_public_caps (tracker A)) (JArr (ord_val E (local_interests (routing A)))) (routing B) = (tA, None)"
    "get_peer_caps aA tA = (cA, iA)"
    using register_caps [OF assms(17,18)] by blast
  have li: "local_interests tA = local_interests (routing B)"
    using tA(1) by (auto simp: register_peer_ok)
  have ak: "ack_for E' aA (self_id A) (?B\<lparr>routing := tA\<rparr>) = ack"
    unfolding assms(21,22) tA(1) by (rule ack_for_cong) simp_all
  have tB: "tcp_inv ?B" using assms(7,9) by (auto simp: tcp_inv_def)
  have fl: "\<not> hello_flood (mono E') aA (JStr (mt HELLO)) ?B" using assms(19) by (simp add: hello_flood_def)
  have "\<exists>B'. handle_incoming (handle_message E') pn j (Msg (JObj hello)) ?B = B' \<and>
    map_of (peers B') aA = Some j \<and> ReadLoop aA j \<in> set (jobs B') \<and> routing B' = tA \<and>
    conns B' j = Some (?d\<lparr>c_addr := aA, c_sent := c_sent ?d @ af\<rparr>)"
    by (rule hello_taken [OF tB _ _ _ _ _ _ assms(12) g(1,1,2) fl])
      (use assms(8,10,11,20,24) g tA(1) ak in \<open>simp_all add: new_conn_def\<close>)
  then obtain B' where B': "handle_incoming (handle_message E') pn j (Msg (JObj hello)) ?B = B'"
    "map_of (peers B') aA = Some j" "ReadLoop aA j \<in> set (jobs B')" "routing B' = tA"
    "conns B' j = Some (?d\<lparr>c_addr := aA, c_sent := af\<rparr>)"
    by (auto simp: new_conn_def)
  have br: "self_id Br = self_id B" "tracker Br = tracker B" "local_interests (routing Br) = local_interests (routing B)"
    "shown_caps (self_id A) Br = shown_caps (self_id A) B"
    using li tA(1) by (simp_all add: assms(21) shown_caps_def)
  obtain tB where tB: "register_peer aB (shown_caps (self_id A) Br) (JArr (ord_val E' (local_interests (routing Br)))) (routing A) = (tB, None)"
    "get_peer_caps aB tB = (cB, iB)"
    using register_caps [OF assms(25,26)] br by metis
  obtain A' where A': "connect_to_peer (handle_message F) later ad hello (Opened i (Some (Msg (JObj ack)))) A = (A', Inr (Some aB))"
    "map_of (peers A') aB = Some i" "ReadLoop aB i \<in> set (jobs A')" "routing A' = tB"
    "conns A' i = Some ((new_conn (canonical_addr host p) later)\<lparr>c_addr := aB, c_sent := hf\<rparr>)"
    using ack_taken [OF assms(2,3,1,4-6) g(5) assms(16,13,22) br(1) assms(27) tB(1), of later] by blast
  show ?thesis using rd B' tA(2) r [OF assms(23,24)] A' tB(2) by blast
qed

lemma demo_ids_differ:
  "take 12 (node_id_of toy_ed (identity_of toy_ed [])) \<noteq> take 12 (node_id_of toy_ed (identity_of toy_ed [1]))"
proof -
  have "replicate 32 (0::byte) = 0 # 0 # 0 # replicate 29 0" "replicate 31 (0::byte) = 0 # 0 # replicate 29 0"
    by (simp_all add: eval_nat_numeral)
  then show ?thesis by (simp add: node_id_of_def identity_of_def pubkey_to_id_def toy_ed_def b64_char_def take_Cons')
qed

lemma demo_hello: "wf_dict (build_hello_msg demo_env demo_node)" "\<exists>hf. encode_frame (build_hello_msg demo_env demo_node) = Inr hf"
proof -
  have hello: "build_hello_msg demo_env demo_node = hello_msg (JStr (self_id demo_node)) (caps_json [] [] []) [] ''public'' ''0.5.1''"
    by (simp add: build_hello_msg_def get_public_caps_def new_tracker_def caps_def empty_table_def)
      (simp add: demo_node_def init_node_def Let_def)
  show wf: "wf_dict (build_hello_msg demo_env demo_node)"
    unfolding hello by (simp add: wf_dict_def hello_msg_def caps_json_def)
  show "\<exists>hf. encode_frame (build_hello_msg demo_env demo_node) = Inr hf"
    by (rule frame_fits [OF wf]) (simp only: hello, simp add: hello_msg_def caps_json_def mt.simps MAX_PAYLOAD_SIZE_def)
qed

theorem handshake_connects_witness:
  "\<exists>A' B' hello ack B0 aA aB.
     handle_incoming (handle_message demo_env) (Some (''g'', 9)) 1 (Msg (JObj hello)) B0 = B' \<and>
     map_of (peers B') aA = Some 1 \<and> get_peer_caps aA (routing B') = ([], []) \<and>
     connect_to_peer (handle_message demo_env) 0 ''g:9'' hello (Opened 1 (Some (Msg (JObj ack)))) demo_node = (A', Inr (Some aB)) \<and>
     map_of (peers A') aB = Some 1 \<and> get_peer_caps aB (routing A') = ([], [])"
proof -
  let ?A = demo_node
  let ?B = "demo_node\<lparr>ident := identity_of toy_ed [1], self_id := node_id_of toy_ed (identity_of toy_ed [1]),
    conns := (conns demo_node)(1 \<mapsto> new_conn ''g:9'' 0)\<rparr>"
  let ?aA = "take 12 (self_id ?A) @ ''@'' @ peername_addr (Some (''g'', 9))"
  let ?aB = "take 12 (self_id ?B) @ ''@'' @ canonical_addr ''g'' 9"
  define t where "t = fst (register_peer ?aA (get_public_caps (tracker ?A)) (JArr (ord_val demo_env (local_interests (routing ?A)))) (routing ?B))"
  have p9: "show_nat 9 = ''9''" by code_simp
  have dt: "dial_target (tcp_port ?A) ''g:9'' = Inr (Some (''g'', 9))" by code_simp
  have caps: "cap_names [] (get_public_caps (tracker ?A)) = ([], None)" "cap_names [] (shown_caps (self_id ?A) ?B) = ([], None)"
    "py_set (JArr (ord_val demo_env (local_interests (routing ?A)))) = Inr []"
    "py_set (JArr (ord_val demo_env (local_interests (routing ?B)))) = Inr []"
    by (simp_all add: get_public_caps_def shown_caps_def new_tracker_def caps_def caps_json_def cap_names_def dget_def
        empty_table_def py_set_def set_of_def)
  have t: "known_peers t = [?aA]" "local_interests t = []" "get_peer_caps ?aA t = ([], [])"
    by (simp_all add: t_def register_peer_def caps(1) caps(3) Let_def known_peers_def empty_table_def get_peer_caps_def dget_def)
      (simp_all add: register_peer_def get_public_caps_def new_tracker_def caps_def caps_json_def cap_names_def dget_def
        empty_table_def py_set_def set_of_def)
  let ?Br = "?B\<lparr>routing := t\<rparr>"
  have ack: "ack_for demo_env ?aA (self_id ?A) ?Br = hello_ack_msg (JStr (self_id ?B)) (caps_json [] [] []) [] ''public'' (Some [])"
    using t by (simp add: ack_for_def shown_caps_def caps_def new_tracker_def get_known_peers_def)
  have wf: "wf_dict (ack_for demo_env ?aA (self_id ?A) ?Br)"
    unfolding ack by (simp add: wf_dict_def hello_ack_msg_def caps_json_def)
  obtain hf where hf: "encode_frame (build_hello_msg demo_env ?A) = Inr hf" using demo_hello(2) ..
  have "\<exists>fr. encode_frame (ack_for demo_env ?aA (self_id ?A) ?Br) = Inr fr"
    by (rule frame_fits [OF wf])
      (simp only: ack, simp add: hello_ack_msg_def caps_json_def mt.simps MAX_PAYLOAD_SIZE_def)
  then obtain af where af: "encode_frame (ack_for demo_env ?aA (self_id ?A) ?Br) = Inr af" ..
  have st: "has_handler ?A" "conns ?A 1 = None" "CHR ''@'' \<notin> set ''g''" "\<not> (9 = tcp_port ?A \<and> ''g'' \<in> set loopback)"
    "has_handler ?B" "conns ?B 1 = Some (new_conn ''g:9'' 0)" "1 \<notin> snd ` set (peers ?B)"
    "\<not> hello_flood (mono demo_env) ?aA (JStr (mt HELLO)) ?B" "fst (bump_count (mono demo_env) ?aA (msg_count ?B)) \<le> 100"
    "fst (bump_count (mono demo_env) ?aB (msg_count ?A)) \<le> 100"
    by (simp_all add: loopback_def hello_flood_def bump_count_def dget_def)
  have tB: "tcp_inv ?B" by (auto simp: tcp_inv_def)
  have ids: "take 12 (self_id ?A) \<noteq> take 12 (self_id ?B)" using demo_ids_differ by simp
  show ?thesis
    using handshake_connects [where A = ?A and B = ?B and i = 1 and j = 1 and E = demo_env and E' = demo_env and F = demo_env
        and aA = ?aA and aB = ?aB and hello = "build_hello_msg demo_env ?A" and Br = ?Br
        and ack = "ack_for demo_env ?aA (self_id ?A) ?Br" and pa = "''g:9''" and past = 0 and now = 0 and later = 0
        and pn = "Some (''g'', 9)" and host = "''g''" and p = 9 and ad = "''g:9''" and hf = hf and af = af
        and cA = "[]" and cB = "[]" and iA = "[]" and iB = "[]",
      OF demo_node_inv(1) st(1,2) dt st(3,4) tB st(5-7) ids refl refl refl demo_hello(1) hf caps(1,3) st(8,9)
        _ refl wf af caps(2,4) st(10), folded t_def, OF refl]
    by metis
qed

end
