(* ===== verification/Lan_Join.thy ===== *)
theory Lan_Join
  imports Handshake
begin

text \<open>
  From an announcement on the local network to a connection: the discovery manager of one
  node, the datagram, the background task of the other, and its dial.
\<close>

section \<open>Joining by announcement\<close>

lemma lan_known_str:
  "lan_known (JStr s) pa as = Inr (list_ex (\<lambda>a. ends_with a pa \<or> starts_with a (take 12 s @ ''@'')) as)"
  by (induction as) auto

text \<open>
  C21: an announcement on the local network connects two strangers, once. A node with discovery
  running announces itself and ignores its own datagram; a node that hears it and has no
  connection to that id or address dials the address the datagram came from, and the answer
  puts the peer in its table with its capabilities and a read loop; any further announcement
  of that peer changes nothing.
\<close>

theorem lan_announcement_connects:
  assumes "discovery B = Some lb" "lan_inv lb" "lan_id lb = self_id B" "\<not> lan_shutdown lb" "lan_port lb = p" "p \<noteq> 0"
      "self_id B \<noteq> []" "multicast E'"
    and "discovery A = Some la" "lan_transport la = Transport_open" "lan_id la = self_id A"
      "take 12 (self_id A) \<noteq> take 12 (self_id B)" "ad = host @ '':'' @ show_nat p"
    and "tcp_inv A" "has_handler A" "conns A i = None" "CHR ''@'' \<notin> set host" "\<not> (p = tcp_port A \<and> host \<in> set loopback)"
      "list_all (\<lambda>a. \<not> ends_with a ad \<and> \<not> starts_with a (take 12 (self_id B) @ ''@'')) (peer_addresses A)"
    and "encode_frame (build_hello_msg E A) = Inr hf" "aB = take 12 (self_id B) @ ''@'' @ ad" "ack = ack_for E' aA (self_id A) B"
      "fst (bump_count (mono E) aB (msg_count A)) \<le> 100"
      "register_peer aB (shown_caps (self_id A) B) (JArr (ord_val E' (local_interests (routing B)))) (routing A) = (t, None)"
  shows "\<exists>B' bytes A1 A2. node_announce_round E' B = B' \<and> discovery B' = Some (lb\<lparr>lan_sent := lan_sent lb @ [bytes]\<rparr>) \<and>
    node_datagram F bytes host B' = B' \<and>
    node_datagram E bytes host A = A1 \<and> Discovered (JStr (self_id B)) ad \<in> set (jobs A1) \<and>
    on_discovered_peer E (Opened i (Some (Msg (JObj ack)))) (JStr (self_id B)) ad A1 = A2 \<and>
    map_of (peers A2) aB = Some i \<and> ReadLoop aB i \<in> set (jobs A2) \<and> routing A2 = t \<and>
    (\<forall>net. on_discovered_peer E net (JStr (self_id B)) ad A2 = A2)"
proof -
  let ?bytes = "announcement (self_id B) p"
  let ?A1 = "spawn (Discovered (JStr (self_id B)) ad) A"
  have b: "node_announce_round E' B = B\<lparr>discovery := Some (lb\<lparr>lan_sent := lan_sent lb @ [?bytes]\<rparr>)\<rparr>"
    using assms(1,3-5,8) by (simp add: node_announce_round_def lan_round_def lan_announce_def)
  have own: "node_datagram F ?bytes host (node_announce_round E' B) = node_announce_round E' B"
    using assms(3,6,7) announcement_received [of "self_id B" p "repr_text F" "self_id B" host]
    by (simp add: b node_datagram_def lan_receive_def)
  have a1: "node_datagram E ?bytes host A = ?A1"
    using assms(6,7,9-13) announcement_received [of "self_id B" p "repr_text E" "self_id A" host]
    by (simp add: node_datagram_def lan_receive_def)
  have A1: "has_handler ?A1" "conns ?A1 i = None" "tcp_inv ?A1" "peers ?A1 = peers A" "tcp_port ?A1 = tcp_port A"
    using assms(14-16) by (simp_all add: spawn_def tcp_inv_def)
  have hello: "build_hello_msg E ?A1 = build_hello_msg E A" by (simp add: build_hello_msg_def spawn_def)
  have dt: "dial_target (tcp_port ?A1) ad = Inr (Some (host, p))"
    using dial_target_announced [OF assms(17)] assms(13) by simp
  have "\<exists>A2. connect_to_peer (handle_message E) (mono E) ad (build_hello_msg E A) (Opened i (Some (Msg (JObj ack)))) ?A1 = (A2, Inr (Some aB)) \<and>
    map_of (peers A2) aB = Some i \<and> ReadLoop aB i \<in> set (jobs A2) \<and> routing A2 = t \<and>
    conns A2 i = Some ((new_conn (canonical_addr host p) (mono E))\<lparr>c_addr := aB, c_sent := hf\<rparr>)"
    by (rule ack_taken [OF A1(1-3) dt assms(17) _ hello_get(5) assms(20) _ assms(22) refl])
      (use assms A1(5) in \<open>simp_all add: canonical_addr_def\<close>)
  then obtain A2 where A2: "connect_to_peer (handle_message E) (mono E) ad (build_hello_msg E A) (Opened i (Some (Msg (JObj ack)))) ?A1 = (A2, Inr (Some aB))"
    "map_of (peers A2) aB = Some i" "ReadLoop aB i \<in> set (jobs A2)" "routing A2 = t"
    by blast
  have disc: "on_discovered_peer E (Opened i (Some (Msg (JObj ack)))) (JStr (self_id B)) ad ?A1 = A2"
    using assms(19) A2(1) A1(4) hello
    by (simp add: on_discovered_peer_def lan_known_str dial_def peer_addresses_def list_all_iff list_ex_iff)
  have "aB \<in> set (peer_addresses A2)" using A2(2) by (force simp: peer_addresses_def dest: map_of_SomeD)
  then have "lan_known (JStr (self_id B)) ad (peer_addresses A2) = Inr True"
    using assms(21) starts_with_append [of "take 12 (self_id B) @ ''@''" ad] by (auto simp: lan_known_str list_ex_iff)
  then have again: "on_discovered_peer E net (JStr (self_id B)) ad A2 = A2" for net
    by (simp add: on_discovered_peer_def)
  have "discovery (node_announce_round E' B) = Some (lb\<lparr>lan_sent := lan_sent lb @ [?bytes]\<rparr>)" by (simp add: b)
  moreover have "Discovered (JStr (self_id B)) ad \<in> set (jobs ?A1)" by (simp add: spawn_def)
  ultimately show ?thesis using own a1 disc A2(2-4) again by blast
qed

theorem lan_announcement_connects_witness:
  "\<exists>A B bytes A1 A2 net aB. discovery (node_announce_round demo_env B) \<noteq> None \<and>
    node_datagram demo_env bytes ''g'' A = A1 \<and> Discovered (JStr (self_id B)) ''g:9'' \<in> set (jobs A1) \<and>
    on_discovered_peer demo_env net (JStr (self_id B)) ''g:9'' A1 = A2 \<and> map_of (peers A2) aB = Some 1 \<and>
    on_discovered_peer demo_env net (JStr (self_id B)) ''g:9'' A2 = A2"
proof -
  let ?idB = "node_id_of toy_ed (identity_of toy_ed [1])"
  let ?lb = "lan_start True (new_lan ?idB 9)" and ?la = "lan_start True (new_lan (self_id demo_node) 7878)"
  let ?A = "demo_node\<lparr>discovery := Some ?la\<rparr>"
  let ?B = "demo_node\<lparr>self_id := ?idB, ident := identity_of toy_ed [1], discovery := Some ?lb\<rparr>"
  let ?ad = "''g:9''"
  let ?aB = "take 12 (self_id ?B) @ ''@'' @ ?ad"
  have ids: "take 12 (self_id ?A) \<noteq> take 12 (self_id ?B)" using demo_ids_differ by simp
  obtain hf where "encode_frame (build_hello_msg demo_env demo_node) = Inr hf" using demo_hello by blast
  then have hf: "encode_frame (build_hello_msg demo_env ?A) = Inr hf" by (simp add: build_hello_msg_def)
  have l: "lan_inv ?lb" "lan_id ?lb = self_id ?B" "\<not> lan_shutdown ?lb" "lan_port ?lb = 9" "lan_id ?la = self_id ?A"
    "lan_transport ?la = Transport_open"
    by (auto simp: lan_start_def new_lan_def lan_inv_def)
  have "cap_names [] (shown_caps (self_id ?A) ?B) = ([], None)"
    by (simp add: shown_caps_def new_tracker_def caps_def caps_json_def cap_names_def dget_def)
  then obtain t where t: "register_peer ?aB (shown_caps (self_id ?A) ?B) (JArr (ord_val demo_env (local_interests (routing ?B)))) (routing ?A) = (t, None)"
    using register_caps [of "shown_caps (self_id ?A) ?B" "[]" "JArr []" "[]"] by (auto simp: empty_table_def py_set_def set_of_def)
  have ad: "?ad = ''g'' @ '':'' @ show_nat 9" by code_simp
  have nb: "self_id ?B \<noteq> []" by simp
  have st: "tcp_inv ?A" "has_handler ?A" "conns ?A 1 = None" "CHR ''@'' \<notin> set ''g''" "\<not> (9 = tcp_port ?A \<and> ''g'' \<in> set loopback)"
    "fst (bump_count (mono demo_env) ?aB (msg_count ?A)) \<le> 100"
    using demo_node_inv(1) by (simp_all add: tcp_inv_def loopback_def bump_count_def dget_def)
  have d: "discovery ?B = Some ?lb" "(9::nat) \<noteq> 0" "multicast demo_env" "discovery ?A = Some ?la"
    "Some x \<noteq> (None :: lan option)" for x
    by simp_all
  have len: "length (take 12 ?idB) = 12" by simp
  have "\<not> starts_with ''abc@h:1'' (take 12 ?idB @ ''@'')" using len by (auto simp: starts_with_def)
  then have no: "list_all (\<lambda>a. \<not> ends_with a ?ad \<and> \<not> starts_with a (take 12 (self_id ?B) @ ''@'')) (peer_addresses ?A)"
    by (simp add: peer_addresses_def ends_with_def)
  show ?thesis
    using lan_announcement_connects [where A = ?A and B = ?B and lb = ?lb and la = ?la and E = demo_env and E' = demo_env and F = demo_env
        and i = 1 and host = "''g''" and p = 9 and aA = "''a''",
      OF d(1) l(1-4) d(2) nb d(3,4) l(6,5) ids ad st(1-5) no hf refl refl st(6) t] d(5)
    by metis
qed

end
