(* ===== verification/Discovery.thy ===== *)
theory Discovery
  imports Network
begin

text \<open>
  Discovery of peers through the network: the query of one node, the answer of another, and
  the list the first makes of it.
\<close>

section \<open>Discovery over one hop\<close>

text \<open>Entries of the merged table carry the address they are filed under.\<close>

definition filed :: "(json \<times> pydict) list \<Rightarrow> bool" where
  "filed d \<longleftrightarrow> (\<forall>(k, e) \<in> set d. dget e ''addr'' JNull = k)"

lemma filed_dset: "filed d \<Longrightarrow> dget e ''addr'' JNull = k \<Longrightarrow> filed (dset k e d)"
  by (induction d) (auto simp: filed_def)

lemma merge_found_ok:
  assumes "filed d" "py_get x ''addr'' (JStr []) = Inr (JStr a)" "a \<noteq> []"
  shows "\<exists>d'. merge_found d x = Inr d' \<and> filed d' \<and> set (dkeys d) \<union> {JStr a} = set (dkeys d')"
proof (cases "JStr a \<in> set (dkeys d)")
  case True
  then show ?thesis using assms by (intro exI [of _ d]) (auto simp: merge_found_def)
next
  case False
  obtain kvs where "x = JObj kvs" using assms(2) by (cases x) auto
  then show ?thesis
    using assms False by (auto simp: merge_found_def dget_def intro!: filed_dset)
qed

lemma merge_all_ok:
  "filed d \<Longrightarrow> \<forall>x \<in> set xs. \<exists>a. py_get x ''addr'' (JStr []) = Inr (JStr a) \<and> a \<noteq> [] \<Longrightarrow>
   \<exists>d'. merge_all_found d xs = Inr d' \<and> filed d' \<and>
     set (dkeys d') = set (dkeys d) \<union> {k. \<exists>x \<in> set xs. py_get x ''addr'' (JStr []) = Inr k}"
proof (induction xs arbitrary: d)
  case (Cons x xs)
  obtain a where a: "py_get x ''addr'' (JStr []) = Inr (JStr a)" "a \<noteq> []" using Cons.prems(2) by auto
  obtain d1 where d1: "merge_found d x = Inr d1" "filed d1" "set (dkeys d) \<union> {JStr a} = set (dkeys d1)"
    using merge_found_ok [OF Cons.prems(1) a] by blast
  obtain d' where "merge_all_found d1 xs = Inr d'" "filed d'"
    "set (dkeys d') = set (dkeys d1) \<union> {k. \<exists>x \<in> set xs. py_get x ''addr'' (JStr []) = Inr k}"
    using Cons.IH [OF d1(2)] Cons.prems(2) by auto
  moreover have "{k. \<exists>y \<in> set (x # xs). py_get y ''addr'' (JStr []) = Inr k} =
      insert (JStr a) {k. \<exists>y \<in> set xs. py_get y ''addr'' (JStr []) = Inr k}"
    using a(1) by auto
  moreover have "set (dkeys d1) = insert (JStr a) (set (dkeys d))" using d1(3) by simp
  ultimately show ?case using d1(1) by simp
qed simp

lemma dict_update_get:
  "distinct (dkeys new) \<Longrightarrow> dget (dict_update old new) k d = (case map_of new k of Some v \<Rightarrow> v | None \<Rightarrow> dget old k d)"
proof (induction new arbitrary: old)
  case (Cons x new)
  obtain k' v where x: "x = (k', v)" by fastforce
  then have "map_of new k' = None" using Cons.prems by (auto simp: map_of_eq_None_iff)
  then show ?case using Cons x by (auto simp: dict_update_def dget_dset split: option.split)
qed (simp add: dict_update_def)

definition entry_ok :: "string \<times> pydict \<Rightarrow> bool" where
  "entry_ok e \<longleftrightarrow> distinct (dkeys (snd e)) \<and> map_of (snd e) ''addr'' = Some (JStr (fst e))"

lemma merge_local_ok:
  assumes "filed d" "entry_ok e"
  shows "filed (merge_local d e) \<and> set (dkeys (merge_local d e)) = insert (JStr (fst e)) (set (dkeys d))"
proof -
  obtain a b where e: "e = (a, b)" by fastforce
  have g: "dget b ''addr'' JNull = JStr a" "dget (dict_update old b) ''addr'' JNull = JStr a" for old
    using assms(2) by (simp_all add: e entry_ok_def dget_def dict_update_get [unfolded dget_def])
  show ?thesis
    using filed_dset [OF assms(1) g(1)] filed_dset [OF assms(1) g(2)]
    by (auto simp: merge_local_def e split: option.split)
qed

lemma merge_locals_ok:
  "filed d \<Longrightarrow> list_all entry_ok es \<Longrightarrow>
   filed (foldl merge_local d es) \<and> set (dkeys (foldl merge_local d es)) = set (dkeys d) \<union> (\<lambda>e. JStr (fst e)) ` set es"
proof (induction es arbitrary: d)
  case (Cons e es)
  then show ?case using merge_local_ok [of d e] by auto
qed simp

lemma entry_ok_dset:
  "list_all entry_ok r \<Longrightarrow> entry_ok (a, e) \<Longrightarrow> list_all entry_ok (dset a e r)"
  by (induction r) (auto simp: entry_ok_def)

lemma local_peers_ok: "list_all entry_ok (local_peers E n)"
proof -
  have tcp: "list_all entry_ok (foldl (\<lambda>r a. dset a [(''addr'', JStr a), (''connected'', JBool True), (''caps'', JArr []),
                             (''via'', JStr ''tcp'')] r) r as)" if "list_all entry_ok r" for r as
    using that
  proof (induction as arbitrary: r)
    case (Cons a as)
    have "entry_ok (a, [(''addr'', JStr a), (''connected'', JBool True), (''caps'', JArr []), (''via'', JStr ''tcp'')])"
      by (simp add: entry_ok_def)
    from Cons.IH [OF entry_ok_dset [OF Cons.prems this]] show ?case by simp
  qed simp
  define f where "f r a = (let cs = JArr (ord_val E (fst (get_peer_caps a (routing n)))) in
         (case map_of r a of
            Some d \<Rightarrow> dset a (dset ''via'' (JStr ''both'') (dset ''caps'' cs d)) r
          | None \<Rightarrow> dset a [(''addr'', JStr a), (''connected'', JBool False), (''caps'', cs),
                            (''via'', JStr ''routing'')] r))" for r :: "(string \<times> pydict) list" and a
  have f: "list_all entry_ok (f r a)" if "list_all entry_ok r" for r a
  proof (cases "map_of r a")
    case None
    then show ?thesis using that by (auto simp: f_def entry_ok_def intro!: entry_ok_dset)
  next
    case (Some d)
    then have "entry_ok (a, d)" using that by (auto simp: list_all_iff dest: map_of_SomeD)
    then show ?thesis using that Some by (auto simp: f_def entry_ok_def Let_def intro!: entry_ok_dset)
  qed
  have "list_all entry_ok (foldl f r as)" if "list_all entry_ok r" for r as
    using that f by (induction as arbitrary: r) auto
  from this [OF tcp, of "[]"] show ?thesis unfolding local_peers_def f_def [abs_def] by simp
qed

lemma discover_finish_ok:
  assumes "\<forall>x \<in> set xs. \<exists>a. py_get x ''addr'' (JStr []) = Inr (JStr a) \<and> a \<noteq> []"
    "x \<in> set xs" "py_get x ''addr'' (JStr []) = Inr k"
  shows "\<exists>ds. discover_finish E xs n = Inr ds \<and> (\<exists>d \<in> set ds. py_get d ''addr'' JNull = Inr k)"
proof -
  obtain d where d: "merge_all_found [] xs = Inr d" "filed d"
    "set (dkeys d) = {k. \<exists>x \<in> set xs. py_get x ''addr'' (JStr []) = Inr k}"
    using merge_all_ok [of "[]" xs] assms(1) by (auto simp: filed_def)
  let ?r = "foldl merge_local d (local_peers E n)"
  have r: "filed ?r" "set (dkeys d) \<subseteq> set (dkeys ?r)"
    using merge_locals_ok [OF d(2) local_peers_ok] by auto
  have "k \<in> set (dkeys ?r)" using d(3) r(2) assms(2,3) by auto
  then obtain e where "(k, e) \<in> set ?r" by auto
  then have "JObj e \<in> set (map (\<lambda>kv. JObj (snd kv)) ?r)" "py_get (JObj e) ''addr'' JNull = Inr k"
    using r(1) by (force simp: filed_def)+
  then show ?thesis using d(1) by (auto simp: discover_finish_def)
qed

lemma query_get:
  "py_truthy og \<Longrightarrow> dget (query_msg cap q ttl og) ''origin'' d = og"
  "dget (query_msg cap q ttl og) ''type'' d = JStr (mt QUERY)" "dget (query_msg cap q ttl og) ''id'' d = q"
  "dget (query_msg cap q ttl og) ''capability'' d = cap"
  by (simp_all add: query_msg_def dget_def)

lemma resp_get:
  "dget (query_resp_msg q ns) ''type'' d = JStr (mt QUERY_RESP)" "dget (query_resp_msg q ns) ''id'' d = q"
  "dget (query_resp_msg q ns) ''nodes'' d = JArr ns"
  by (simp_all add: query_resp_msg_def dget_def)

lemma query_nodes_addr:
  assumes "\<forall>x \<in> set (known_peers (routing n)). x \<noteq> []" "a \<noteq> []"
  shows "\<forall>x \<in> set (query_nodes E a cap n). \<exists>y. py_get x ''addr'' (JStr []) = Inr (JStr y) \<and> y \<noteq> []"
  using assms by (auto simp: query_nodes_def dget_def split: if_splits)

text \<open>
  C20: discovery reaches the peers of peers. A node that looks for peers asks every
  connected node; a node that answers names all its other peers, and each of them is in the
  list the discovery returns, under its own address.
\<close>

theorem discovery_finds_peers:
  assumes "tcp_inv A" "quiet_peer A a i c" "(a, i) \<in> set (peers A)" "quiet_peer B b j d" "b \<noteq> []"
    and "self_id A \<noteq> []" "self_id A \<noteq> self_id B"
    and "encode_frame (query_msg (JStr []) (JStr qid) (JInt 3) (JStr (self_id A))) = Inr fr"
    and "map_of (seen_queries B) (JStr qid) = None" "fst (bump_count (mono E') b (msg_count B)) \<le> 100"
    and "x \<in> set (known_peers (routing B))" "x \<noteq> b" "\<forall>y \<in> set (known_peers (routing B)). y \<noteq> []"
    and "wf_dict (query_resp_msg (JStr qid) (query_nodes E' b (JStr []) B))"
      "encode_frame (query_resp_msg (JStr qid) (query_nodes E' b (JStr []) B)) = Inr fr'"
    and "fst (bump_count (mono E2) a (msg_count A)) \<le> 100"
  shows "\<exists>B1 A2 A3 ds. conns (discover_start qid A) i = Some (c\<lparr>c_sent := c_sent c @ fr\<rparr>) \<and>
    read_loop_step (handle_message E') now b j (arrive fr j B) = (B1, True) \<and>
    conns B1 j = Some (d\<lparr>c_last_read := now, c_sent := c_sent d @ fr'\<rparr>) \<and>
    read_loop_step (handle_message E2) now2 a i (arrive fr' i (discover_start qid A)) = (A2, True) \<and>
    discover_resume E3 False qid A2 = (A3, Some (Inr ds)) \<and> (\<exists>e \<in> set ds. py_get e ''addr'' JNull = Inr (JStr x))"
proof -
  let ?q = "query_msg (JStr []) (JStr qid) (JInt 3) (JStr (self_id A))"
  let ?A0 = "A\<lparr>pending_queries := dset qid ([], False) (pending_queries A)\<rparr>"
  define A1 where "A1 = discover_start qid A"
  have tr: "py_truthy (JStr (self_id A))" using assms(6) by simp
  have A1: "A1 = broadcast ?q [] ?A0" by (simp add: A1_def discover_start_def)
  have iv: "tcp_inv ?A0" using assms(1) by (simp add: tcp_inv_def)
  have c1: "conns A1 i = Some (c\<lparr>c_sent := c_sent c @ fr\<rparr>)" "peers A1 = peers A"
    using broadcast_conns [OF iv, of a i c ?q fr "[]"] assms(2,3,8)
    by (simp_all add: A1 quiet_peer_def live_peer_def)
  \<comment> \<open>the query at \<open>B\<close>\<close>
  let ?d = "d\<lparr>c_last_read := now\<rparr>"
  define n where "n = count_message (mono E') b (JStr (mt QUERY)) (B\<lparr>conns := (conns B)(j \<mapsto> ?d)\<rparr>)"
  have n: "seen_queries n = seen_queries B" "self_id n = self_id B" "routing n = routing B" "tracker n = tracker B"
    "conns n = (conns B)(j \<mapsto> ?d)" "peers n = peers B"
    by (simp_all add: n_def count_message_def Let_def)
  have qn: "query_nodes E' b (JStr []) n = query_nodes E' b (JStr []) B" by (simp add: query_nodes_def n)
  have ne: "query_nodes E' b (JStr []) B \<noteq> []"
    using assms(11,12) by (auto simp: query_nodes_def filter_empty_conv)
  have l: "live_peer n b j ?d" using assms(4) by (simp add: quiet_peer_def live_peer_def n)
  obtain n' where n': "on_query E' b ?q n = (n', None)" "conns n' = (conns n)(j \<mapsto> ?d\<lparr>c_sent := c_sent ?d @ fr'\<rparr>)"
    using answers_query [of ?q "JStr qid" n E' b j ?d fr'] l ne qn assms(7,9,15) n tr by (auto simp: query_get)
  have wq: "wf_dict ?q" by (simp add: query_msg_def wf_dict_def)
  have "handle_message E' b (JObj ?q) (B\<lparr>conns := (conns B)(j \<mapsto> ?d)\<rparr>) = on_query E' b ?q n"
    using handle_counted [of ?q "JStr (mt QUERY)" E' b "B\<lparr>conns := (conns B)(j \<mapsto> ?d)\<rparr>"] assms(10)
    by (simp add: query_get dispatch_def n_def)
  then have B1: "read_loop_step (handle_message E') now b j (arrive fr j B) = (n', True)"
    using read_arrived [OF assms(4) wq assms(8), of E' now] n'(1) by simp
  \<comment> \<open>the answer at \<open>A\<close>\<close>
  let ?c = "c\<lparr>c_sent := c_sent c @ fr\<rparr>"
  have qp: "quiet_peer A1 a i ?c"
    using assms(2) c1 keeps_broadcast [of ?A0 ?q "[]"] by (simp add: quiet_peer_def live_peer_def A1 keeps_table_def)
  let ?c' = "?c\<lparr>c_last_read := now2\<rparr>"
  let ?r = "query_resp_msg (JStr qid) (query_nodes E' b (JStr []) B)"
  define m where "m = count_message (mono E2) a (JStr (mt QUERY_RESP)) (A1\<lparr>conns := (conns A1)(i \<mapsto> ?c')\<rparr>)"
  have m: "pending_queries m = dset qid ([], False) (pending_queries A)" "msg_count A1 = msg_count A"
    by (simp_all add: m_def A1 count_message_def Let_def)
  define m' where "m' = m\<lparr>pending_queries := dset qid (query_nodes E' b (JStr []) B, True) (pending_queries m)\<rparr>"
  have orr: "on_query_resp a ?r m = (m', None)"
    using ne m by (simp add: on_query_resp_def resp_get lookup_key_def str_key_def m'_def Let_def)
  have "handle_message E2 a (JObj ?r) (A1\<lparr>conns := (conns A1)(i \<mapsto> ?c')\<rparr>) = on_query_resp a ?r m"
    using handle_counted [of ?r "JStr (mt QUERY_RESP)" E2 a "A1\<lparr>conns := (conns A1)(i \<mapsto> ?c')\<rparr>"] assms(16) m(2)
    by (simp add: resp_get dispatch_def m_def)
  then have A2: "read_loop_step (handle_message E2) now2 a i (arrive fr' i A1) = (m', True)"
    using read_arrived [OF qp assms(14,15), of E2 now2] orr by simp
  define A3 where "A3 = m'\<lparr>pending_queries := dpop qid (pending_queries m')\<rparr>"
  have tq: "take_query False qid m' = (A3, Some (query_nodes E' b (JStr []) B))"
    by (simp add: take_query_def m'_def A3_def)
  have "\<exists>z \<in> set (query_nodes E' b (JStr []) B). py_get z ''addr'' (JStr []) = Inr (JStr x)"
    using assms(11,12)
    by (intro bexI [of _ "JObj [(''addr'', JStr x), (''node_id'', JStr (id_prefix x)),
        (''caps'', JArr (ord_val E' (fst (get_peer_caps x (routing B)))))]"]) (auto simp: query_nodes_def dget_def)
  then obtain z where z: "z \<in> set (query_nodes E' b (JStr []) B)" "py_get z ''addr'' (JStr []) = Inr (JStr x)" by blast
  obtain ds where "discover_finish E3 (query_nodes E' b (JStr []) B) A3 = Inr ds" "\<exists>e \<in> set ds. py_get e ''addr'' JNull = Inr (JStr x)"
    using discover_finish_ok [OF query_nodes_addr [OF assms(13,5)] z] by blast
  then have "discover_resume E3 False qid m' = (A3, Some (Inr ds))" "\<exists>e \<in> set ds. py_get e ''addr'' JNull = Inr (JStr x)"
    by (simp_all add: discover_resume_def tq)
  then show ?thesis
    using c1(1) B1 n'(2) A2 by (auto simp: A1_def n)
qed

theorem discovery_finds_peers_witness:
  "\<exists>fr fr' B1 A2 A3 ds.
     read_loop_step (handle_message demo_env) 100 ''abc@h:1'' 0 (arrive fr 0 (demo_node\<lparr>self_id := ''other'',
         routing := fst (register_peer ''xyz@h:2'' (JObj []) (JArr []) empty_table)\<rparr>)) = (B1, True) \<and>
     read_loop_step (handle_message demo_env) 100 ''abc@h:1'' 0 (arrive fr' 0 (discover_start ''q'' demo_node)) = (A2, True) \<and>
     discover_resume demo_env False ''q'' A2 = (A3, Some (Inr ds)) \<and> (\<exists>e \<in> set ds. py_get e ''addr'' JNull = Inr (JStr ''xyz@h:2''))"
proof -
  let ?B = "demo_node\<lparr>self_id := ''other'', routing := fst (register_peer ''xyz@h:2'' (JObj []) (JArr []) empty_table)\<rparr>"
  have q: "quiet_peer ?B ''abc@h:1'' 0 (new_conn ''h:1'' 0)"
    using demo_quiet by (simp add: quiet_peer_def live_peer_def)
  have kn: "known_peers (routing ?B) = [''xyz@h:2'']" "get_peer_caps ''xyz@h:2'' (routing ?B) = ([], [])"
    by (simp_all add: register_peer_def cap_names_def dget_def py_set_def set_of_def bindE_def empty_table_def known_peers_def
        get_peer_caps_def)
  have qn: "query_nodes demo_env ''abc@h:1'' (JStr []) ?B =
      [JObj [(''addr'', JStr ''xyz@h:2''), (''node_id'', JStr ''xyz''), (''caps'', JArr [])]]"
    using kn(2) unfolding query_nodes_def kn(1)
    by (simp add: has_capability_def new_tracker_def id_prefix_def first_field_def)
  have ids: "self_id demo_node \<noteq> []" "self_id demo_node \<noteq> self_id ?B"
  proof -
    have "length (self_id demo_node) \<noteq> length (self_id ?B)" by simp
    then show "self_id demo_node \<noteq> self_id ?B" by (rule contrapos_nn) (rule arg_cong [where f = length])
  qed simp
  have num: "show_nat 3 = ''3''" by code_simp
  have "\<exists>fr. encode_frame (query_msg (JStr []) (JStr ''q'') (JInt 3) (JStr (self_id demo_node))) = Inr fr"
    by (rule frame_fits) (simp_all add: query_msg_def wf_dict_def mt.simps MAX_PAYLOAD_SIZE_def show_int_def num)
  then obtain fr where fr: "encode_frame (query_msg (JStr []) (JStr ''q'') (JInt 3) (JStr (self_id demo_node))) = Inr fr" ..
  have w: "wf_dict (query_resp_msg (JStr ''q'') (query_nodes demo_env ''abc@h:1'' (JStr []) ?B))"
    unfolding qn by (simp add: query_resp_msg_def wf_dict_def)
  have "\<exists>fr. encode_frame (query_resp_msg (JStr ''q'') (query_nodes demo_env ''abc@h:1'' (JStr []) ?B)) = Inr fr"
    by (rule frame_fits [OF w]) (simp only: qn, simp add: query_resp_msg_def mt.simps MAX_PAYLOAD_SIZE_def)
  then obtain fr' where fr': "encode_frame (query_resp_msg (JStr ''q'') (query_nodes demo_env ''abc@h:1'' (JStr []) ?B)) = Inr fr'" ..
  have x: "''xyz@h:2'' \<in> set (known_peers (routing ?B))" "\<forall>y \<in> set (known_peers (routing ?B)). y \<noteq> []"
    unfolding kn by simp_all
  have b: "fst (bump_count (mono demo_env) ''abc@h:1'' (msg_count ?B)) \<le> 100" "map_of (seen_queries ?B) (JStr ''q'') = None"
    "''abc@h:1'' \<noteq> []" "''xyz@h:2'' \<noteq> ''abc@h:1''" "(''abc@h:1'', 0) \<in> set (peers demo_node)"
    "fst (bump_count (mono demo_env) ''abc@h:1'' (msg_count demo_node)) \<le> 100"
    by (simp_all add: bump_count_def dget_def)
  show ?thesis
    using discovery_finds_peers [OF demo_node_inv(1) demo_quiet b(5) q b(3) ids fr b(2,1) x(1) b(4) x(2) w fr' b(6), of 100 100 demo_env]
    by metis
qed

end
