(* ===== verification/Relay.thy ===== *)
theory Relay
  imports Network
begin

text \<open>
  \<open>examples/python/tracker.py\<close>: the tracker node, which answers discovery tasks with all peers it
  knows and relays tasks to peers the caller cannot reach. Its handler waits for the peer's
  result, so the handling of a task is split there: the caller's read loop waits meanwhile,
  every other step of the node may come between.
\<close>

section \<open>Tasks whose handler waits\<close>

text \<open>The end of \<open>_on_task\<close>, for a handler that raised or returned.\<close>

definition task_failed :: "env \<Rightarrow> string \<Rightarrow> pydict \<Rightarrow> exn \<Rightarrow> node \<Rightarrow> node" where
  "task_failed E a msg e n =
     try_send a (result_msg (dget msg ''id'' (JStr ''unknown'')) ''error'' None
       (Some (error_dict ''INTERNAL'' (exn_text E e))) []) n"

definition task_reply :: "env \<Rightarrow> string \<Rightarrow> pydict \<Rightarrow> exn + json \<Rightarrow> node \<Rightarrow> node" where
  "task_reply E a msg out n = (case out of
     Inl e \<Rightarrow> task_failed E a msg e n
   | Inr payload \<Rightarrow> (case send_to a (signed_result E (dget msg ''id'' (JStr [])) payload n) n of
       (n1, None) \<Rightarrow> n1
     | (n1, Some e) \<Rightarrow> task_failed E a msg e n1))"

text \<open>A handler that does not wait is the one of \<open>Node\<close>.\<close>

lemma on_task_reply:
  assumes "check_task_signature E msg n = (n1, Inr Sig_ok)"
    "\<not> py_truthy (dget msg ''caller'' (JStr [])) \<or> sliceable (dget msg ''caller'' (JStr []))"
  shows "on_task E a msg n = task_reply E a msg (run_task E msg n1) n1"
  using assms
  by (auto simp: on_task_def task_body_def task_reply_def task_failed_def Let_def split: sum.split prod.split option.split)

section \<open>The handler of the tracker\<close>

text \<open>The search for the peer: a match in an address, then the capabilities, then any peer.\<close>

fun relay_match :: "json \<Rightarrow> addr list \<Rightarrow> exn + addr option" where
  "relay_match target [] = Inr None"
| "relay_match target (a # as) =
     bindE (py_str target) (\<lambda>s. if substring s a then Inr (Some a) else relay_match target as)"

fun relay_fallback :: "env \<Rightarrow> interest_table \<Rightarrow> json list \<Rightarrow> exn + addr option" where
  "relay_fallback E t [] = Inr None"
| "relay_fallback E t (c # cs) =
     bindE (find_peer_for (ord_addr E) c t) (\<lambda>p. if p \<noteq> None \<and> p \<noteq> Some [] then Inr p else relay_fallback E t cs)"

definition relay_peer :: "env \<Rightarrow> json \<Rightarrow> json \<Rightarrow> node \<Rightarrow> exn + addr option" where
  "relay_peer E target cap n =
     (let candidates = known_peers (routing n) in
      bindE (relay_match target candidates) (\<lambda>m.
        if (m \<noteq> None \<and> m \<noteq> Some []) \<or> candidates = [] then Inr m
        else bindE (relay_fallback E (routing n) [cap, JStr ''ping'', JStr ''echo'']) (\<lambda>p.
          Inr (if p \<noteq> None then p else Some (hd candidates)))))"

text \<open>What the handler does at once: an answer, or a wait for the relayed task's result.\<close>

datatype handled = Answer "exn + json" | Relayed string json

definition relay_task :: "env \<Rightarrow> string \<Rightarrow> task \<Rightarrow> node \<Rightarrow> node \<times> handled" where
  "relay_task E rid t n =
     (case bindE (py_get (t_payload t) ''target'' (JStr [])) (\<lambda>target.
           bindE (py_get (t_payload t) ''capability'' (JStr [])) (\<lambda>cap.
           bindE (py_get (t_payload t) ''payload'' (JObj [])) (\<lambda>payload.
             if \<not> sliceable (t_caller t) \<or> \<not> sliceable target then Inl TypeErr
             else bindE (relay_peer E target cap n) (\<lambda>p. Inr (target, cap, payload, p))))) of
        Inl e \<Rightarrow> (n, Answer (Inl e))
      | Inr (target, cap, payload, p) \<Rightarrow>
          if p = None \<or> p = Some [] then
            (n, Answer (Inr (JObj [(''error'', JStr (''target not found: '' @ py_format (repr_text E) target)),
                                   (''known'', JArr (map JStr (known_peers (routing n))))])))
          else
            (case send_to (the p) (signed_task E rid (JStr (the p)) cap payload n) n of
               (n1, Some e) \<Rightarrow>
                 (n1, Answer (Inr (JObj [(''relay_status'', JStr ''error''), (''error'', JStr (exn_text E e))])))
             | (n1, None) \<Rightarrow> (expect_result rid n1, Relayed rid target)))"

definition discovery_answer :: "env \<Rightarrow> node \<Rightarrow> json" where
  "discovery_answer E n =
     JObj [(''tracker_id'', JStr (take 16 (self_id n))), (''peers_connected'', JInt (int (length (get_known_peers E n)))),
           (''known_peers'', JArr (get_known_peers E n)), (''local_caps'', JArr (ord_val E (local_caps (routing n))))]"

definition tracker_handle :: "env \<Rightarrow> string \<Rightarrow> task \<Rightarrow> node \<Rightarrow> node \<times> handled" where
  "tracker_handle E rid t n =
     (if t_capability t = JStr ''relay'' then relay_task E rid t n
      else if t_capability t = JStr ''discovery'' then (n, Answer (Inr (discovery_answer E n)))
      else (n, Answer (Inr (JObj [(''echo'', t_payload t), (''from'', JStr (self_id n)), (''node'', JStr ''tracker'')]))))"

text \<open>The end of the wait, which lasts 30 s at most.\<close>

definition relay_answer :: "json \<Rightarrow> node \<Rightarrow> json" where
  "relay_answer payload n =
     JObj [(''relay_status'', JStr ''success''), (''result'', payload), (''relayed_by'', JStr (take 12 (self_id n)))]"

definition relay_wait :: "bool \<Rightarrow> string \<Rightarrow> json \<Rightarrow> node \<Rightarrow> node \<times> json option" where
  "relay_wait timed_out rid target n =
     (case map_of (pending_results n) rid of
        Some (Some r) \<Rightarrow> (n\<lparr>pending_results := dpop rid (pending_results n)\<rparr>, Some (relay_answer (r_payload r) n))
      | _ \<Rightarrow> if timed_out
             then (n\<lparr>pending_results := dpop rid (pending_results n)\<rparr>,
                   Some (JObj [(''relay_status'', JStr ''timeout''), (''target'', target)]))
             else (n, None))"

section \<open>The tracker's tasks\<close>

definition tracker_setup :: "node \<Rightarrow> node \<times> exn option" where
  "tracker_setup n = register_call [] [''tracker'', ''echo'', ''discovery'', ''relay''] [] [] [] [] n"

text \<open>\<open>_on_task\<close> with the tracker's handler, down to the wait if there is one.\<close>

definition tracker_task :: "env \<Rightarrow> string \<Rightarrow> string \<Rightarrow> pydict \<Rightarrow> node \<Rightarrow> node \<times> (string \<times> json) option" where
  "tracker_task E rid a msg n =
     (let caller_id = dget msg ''caller'' (JStr []) in
      case check_task_signature E msg n of
        (n1, Inl e) \<Rightarrow> (task_failed E a msg e n1, None)
      | (n1, Inr Sig_bad) \<Rightarrow>
          ((case send_to a (result_msg (dget msg ''id'' (JStr [])) ''error'' None
                   (Some (error_dict ''BAD_SIGNATURE'' ''Invalid signature'')) []) n1 of
              (n2, None) \<Rightarrow> n2 | (n2, Some e) \<Rightarrow> task_failed E a msg e n2), None)
      | (n1, Inr Sig_ok) \<Rightarrow>
          if py_truthy caller_id \<and> \<not> sliceable caller_id then (task_failed E a msg TypeErr n1, None)
          else if dget msg ''capability'' (JStr []) = JStr ''health''
            then (task_reply E a msg (Inr (health_payload E n1)) n1, None)
          else (case tracker_handle E rid (incoming_task E msg) n1 of
                  (n2, Answer out) \<Rightarrow> (task_reply E a msg out n2, None)
                | (n2, Relayed r target) \<Rightarrow> (n2, Some (r, target))))"

definition tracker_resume :: "env \<Rightarrow> bool \<Rightarrow> string \<Rightarrow> pydict \<Rightarrow> string \<Rightarrow> json \<Rightarrow> node \<Rightarrow> node \<times> bool" where
  "tracker_resume E timed_out a msg rid target n =
     (case relay_wait timed_out rid target n of
        (n1, None) \<Rightarrow> (n1, False)
      | (n1, Some out) \<Rightarrow> (task_reply E a msg (Inr out) n1, True))"

text \<open>
  \<open>_handle_message\<close> with the tracker's handler installed: a task that the rate limit lets through
  goes to it, everything else is handled as on every node. The second component is the wait.
\<close>

definition tracker_message :: "env \<Rightarrow> string \<Rightarrow> string \<Rightarrow> json \<Rightarrow> node \<Rightarrow> (node \<times> exn option) \<times> (string \<times> json) option" where
  "tracker_message E rid a j n =
     (case j of
        JObj msg \<Rightarrow>
          (let cw = bump_count (mono E) a (msg_count n) in
           if dget msg ''type'' (JStr []) = JStr (mt TASK) \<and> fst cw \<le> 100 then
             (case tracker_task E rid a msg (n\<lparr>msg_count := dset a cw (msg_count n)\<rparr>) of (n1, w) \<Rightarrow> ((n1, None), w))
           else (handle_message E a j n, None))
      | _ \<Rightarrow> (handle_message E a j n, None))"

text \<open>
  Over the limit, and for any other message, the tracker does what every node does; a task over
  the limit is dropped.
\<close>

lemma tracker_message_other:
  "j \<noteq> JObj msg \<or> dget msg ''type'' (JStr []) \<noteq> JStr (mt TASK) \<Longrightarrow> j = JObj msg \<or> (\<forall>m. j \<noteq> JObj m) \<Longrightarrow>
   tracker_message E rid a j n = (handle_message E a j n, None)"
  by (cases j) (auto simp: tracker_message_def Let_def)

lemma tracker_over_limit:
  assumes "dget msg ''type'' (JStr []) = JStr (mt TASK)" "100 < fst (bump_count (mono E) a (msg_count n))"
  shows "\<exists>mc hc. tracker_message E rid a (JObj msg) n = ((n\<lparr>msg_count := mc, hello_count := hc\<rparr>, None), None)"
  using over_limit_dropped [OF assms(2), of msg] assms by (simp add: tracker_message_def Let_def)

lemma tracker_counted:
  assumes "dget msg ''type'' (JStr []) = JStr (mt TASK)" "fst (bump_count (mono E) a (msg_count n)) \<le> 100"
    "tracker_task E rid a msg (count_message (mono E) a (JStr (mt TASK)) n) = (n1, w)"
  shows "tracker_message E rid a (JObj msg) n = ((n1, None), w)"
  using assms by (simp add: tracker_message_def count_message_def Let_def)

section \<open>The end of a relay\<close>

text \<open>
  A relayed task is answered at the latest when its wait times out, and its entry is gone then.
\<close>

lemma relay_ends:
  assumes "live_peer n a i c" "ed E = ed F"
    "out = (case map_of (pending_results n) rid of
        Some (Some r) \<Rightarrow> relay_answer (r_payload r) n
      | _ \<Rightarrow> JObj [(''relay_status'', JStr ''timeout''), (''target'', target)])"
    "encode_frame (signed_result E (dget msg ''id'' (JStr [])) out n) = Inr fr"
  shows "\<exists>n'. tracker_resume E True a msg rid target n = (n', True) \<and>
    conns n' i = Some (c\<lparr>c_sent := c_sent c @ fr\<rparr>) \<and> map_of (pending_results n') rid = None"
proof -
  define n1 where "n1 = n\<lparr>pending_results := dpop rid (pending_results n)\<rparr>"
  have l: "live_peer n1 a i c" using assms(1) by (simp add: n1_def live_peer_def)
  have s: "signed_result E t out n1 = signed_result E t out n" for t by (simp add: n1_def signed_result_def)
  have "relay_wait True rid target n = (n1, Some out)"
    using assms(3) by (simp add: relay_wait_def n1_def split: option.splits)
  then show ?thesis
    using send_to_live [OF l, of "signed_result E (dget msg ''id'' (JStr [])) out n"] assms(4)
    by (simp add: tracker_resume_def task_reply_def s) (simp add: n1_def)
qed

text \<open>
  A tracker that knows only the caller relays the task back to it: the last fallback is the
  first known peer, whatever the target. The caller's read loop waits for the handler then, so
  the caller's result cannot be read before the wait times out.
\<close>

lemma relay_back_to_caller:
  assumes "known_peers (routing n) = [a]" "\<not> substring target a" "a \<noteq> []" "hashable cap"
    "\<forall>c \<in> {cap, JStr ''ping'', JStr ''echo''}. fwd (routing n) c = []" "order_ok (ord_addr E)"
  shows "relay_peer E (JStr target) cap n = Inr (Some a)"
proof -
  have "find_peer_for (ord_addr E) c (routing n) = Inr None" if "c \<in> {cap, JStr ''ping'', JStr ''echo''}" for c
    using find_peer_for_none [OF assms(6), of c "routing n"] assms(4,5) that by auto
  then show ?thesis using assms(1,2) by (simp add: relay_peer_def)
qed

section \<open>Which peer a relay chooses\<close>

lemma relay_match_first:
  "p \<in> set as \<Longrightarrow> substring target p \<Longrightarrow> \<forall>x \<in> set (takeWhile (\<lambda>x. x \<noteq> p) as). \<not> substring target x \<Longrightarrow>
   relay_match (JStr target) as = Inr (Some p)"
  by (induction as) (auto split: if_splits)

text \<open>The first known peer whose address contains the target.\<close>

lemma relay_peer_matching:
  assumes "p \<in> set (known_peers (routing n))" "substring target p" "p \<noteq> []"
    "\<forall>x \<in> set (takeWhile (\<lambda>x. x \<noteq> p) (known_peers (routing n))). \<not> substring target x"
  shows "relay_peer E (JStr target) cap n = Inr (Some p)"
  using relay_match_first [OF assms(1,2,4)] assms(3) by (simp add: relay_peer_def)

text \<open>
  A target longer than the 12 characters of an id that an address shows, such as a whole node
  id, is in no address: the tracker falls back to any peer with the capability.
\<close>

lemma whole_id_matches_nothing:
  assumes "x = take 12 i @ ''@'' @ r" "12 < length target" "CHR ''@'' \<notin> set target" "length r < length target"
  shows "\<not> substring target x"
proof
  assume "substring target x"
  then obtain u v where x: "take 12 i @ ''@'' @ r = u @ target @ v" using assms(1) by (auto simp: substring_iff)
  let ?k = "length (take 12 i)"
  have "length (take 12 i @ ''@'' @ r) = length (u @ target @ v)" by (simp only: x)
  then have l: "?k + 1 + length r = length u + length target + length v" by simp
  have "(u @ target @ v) ! ?k = CHR ''@''" unfolding x [symmetric] by (simp only: nth_append_length append_Cons)
  then have "target ! (?k - length u) \<noteq> CHR ''@'' \<Longrightarrow> ?k < length u \<or> length u + length target \<le> ?k"
    by (auto simp: nth_append split: if_splits)
  moreover have "target ! (?k - length u) \<noteq> CHR ''@''" if "?k - length u < length target"
    using nth_mem [OF that] assms(3) by auto
  moreover have "?k \<le> 12" by simp
  ultimately show False using assms(2,4) l by linarith
qed

section \<open>A relayed task\<close>

lemma relay_peer_cong: "routing n' = routing n \<Longrightarrow> relay_peer E target cap n' = relay_peer E target cap n"
  by (simp only: relay_peer_def)

abbreviation relay_request :: "json \<Rightarrow> send_req \<Rightarrow> json" where
  "relay_request target req \<equiv> JObj [(''target'', target), (''capability'', sr_capability req),
     (''payload'', sr_payload req), (''ttl_s'', sr_ttl req)]"

text \<open>A send whose target is not connected asks a relay.\<close>

lemma relay_starts:
  assumes "connected n" "sr_target req = JStr target" "target \<noteq> []" "target_peer (JStr target) n = Inr None"
    "find_peer_for (ord_addr E) (JStr ''relay'') (routing n) = Inr (Some a)" "CHR ''@'' \<in> set a" "live_peer n a i c"
    "encode_frame (signed_task E rtid (JStr []) (JStr ''relay'') (relay_request (JStr target) req) n) = Inr fr"
  shows "send_task E created tid rtid qid req n =
    (expect_result rtid (n\<lparr>conns := (conns n)(i \<mapsto> c\<lparr>c_sent := c_sent c @ fr\<rparr>)\<rparr>), Wait_relay tid rtid req)"
proof -
  have "a \<noteq> []" using assms(6) by auto
  then show ?thesis
    using assms send_to_live [OF assms(7), of "signed_task E rtid (JStr []) (JStr ''relay'') (relay_request (JStr target) req) n"]
    by (simp add: send_task_def via_tracker_def Let_def)
qed

text \<open>The tracker takes a relay task up and hands it on.\<close>

lemma tracker_relays:
  assumes "snd (check_task_signature F m n) = Inr Sig_ok" "dget m ''caller'' (JStr []) = JStr cid"
    "dget m ''capability'' (JStr []) = JStr ''relay''" "dget m ''payload'' (JObj []) = relay_request (JStr target) req"
    "relay_peer F (JStr target) (sr_capability req) n = Inr (Some b)" "b \<noteq> []" "live_peer n b k d"
    "encode_frame (signed_task F rid (JStr b) (sr_capability req) (sr_payload req) n) = Inr fr"
  shows "\<exists>n'. tracker_task F rid a m n = (n', Some (rid, JStr target)) \<and> conns n' = (conns n)(k \<mapsto> d\<lparr>c_sent := c_sent d @ fr\<rparr>) \<and>
    map_of (pending_results n') rid = Some None \<and> peers n' = peers n \<and> ident n' = ident n \<and> self_id n' = self_id n \<and>
    msg_count n' = msg_count n \<and> has_handler n' = has_handler n \<and> stopped n' = stopped n \<and>
    (cache_ok (ed F) n \<longrightarrow> cache_ok (ed F) n')"
proof -
  obtain n1 where k: "check_task_signature F m n = (n1, Inr Sig_ok)" using assms(1) by (cases "check_task_signature F m n") auto
  have e: "n1 = fst (check_task_signature F m n)" by (simp add: k)
  have n1: "conns n1 = conns n" "peers n1 = peers n" "ident n1 = ident n" "self_id n1 = self_id n" "routing n1 = routing n"
    "msg_count n1 = msg_count n" "has_handler n1 = has_handler n" "stopped n1 = stopped n"
    unfolding e using keeps_pubkey [OF keeps_table_refl] by (simp_all add: keeps_table_def)
  have ck: "cache_ok (ed F) n1" if "cache_ok (ed F) n"
    unfolding e using pubkey_cached [OF that, of "JStr cid"] assms(2) that by simp
  have p: "relay_peer F (JStr target) (sr_capability req) n1 = Inr (Some b)"
    using assms(5) relay_peer_cong [OF n1(5)] by simp
  have l: "live_peer n1 b k d" using assms(7) n1 by (simp add: live_peer_def)
  have m: "signed_task F rid (JStr b) (sr_capability req) (sr_payload req) n1 = signed_task F rid (JStr b) (sr_capability req) (sr_payload req) n"
    using n1 by (simp add: signed_task_def)
  have t: "tracker_task F rid a m n =
      (expect_result rid (n1\<lparr>conns := (conns n)(k \<mapsto> d\<lparr>c_sent := c_sent d @ fr\<rparr>)\<rparr>), Some (rid, JStr target))"
  proof -
    have s: "send_to b (signed_task F rid (JStr b) (sr_capability req) (sr_payload req) n1) n1 =
        (n1\<lparr>conns := (conns n)(k \<mapsto> d\<lparr>c_sent := c_sent d @ fr\<rparr>)\<rparr>, None)"
      unfolding m using send_to_live [OF l, of "signed_task F rid (JStr b) (sr_capability req) (sr_payload req) n"] assms(8) n1(1)
      by simp
    have "relay_task F rid (incoming_task F m) n1 =
        (expect_result rid (n1\<lparr>conns := (conns n)(k \<mapsto> d\<lparr>c_sent := c_sent d @ fr\<rparr>)\<rparr>), Relayed rid (JStr target))"
      using assms(2,4,6) p s by (simp add: relay_task_def incoming_task_def dget_def)
    moreover have "t_capability (incoming_task F m) = JStr ''relay''" using assms(3) by (simp add: incoming_task_def)
    ultimately show ?thesis using k assms(2,3) by (simp add: tracker_task_def tracker_handle_def Let_def)
  qed
  let ?n = "expect_result rid (n1\<lparr>conns := (conns n)(k \<mapsto> d\<lparr>c_sent := c_sent d @ fr\<rparr>)\<rparr>)"
  have "cache_ok (ed F) ?n = cache_ok (ed F) n1" by (simp only: cache_ok_def) (simp add: expect_result_def)
  then have c: "cache_ok (ed F) n \<longrightarrow> cache_ok (ed F) ?n" using ck by blast
  show ?thesis unfolding t
    by (rule exI [of _ ?n], intro conjI, rule refl) (rule c | simp add: n1 expect_result_def)+
qed

lemma count_fields:
  "routing (count_message now a ty n) = routing n" "self_id (count_message now a ty n) = self_id n"
  "ident (count_message now a ty n) = ident n" "has_handler (count_message now a ty n) = has_handler n"
  "stopped (count_message now a ty n) = stopped n" "cache_ok e (count_message now a ty n) = cache_ok e n"
  by (simp_all add: count_message_def Let_def cache_ok_def)

text \<open>
  C2: a task for a peer the sender cannot reach comes back through the tracker. The sender
  names the peer by a prefix of at most 12 characters of its id, finds no connection to it and
  asks the tracker. The tracker's read loop takes the request through the dispatcher, within the
  rate limit, checks its signature, finds the peer whose address begins with the first 12
  characters of that id (no known peer before it may have the target in its address), signs a
  task of its own for it and waits; the peer checks, runs its handler and answers; the
  tracker takes the result, puts it into its own signed result; and the send ends with the
  handler's value inside the tracker's answer. The bytes of all four frames are followed over
  the three nodes' connections, each through the read loop of the node that gets them.
\<close>

theorem task_relayed:
  assumes "ed_ok (ed E)" "ed E' = ed E" "ed F = ed E" "ed F' = ed E" "ed G = ed E"
    and "connected C" "own_identity (ed E) C" "cache_ok (ed E) C" "sr_target req = JStr target"
      "target_peer (JStr target) C = Inr None" "find_peer_for (ord_addr E) (JStr ''relay'') (routing C) = Inr (Some a)"
      "a = take 12 (self_id T) @ ''@'' @ ra" "quiet_peer C a i c" "fst (bump_count (mono E') a (msg_count C)) \<le> 100"
      "wf_json (sr_capability req)" "wf_json (sr_payload req)" "wf_json (sr_ttl req)" "sr_capability req \<noteq> JStr ''health''"
    and "own_identity (ed E) T" "cache_ok (ed E) T" "quiet_peer T b j d" "quiet_peer T p k d'" "j \<noteq> k" "b \<noteq> p"
      "fst (bump_count (mono F) b (msg_count T)) \<le> 100" "fst (bump_count (mono F') p (msg_count T)) \<le> 100"
    and "target = take np (self_id P)" "0 < np" "np \<le> 12" "p = take 12 (self_id P) @ ''@'' @ rp"
      "p \<in> set (known_peers (routing T))" "\<forall>x \<in> set (takeWhile (\<lambda>x. x \<noteq> p) (known_peers (routing T))). \<not> substring target x"
    and "own_identity (ed E) P" "cache_ok (ed E) P" "quiet_peer P q l dp" "fst (bump_count (mono G) q (msg_count P)) \<le> 100"
    and "task1 = signed_task E rtid (JStr []) (JStr ''relay'') (relay_request (JStr target) req) C" "encode_frame task1 = Inr f1"
      "task2 = signed_task F rid (JStr p) (sr_capability req) (sr_payload req) T" "encode_frame task2 = Inr f2"
      "task_handler P = Some h" "h (incoming_task G task2) = Inr out" "wf_json out" "encode_frame (signed_result G (JStr rid) out P) = Inr f3"
      "answer = relay_answer (if out = JNull then JObj [] else out) T" "encode_frame (signed_result F' (JStr rtid) answer T) = Inr f4"
  shows "\<exists>C1 T2 P1 T3 T4 C2 C3.
    send_task E created tid rtid qid req C = (C1, Wait_relay tid rtid req) \<and> conns C1 i = Some (c\<lparr>c_sent := c_sent c @ f1\<rparr>) \<and>
    read_loop_step (\<lambda>a m n. fst (tracker_message F rid a m n)) now1 b j (arrive f1 j T) = (T2, True) \<and>
    tracker_message F rid b (JObj task1) (T\<lparr>conns := (conns T)(j \<mapsto> d\<lparr>c_last_read := now1\<rparr>)\<rparr>) =
      ((T2, None), Some (rid, JStr target)) \<and> conns T2 k = Some (d'\<lparr>c_sent := c_sent d' @ f2\<rparr>) \<and>
    read_loop_step (handle_message G) now2 q l (arrive f2 l P) = (P1, True) \<and>
    conns P1 l = Some (dp\<lparr>c_last_read := now2, c_sent := c_sent dp @ f3\<rparr>) \<and>
    read_loop_step (handle_message F') now3 p k (arrive f3 k T2) = (T3, True) \<and>
    tracker_resume F' False b task1 rid (JStr target) T3 = (T4, True) \<and>
    conns T4 j = Some (d\<lparr>c_last_read := now1, c_sent := c_sent d @ f4\<rparr>) \<and>
    read_loop_step (handle_message E') now4 a i (arrive f4 i C1) = (C2, True) \<and>
    resume_send E'' created to (Wait_relay tid rtid req) C2 = (C3, Finished (result_success (JStr rtid) answer))"
proof -
  define C1 where "C1 = expect_result rtid (C\<lparr>conns := (conns C)(i \<mapsto> c\<lparr>c_sent := c_sent c @ f1\<rparr>)\<rparr>)"
  define T1 where "T1 = count_message (mono F) b (JStr (mt TASK)) (T\<lparr>conns := (conns T)(j \<mapsto> d\<lparr>c_last_read := now1\<rparr>)\<rparr>)"
  have T1: "routing T1 = routing T" "self_id T1 = self_id T" "ident T1 = ident T" "has_handler T1 = has_handler T"
    "stopped T1 = stopped T" "peers T1 = peers T" "conns T1 = (conns T)(j \<mapsto> d\<lparr>c_last_read := now1\<rparr>)" "cache_ok e T1 = cache_ok e T"
    "msg_count T1 = dset b (bump_count (mono F) b (msg_count T)) (msg_count T)" for e
    unfolding T1_def count_fields by (simp_all add: cache_ok_def)
  have idT: "CHR ''@'' \<notin> set (self_id T)" using assms(19) by (auto simp: own_identity_def node_id_no_at)
  have "length (self_id P) = 43" using assms(33) node_id_length [OF assms(1)] by (auto simp: own_identity_def)
  then have "self_id P \<noteq> []" by auto
  then have idP: "substring target p" "CHR ''@'' \<notin> set (self_id P)" "target \<noteq> []"
    using assms(27-30,33) by (auto simp: own_identity_def node_id_no_at substring_iff)
      (metis append_Nil append_assoc append_take_drop_id min.absorb1 take_take)
  have pne: "p \<noteq> []" using assms(30) by simp
  have rp: "relay_peer F (JStr target) (sr_capability req) T = Inr (Some p)"
    by (rule relay_peer_matching [OF assms(31) idP(1) pne assms(32)])
  have w1: "wf_dict task1" unfolding assms(37) by (rule wf_signed_task) (use assms(15,16,17) in simp_all)
  have w2: "wf_dict task2" unfolding assms(39) by (rule wf_signed_task) (use assms(15,16) in simp_all)
  have s: "send_task E created tid rtid qid req C = (C1, Wait_relay tid rtid req)"
    using relay_starts [OF assms(6,9) idP(3) assms(10,11), of i c rtid f1] assms(12,13,37,38) by (simp add: C1_def quiet_peer_def)
  have okF: "snd (check_task_signature F task1 n) = Inr Sig_ok" if "cache_ok (ed F) n" for n
    unfolding assms(37) by (rule honest_check) (use assms(1,3,7) that in simp_all)
  have okG: "snd (check_task_signature G task2 n) = Inr Sig_ok" if "cache_ok (ed G) n" for n
    unfolding assms(39) by (rule honest_check) (use assms(1,3,5,19) that in simp_all)
  have lk: "live_peer T1 p k d'" using assms(22,23) by (simp add: quiet_peer_def live_peer_def T1)
  have m2: "signed_task F rid (JStr p) (sr_capability req) (sr_payload req) T1 = task2"
    by (simp add: assms(39) signed_task_def T1)
  have g1: "dget task1 ''caller'' (JStr []) = JStr (self_id C)" "dget task1 ''capability'' (JStr []) = JStr ''relay''"
    "dget task1 ''payload'' (JObj []) = relay_request (JStr target) req" "dget task1 ''id'' (JStr []) = JStr rtid"
    "dget task1 ''type'' (JStr []) = JStr (mt TASK)"
    by (simp_all add: assms(37) signed_task_type signed_task_get signed_task_payload)
  have cT1: "cache_ok (ed F) T1" using assms(3,20) T1(8) by simp
  obtain T2 where T2: "tracker_task F rid b task1 T1 = (T2, Some (rid, JStr target))"
    "conns T2 = (conns T1)(k \<mapsto> d'\<lparr>c_sent := c_sent d' @ f2\<rparr>)" "map_of (pending_results T2) rid = Some None"
    "peers T2 = peers T1" "ident T2 = ident T1" "self_id T2 = self_id T1" "msg_count T2 = msg_count T1"
    "has_handler T2 = has_handler T1" "stopped T2 = stopped T1" "cache_ok (ed F) T2"
    using tracker_relays [OF okF [OF cT1] g1(1-3), of p k d' rid f2 b] rp pne assms(40) relay_peer_cong [OF T1(1)] lk m2 cT1
    by auto
  let ?T0 = "T\<lparr>conns := (conns T)(j \<mapsto> d\<lparr>c_last_read := now1\<rparr>)\<rparr>"
  have tm: "tracker_message F rid b (JObj task1) ?T0 = ((T2, None), Some (rid, JStr target))"
    by (rule tracker_counted [OF g1(5)]) (use assms(25) T2(1) T1_def in simp_all)
  then have r: "read_loop_step (\<lambda>a m n. fst (tracker_message F rid a m n)) now1 b j (arrive f1 j T) = (T2, True)"
    using read_arrived_by [OF assms(21) w1 assms(38), of "\<lambda>a m n. fst (tracker_message F rid a m n)" now1] by simp
  have "dget task2 ''type'' (JStr []) = JStr (mt TASK)" "dget task2 ''caller'' (JStr []) = JStr (self_id T)"
    "dget task2 ''capability'' (JStr []) = sr_capability req" "dget task2 ''id'' (JStr []) = JStr rid"
    by (simp_all add: assms(39) signed_task_type signed_task_get)
  then obtain P1 where P1: "read_loop_step (handle_message G) now2 q l (arrive f2 l P) = (P1, True)"
      "conns P1 l = Some (dp\<lparr>c_last_read := now2, c_sent := c_sent dp @ f3\<rparr>)"
    using receive_task [OF assms(35) w2 assms(40) _ assms(36) okG _ _ _ assms(41,42), of "self_id T" f3 now2]
      assms(5,18,34,44) by auto
  let ?d = "d'\<lparr>c_sent := c_sent d' @ f2\<rparr>"
  let ?r = "signed_result G (JStr rid) out P"
  have q2: "quiet_peer T2 p k ?d" "cache_ok (ed F') T2"
    using assms(4,22) T2 assms(3) by (simp_all add: quiet_peer_def live_peer_def T1)
  have c2: "fst (bump_count (mono F') p (msg_count T2)) \<le> 100"
    using assms(24,26) T2(7) T1(9) by (simp add: bump_count_def dget_dset)
  have wr: "wf_dict ?r" using assms(43) by (intro wf_signed_result) simp
  have rk: "snd (check_result_signature F' p ?r n) = Inr Sig_ok" if "cache_ok (ed F') n" for n
    using result_sig_ok [OF _ that idP(2), of rp] assms(1,4,30) by simp
  obtain T3 where T3: "read_loop_step (handle_message F') now3 p k (arrive f3 k T2) = (T3, True)"
      "map_of (pending_results T3) rid = Some (Some (result_success (JStr rid) (if out = JNull then JObj [] else out)))"
      "conns T3 = (conns T2)(k \<mapsto> ?d\<lparr>c_last_read := now3\<rparr>)" "peers T3 = peers T2" "ident T3 = ident T2" "self_id T3 = self_id T2"
    using receive_result [OF q2(1) wr assms(44) signed_result_get(1) c2 rk q2(2) signed_result_get(2,3) T2(3), of now3]
    by (auto simp: signed_result_get)
  define T3' where "T3' = T3\<lparr>pending_results := dpop rid (pending_results T3)\<rparr>"
  let ?a = "signed_result F' (JStr rtid) answer T"
  have lj: "live_peer T3' b j (d\<lparr>c_last_read := now1\<rparr>)"
    using assms(21,23) T3(3,4) T2(2,4) by (simp add: T3'_def quiet_peer_def live_peer_def T1)
  have sa: "signed_result F' (JStr rtid) answer T3' = ?a"
    using T3(5) T2(5) by (simp add: T3'_def signed_result_def T1)
  have "relay_answer (if out = JNull then JObj [] else out) T3 = answer"
    using T3(6) T2(6) by (simp add: assms(45) relay_answer_def T1)
  then have "relay_wait False rid (JStr target) T3 = (T3', Some answer)"
    using T3(2) by (simp add: relay_wait_def T3'_def result_success_def)
  then have T4: "tracker_resume F' False b task1 rid (JStr target) T3 =
      (T3'\<lparr>conns := (conns T3')(j \<mapsto> d\<lparr>c_last_read := now1, c_sent := c_sent d @ f4\<rparr>)\<rparr>, True)"
    using send_to_live [OF lj, of ?a] assms(46) sa by (simp add: tracker_resume_def task_reply_def g1(4))
  have ans: "answer \<noteq> JNull" "wf_json answer" using assms(43,45) by (auto simp: relay_answer_def)
  have q1: "quiet_peer C1 a i (c\<lparr>c_sent := c_sent c @ f1\<rparr>)" "cache_ok (ed E') C1" "map_of (pending_results C1) rtid = Some None"
    "msg_count C1 = msg_count C"
    using assms(2,8,13) by (simp_all add: C1_def expect_result_def quiet_peer_def live_peer_def cache_ok_def)
  have ra: "snd (check_result_signature E' a ?a n) = Inr Sig_ok" if "cache_ok (ed E') n" for n
    using result_sig_ok [OF _ that idT, of ra] assms(1,2,12) by simp
  have wa: "wf_dict ?a" using ans(2) by (intro wf_signed_result) simp
  obtain C2 where C2: "read_loop_step (handle_message E') now4 a i (arrive f4 i C1) = (C2, True)"
      "map_of (pending_results C2) rtid = Some (Some (result_success (JStr rtid) answer))"
    using receive_result [OF q1(1) wa assms(46) signed_result_get(1) _ ra q1(2) signed_result_get(2,3) q1(3), of now4]
      q1(4) assms(14) ans(1) by (auto simp: signed_result_get)
  have C3: "resume_send E'' created to (Wait_relay tid rtid req) C2 =
      (C2\<lparr>pending_results := dpop rtid (pending_results C2)\<rparr>, Finished (result_success (JStr rtid) answer))"
    using C2(2) by (simp add: resume_send_def take_result_def finish_send_eq result_success_def)
  have "conns C1 i = Some (c\<lparr>c_sent := c_sent c @ f1\<rparr>)" by (simp add: C1_def expect_result_def)
  moreover have "conns T2 k = Some ?d" using T2(2) by simp
  ultimately show ?thesis
    using s r tm P1 T3(1) T4 C2(1) C3 by (intro exI conjI) (assumption | simp)+
qed

definition demo_relay_peer :: node where
  "demo_relay_peer = demo_node\<lparr>ident := identity_of toy_ed [255], self_id := node_id_of toy_ed (identity_of toy_ed [255]),
     task_handler := Some (\<lambda>t. Inr (JStr ''done''))\<rparr>"

lemma demo_relay_ids:
  "take 12 (node_id_of toy_ed (identity_of toy_ed [])) = ''AAAAAAAAAAAA''"
  "take 12 (node_id_of toy_ed (identity_of toy_ed [255])) = ''_wAAAAAAAAAA''"
  "take 4 (node_id_of toy_ed (identity_of toy_ed [255])) = ''_wAA''"
  by code_simp+

theorem task_relayed_witness:
  "\<exists>C T P f1 f2 f3 f4 task1 C1 T2 P1 T3 T4 C2 C3 req answer.
    send_task demo_env (Dec 1000 1) ''t'' ''r'' ''q'' req C = (C1, Wait_relay ''t'' ''r'' req) \<and>
    read_loop_step (\<lambda>a m n. fst (tracker_message demo_env ''s'' a m n)) 100 ''abc@h:1'' 0 (arrive f1 0 T) = (T2, True) \<and>
    read_loop_step (handle_message demo_env) 100 ''abc@h:1'' 0 (arrive f2 0 P) = (P1, True) \<and>
    read_loop_step (handle_message demo_env) 100 ''_wAAAAAAAAAA@g:2'' 1 (arrive f3 1 T2) = (T3, True) \<and>
    tracker_resume demo_env False ''abc@h:1'' task1 ''s'' (JStr ''_wAA'') T3 = (T4, True) \<and>
    read_loop_step (handle_message demo_env) 100 ''AAAAAAAAAAAA@h:1'' 0 (arrive f4 0 C1) = (C2, True) \<and>
    resume_send demo_env (Dec 1000 1) False (Wait_relay ''t'' ''r'' req) C2 = (C3, Finished (result_success (JStr ''r'') answer)) \<and>
    answer = relay_answer (JStr ''done'') T"
proof -
  let ?a = "''AAAAAAAAAAAA@h:1''" and ?p = "''_wAAAAAAAAAA@g:2''"
  let ?c = "new_conn ''h:1'' 0" and ?d = "new_conn ''g:2'' 0"
  let ?C = "demo_node\<lparr>peers := [(?a, 0)], routing := empty_table\<lparr>forwarding := [(JStr ''relay'', [?a])]\<rparr>\<rparr>"
  let ?T = "demo_node\<lparr>conns := [0 \<mapsto> ?c, 1 \<mapsto> ?d], peers := [(''abc@h:1'', 0), (?p, 1)],
      routing := empty_table\<lparr>peer_caps := [(''abc@h:1'', []), (?p, [])]\<rparr>\<rparr>"
  let ?P = demo_relay_peer
  let ?req = "demo_req\<lparr>sr_target := JStr ''_wAA''\<rparr>"
  let ?t1 = "signed_task demo_env ''r'' (JStr []) (JStr ''relay'') (relay_request (JStr ''_wAA'') ?req) ?C"
  let ?t2 = "signed_task demo_env ''s'' (JStr ?p) (sr_capability ?req) (sr_payload ?req) ?T"
  let ?ans = "relay_answer (JStr ''done'') ?T"
  have P: "ident ?P = identity_of toy_ed [255]" "self_id ?P = node_id_of toy_ed (identity_of toy_ed [255])"
    "task_handler ?P = Some (\<lambda>t. Inr (JStr ''done''))" "msg_count ?P = []" "pubkey_cache ?P = []"
    by (simp_all add: demo_relay_peer_def)
  have req: "sr_capability ?req = JStr ''x''" "sr_payload ?req = JNull" "sr_ttl ?req = JInt 60" "sr_target ?req = JStr ''_wAA''"
    by (simp_all add: demo_req_def)
  have n60: "show_nat 60 = ''60''" by code_simp
  obtain f1 where f1: "encode_frame ?t1 = Inr f1"
    using toy_task_fits [of ?C "[]" "JStr []" "JStr ''relay''" "relay_request (JStr ''_wAA'') ?req" "''r''"] req
    by (auto simp: show_int_def n60)
  obtain f2 where f2: "encode_frame ?t2 = Inr f2"
    using toy_task_fits [of ?T "[]" "JStr ?p" "sr_capability ?req" "sr_payload ?req" "''s''"] req by auto
  obtain f3 where f3: "encode_frame (signed_result demo_env (JStr ''s'') (JStr ''done'') ?P) = Inr f3"
    using toy_result_fits [OF P(1), of "JStr ''s''" "JStr ''done''"] by auto
  obtain f4 where f4: "encode_frame (signed_result demo_env (JStr ''r'') ?ans ?T) = Inr f4"
    using toy_result_fits [of ?T "[]" "JStr ''r''" ?ans] by (auto simp: relay_answer_def)
  have o: "own_identity (ed demo_env) ?C" "cache_ok (ed demo_env) ?C" "own_identity (ed demo_env) ?T" "cache_ok (ed demo_env) ?T"
    "own_identity (ed demo_env) ?P" "cache_ok (ed demo_env) ?P" "ed_ok (ed demo_env)"
    using demo_own demo_cache toy_ed_ok P by (auto simp: own_identity_def cache_ok_def)
  have q: "quiet_peer ?C ?a 0 ?c" "quiet_peer ?P ''abc@h:1'' 0 ?c" "quiet_peer ?T ''abc@h:1'' 0 ?c" "quiet_peer ?T ?p 1 ?d"
    using demo_quiet by (simp_all add: quiet_peer_def live_peer_def new_conn_def demo_relay_peer_def)
  have k: "?a = take 12 (self_id ?T) @ ''@'' @ ''h:1''" "?p = take 12 (self_id ?P) @ ''@'' @ ''g:2''"
    "''_wAA'' = take 4 (self_id ?P)" "0 < (4::nat)" "(4::nat) \<le> 12" "(0::nat) \<noteq> 1" "''abc@h:1'' \<noteq> ?p"
    by (simp_all add: P(2) demo_relay_ids)
  have st: "connected ?C" "target_peer (JStr ''_wAA'') ?C = Inr None"
    "find_peer_for (ord_addr demo_env) (JStr ''relay'') (routing ?C) = Inr (Some ?a)"
    "fst (bump_count (mono demo_env) ?a (msg_count ?C)) \<le> 100" "fst (bump_count (mono demo_env) ''abc@h:1'' (msg_count ?T)) \<le> 100"
    "fst (bump_count (mono demo_env) ?p (msg_count ?T)) \<le> 100" "fst (bump_count (mono demo_env) ''abc@h:1'' (msg_count ?P)) \<le> 100"
    by (simp_all add: P connected_def target_peer_def peer_with_id_def peer_addresses_def starts_with_def find_peer_for_def fwd_def
        dget_def bump_count_def)
  have rp: "?p \<in> set (known_peers (routing ?T))" "\<forall>x \<in> set (takeWhile (\<lambda>x. x \<noteq> ?p) (known_peers (routing ?T))). \<not> substring ''_wAA'' x"
    by (simp_all add: known_peers_def starts_with_def)
  have wf: "wf_json (sr_capability ?req)" "wf_json (sr_payload ?req)" "wf_json (sr_ttl ?req)" "sr_capability ?req \<noteq> JStr ''health''"
    "wf_json (JStr ''done'')" "JStr ''done'' \<noteq> JNull"
    by (simp_all add: req)
  have a: "?ans = relay_answer (if JStr ''done'' = JNull then JObj [] else JStr ''done'') ?T" by simp
  note r = task_relayed [OF o(7) refl refl refl refl st(1) o(1,2) req(4) st(2,3) k(1) q(1) st(4) wf(1-4) o(3,4) q(3,4) k(6,7) st(5,6)
      k(3-5,2) rp o(5,6) q(2) st(7) refl f1 refl f2 P(3) refl wf(5) f3 a f4]
  from r [of "Dec 1000 1" "''t''" "''q''" 100 100 100 100 demo_env False] show ?thesis by blast
qed

end
