(* ===== verification/App.thy ===== *)
theory App
  imports Network
begin

text \<open>
  A program built on the library: it makes a node, connects it, registers what it offers,
  installs its handler and runs. The command \<open>serve\<close> and the example programs have this shape;
  what they have in common is proved here.
\<close>

section \<open>Starting a program\<close>

text \<open>The keyword arguments of \<open>Node.register\<close>; an argument that is not given is empty.\<close>

record registration =
  reg_agents :: "string list"
  reg_models :: "string list"
  reg_tools :: "string list"
  reg_agent_details :: "pydict list"
  reg_model_details :: "pydict list"
  reg_tool_details :: "pydict list"

definition no_registration :: registration where
  "no_registration = \<lparr>reg_agents = [], reg_models = [], reg_tools = [],
     reg_agent_details = [], reg_model_details = [], reg_tool_details = []\<rparr>"

definition register_with :: "registration \<Rightarrow> node \<Rightarrow> node \<times> exn option" where
  "register_with r n = register_call (reg_agent_details r) (reg_agents r) (reg_model_details r) (reg_models r)
     (reg_tool_details r) (reg_tools r) n"

text \<open>A handler gets the id of its node and the task.\<close>

type_synonym app_handler = "string \<Rightarrow> task \<Rightarrow> exn + json"

definition setup_app :: "env \<Rightarrow> (string \<Rightarrow> dial_result) \<Rightarrow> nat \<Rightarrow> registration \<Rightarrow> app_handler \<Rightarrow> node \<Rightarrow> node \<times> exn option" where
  "setup_app E net assigned r h n =
     (case node_connect E assigned net n of
        (n1, Some e) \<Rightarrow> (n1, Some e)
      | (n1, None) \<Rightarrow>
          (case register_with r n1 of
             (n2, Some e) \<Rightarrow> (n2, Some e)
           | (n2, None) \<Rightarrow> (set_task_handler (h (self_id n2)) n2, None)))"

text \<open>Down to the loop of \<open>run\<close>; an exception ends the program.\<close>

definition start_app :: "env \<Rightarrow> (string \<Rightarrow> dial_result) \<Rightarrow> nat \<Rightarrow> string \<Rightarrow> registration \<Rightarrow> app_handler \<Rightarrow> node \<Rightarrow>
    node \<times> exn option" where
  "start_app E net assigned eid r h n =
     (case setup_app E net assigned r h n of
        (n1, Some e) \<Rightarrow> (n1, Some e)
      | (n1, None) \<Rightarrow> run_start E eid n1)"

section \<open>Who a program is never changes\<close>

lemma same_identity_dial:
  "same_identity i sid n \<Longrightarrow> dial E net hello a n = (n', r) \<Longrightarrow> same_identity i sid n'"
  using node_ident.P_connect [of i sid n E "mono E" a hello "net a"] by (simp add: dial_def)

lemma same_identity_dial_all:
  "same_identity i sid n \<Longrightarrow> same_identity i sid (fst (dial_all E net hello as n))"
  by (induction as arbitrary: n) (auto dest: same_identity_dial split: prod.split sum.split)

lemma same_identity_dial_each:
  "same_identity i sid n \<Longrightarrow> same_identity i sid (dial_each E net hello as n)"
  by (induction as arbitrary: n) (auto intro: same_identity_dial prod.collapse [symmetric])

lemma same_identity_connect:
  assumes "same_identity i sid n"
  shows "same_identity i sid (fst (node_connect E assigned net n))"
proof -
  have s: "same_identity i sid (begin_connect E assigned n)"
    using assms by (simp add: same_identity_def begin_connect_def start_def on_message_def Let_def)
  have a: "same_identity i sid (announce ok m) = same_identity i sid m" for ok m
    by (simp add: announce_def same_identity_def)
  note d = same_identity_dial [OF s]
  show ?thesis
    by (auto simp: node_connect_def Let_def assms s a split: prod.split sum.split option.split
        intro!: same_identity_dial_each same_identity_dial_all intro: d)
qed

lemma self_id_broadcast: "self_id (broadcast m ex n) = self_id n" "started (broadcast m ex n) = started n"
  using keeps_broadcast [of n m ex] by (simp_all add: keeps_table_def)

lemma same_identity_register:
  "same_identity i sid n \<Longrightarrow> same_identity i sid (fst (node_register ags mds tls n))"
  by (auto simp: same_identity_def node_register_def Let_def self_id_broadcast split: prod.split option.split sum.split)

lemma run_start_keeps:
  "run_start E eid n = (n', x) \<Longrightarrow> ident n' = ident n \<and> self_id n' = self_id n \<and> tracker n' = tracker n \<and>
     task_handler n' = task_handler n \<and> started n' = started n"
  by (auto simp: run_start_def publish_event_def Let_def self_id_broadcast split: if_splits)

lemma same_identity_init:
  "same_identity i (node_id_of e i) (init_node e nm prt prs tr allow ver i verify hb host now q lp)"
  by (simp add: same_identity_def init_node_def Let_def)

section \<open>What a started program is\<close>

definition registered :: "registration \<Rightarrow> json \<Rightarrow> bool" where
  "registered r v \<longleftrightarrow> v = JStr ''health'' \<or>
     list_ex (\<lambda>c. dget c ''name'' JNull = v)
       (chosen_caps (reg_agent_details r) (reg_agents r) @ chosen_caps (reg_model_details r) (reg_models r) @
        chosen_caps (reg_tool_details r) (reg_tools r))"

lemma registered_found:
  assumes "register_with r n = (n', e)" "registered r v"
  shows "has_capability v (tracker n')"
proof -
  let ?as = "chosen_caps (reg_agent_details r) (reg_agents r)" and ?ms = "chosen_caps (reg_model_details r) (reg_models r)"
    and ?ts = "chosen_caps (reg_tool_details r) (reg_tools r)"
  note t = node_register_tracker [OF assms(1) [unfolded register_with_def register_call_def]]
  have "v = JStr ''health'' \<or> list_ex (\<lambda>c. dget c ''name'' JNull = v) ?as \<or> list_ex (\<lambda>c. dget c ''name'' JNull = v) ?ms \<or>
      list_ex (\<lambda>c. dget c ''name'' JNull = v) ?ts"
    using assms(2) by (auto simp: registered_def)
  moreover have "list_ex (\<lambda>c. dget c ''name'' JNull = v) (agents (tracker n'))" if "list_ex (\<lambda>c. dget c ''name'' JNull = v) ?as"
    using that t by auto
  moreover have "list_ex (\<lambda>c. dget c ''name'' JNull = v) (models (tracker n'))" if "list_ex (\<lambda>c. dget c ''name'' JNull = v) ?ms"
    using that t by auto
  moreover have "list_ex (\<lambda>c. dget c ''name'' JNull = v) (tools (tracker n'))"
    if "v = JStr ''health'' \<or> list_ex (\<lambda>c. dget c ''name'' JNull = v) ?ts"
    using that t with_health_ex(1) with_health_ex(2) [of "\<lambda>c. dget c ''name'' JNull = v" ?ts] by auto
  ultimately show ?thesis by (auto simp: has_capability_def)
qed

lemma same_identity_setup:
  assumes "setup_app E net assigned r h n0 = (n, None)" "same_identity i sid n0"
  shows "same_identity i sid n \<and> task_handler n = Some (h sid) \<and> (\<forall>v. registered r v \<longrightarrow> has_capability v (tracker n))"
proof -
  obtain n1 n2 where c: "node_connect E assigned net n0 = (n1, None)" and g: "register_with r n1 = (n2, None)"
    and n: "n = n2\<lparr>task_handler := Some (h (self_id n2))\<rparr>"
    using assms(1) by (auto simp: setup_app_def split: prod.splits option.splits)
  have "same_identity i sid n1" using same_identity_connect [OF assms(2), of E assigned net] c by simp
  then have "same_identity i sid (fst (register_with r n1))"
    unfolding register_with_def register_call_def by (rule same_identity_register)
  then show ?thesis using registered_found [OF g] g n by (simp add: same_identity_def)
qed

text \<open>A program that reaches the loop of \<open>run\<close> is connected, is who it was made as, and offers what it registered.\<close>

lemma app_started:
  assumes "start_app E net assigned eid r h n0 = (n, None)" "same_identity i sid n0"
  shows "connected n \<and> ident n = i \<and> self_id n = sid \<and> task_handler n = Some (h sid) \<and>
    (\<forall>v. registered r v \<longrightarrow> has_capability v (tracker n))"
proof -
  obtain n1 where s: "setup_app E net assigned r h n0 = (n1, None)" and x: "run_start E eid n1 = (n, None)"
    using assms(1) by (auto simp: start_app_def split: prod.splits option.splits)
  have "connected n" using run_start_keeps [OF x] x by (simp add: run_start_def connected_def split: if_splits)
  then show ?thesis
    using same_identity_setup [OF s assms(2)] run_start_keeps [OF x] by (simp add: same_identity_def)
qed

section \<open>Handlers that always answer\<close>

text \<open>
  What the dispatcher relies on for a task to end in a success: the handler does not raise on a
  task that names its caller by a string, as every task with a checked signature does.
\<close>

locale application =
  fixes handler :: app_handler
  assumes answers: "t_caller t = JStr c \<Longrightarrow> \<exists>j. handler own t = Inr j"
begin

lemma app_answers:
  assumes "task_handler n = Some (handler own)" "live_peer n a i c" "snd (check_task_signature E msg n) = Inr Sig_ok"
    "dget msg ''caller'' (JStr []) = JStr cid" "dget msg ''capability'' (JStr []) \<noteq> JStr ''health''"
    "encode_frame (signed_result E (dget msg ''id'' (JStr [])) (projr (handler own (incoming_task E msg))) n) = Inr fr"
  shows "conns (on_task E a msg n) i = Some (c\<lparr>c_sent := c_sent c @ fr\<rparr>)"
proof -
  have "t_caller (incoming_task E msg) = JStr cid" using assms(4) by (simp add: incoming_task_def)
  then obtain j where j: "handler own (incoming_task E msg) = Inr j" using answers by blast
  from task_run [OF assms(3-5,1) j assms(2), of fr] assms(6) show ?thesis by (simp add: j)
qed

end

end
