(* ===== verification/Examples.thy ===== *)
theory Examples
  imports Relay App
begin

text \<open>
  The other programs of the repository: the example nodes \<open>simple-node.py\<close>,
  \<open>hermes-integration.py\<close> and \<open>wan-discovery.py\<close>, and the agent \<open>run_sauron.py\<close>. Each is a node
  with its registration and its handler; what they log and print while they run is left out,
  except for the report of \<open>wan-discovery.py\<close>, which is its purpose. The labels two of them give
  are stored by \<open>Node\<close> and never read.
\<close>

section \<open>The simple node\<close>

definition simple_handler :: app_handler where
  "simple_handler own t = Inr (JObj [(''echo'', t_payload t), (''processed_by'', JStr own)])"

definition simple_main :: "env \<Rightarrow> (string \<Rightarrow> dial_result) \<Rightarrow> nat \<Rightarrow> string \<Rightarrow> privkey \<Rightarrow> string \<Rightarrow> queue_file \<Rightarrow> string option \<Rightarrow>
    node \<times> exn option" where
  "simple_main E net assigned eid fresh env_host q lp =
     start_app E net assigned eid (no_registration\<lparr>reg_agents := [''echo-agent''], reg_tools := [''ping'']\<rparr>) simple_handler
       (init_node (ed E) ''exemplo-python'' 7878 [] ''public'' [] ''0.5.1'' (identity_of (ed E) fresh) True 30 env_host (wall E) q lp)"

text \<open>SIGINT and SIGTERM start a task that disconnects the node.\<close>

definition simple_signal :: "node \<Rightarrow> node" where
  "simple_signal n = node_disconnect n"

section \<open>The bridge to Hermes\<close>

definition hermes_handler :: app_handler where
  "hermes_handler own t = Inr (JObj [(''handled_by'', JStr ''hermes''), (''task_id'', t_id t)])"

definition hermes_registration :: registration where
  "hermes_registration = no_registration
     \<lparr>reg_agent_details := [[(''name'', JStr ''analyst-gpt4o''), (''model'', JStr ''gpt-4o''),
                             (''description'', JStr (''An'' @ [CHR 0xE1] @ ''lise de dados''))]],
      reg_tool_details := [[(''name'', JStr ''web-search''), (''description'', JStr ''Busca na web''), (''version'', JStr ''1.0'')]]\<rparr>"

definition hermes_main :: "env \<Rightarrow> (string \<Rightarrow> dial_result) \<Rightarrow> nat \<Rightarrow> string \<Rightarrow> privkey \<Rightarrow> string \<Rightarrow> queue_file \<Rightarrow> string option \<Rightarrow>
    node \<times> exn option" where
  "hermes_main E net assigned eid fresh env_host q lp =
     start_app E net assigned eid hermes_registration hermes_handler
       (init_node (ed E) ''hermes-worker'' 7878 [] ''public'' [] ''0.5.1'' (identity_of (ed E) fresh) True 30 env_host (wall E) q lp)"

section \<open>Sauron\<close>

text \<open>The log line slices the caller's id, which raises on a value that is not a sequence.\<close>

definition sauron_handler :: "env \<Rightarrow> app_handler" where
  "sauron_handler E own t =
     (if py_truthy (t_caller t) \<and> \<not> sliceable (t_caller t) then Inl TypeErr
      else if t_capability t = JStr ''ping'' then
        Inr (JObj [(''status'', JStr ''ok''), (''message'', JStr ''pong from Sauron''), (''node_id'', JStr (take 12 own))])
      else
        Inr (JObj [(''result'', JStr (''by Sauron: '' @ py_format (repr_text E) (t_capability t))),
                   (''payload'', t_payload t), (''from'', JStr (take 12 own))]))"

definition sauron_registration :: registration where
  "sauron_registration = no_registration\<lparr>reg_agent_details :=
     [[(''name'', JStr ''ping''), (''description'', JStr ''Echo pong responder'')],
      [(''name'', JStr ''hermes''), (''description'', JStr ''Hermes Agent interface'')],
      [(''name'', JStr ''status''), (''description'', JStr ''System status info'')],
      [(''name'', JStr ''agent-info''), (''description'', JStr ''Agent capabilities discovery'')]]\<rparr>"

text \<open>Without a saved identity the program ends with the exception of \<open>load_identity\<close>.\<close>

definition sauron_main :: "env \<Rightarrow> (string \<Rightarrow> dial_result) \<Rightarrow> nat \<Rightarrow> string \<Rightarrow> seed_file \<Rightarrow> string \<Rightarrow> queue_file \<Rightarrow> string option \<Rightarrow>
    exn + (node \<times> exn option)" where
  "sauron_main E net assigned eid dir env_host q lp =
     bindE (load_identity (ed E) dir) (\<lambda>i.
       Inr (start_app E net assigned eid sauron_registration (sauron_handler E)
         (init_node (ed E) ''sauron-elo'' 0 [''100.91.215.113:7878''] ''public'' [] ''0.5.1'' i True 30 env_host (wall E) q lp)))"

section \<open>The test of discovery over the wide area\<close>

definition tester_handler :: app_handler where
  "tester_handler own t = Inr (JObj [(''pong'', t_payload t), (''from'', JStr (take 12 own))])"

definition wan_request :: send_req where
  "wan_request = \<lparr>sr_target = JStr [], sr_capability = JStr ''discovery'', sr_payload = JObj [], sr_ttl = JInt 60, sr_bypass = False\<rparr>"

definition wan_node :: "env \<Rightarrow> privkey \<Rightarrow> string \<Rightarrow> queue_file \<Rightarrow> string option \<Rightarrow> node" where
  "wan_node E fresh env_host q lp =
     init_node (ed E) ''wan-tester'' 0 [''TRACKER_IP:7878''] ''public'' [] ''0.5.1'' (identity_of (ed E) fresh) True 30 env_host (wall E) q lp"

definition wan_setup :: "env \<Rightarrow> (string \<Rightarrow> dial_result) \<Rightarrow> nat \<Rightarrow> node \<Rightarrow> node \<times> exn option" where
  "wan_setup E net assigned n = setup_app E net assigned (no_registration\<lparr>reg_agents := [''ping'']\<rparr>) tester_handler n"

text \<open>Down to the wait for the tracker's answer.\<close>

definition wan_main :: "env \<Rightarrow> (string \<Rightarrow> dial_result) \<Rightarrow> nat \<Rightarrow> privkey \<Rightarrow> string \<Rightarrow> queue_file \<Rightarrow> string option \<Rightarrow>
    pyfloat \<Rightarrow> string \<Rightarrow> string \<Rightarrow> string \<Rightarrow> node \<times> send_state" where
  "wan_main E net assigned fresh env_host q lp created tid rtid qid =
     (case wan_setup E net assigned (wan_node E fresh env_host q lp) of
        (n, Some e) \<Rightarrow> (n, Failed e)
      | (n, None) \<Rightarrow> send_task E created tid rtid qid wan_request n)"

text \<open>The lines of the report, by the values they show.\<close>

datatype wan_line =
    Tracker_line json
  | Peers_line json
  | Peer_line json json
  | Failed_line "(json \<times> json) option"

fun print_peers :: "json list \<Rightarrow> wan_line list \<times> exn option" where
  "print_peers [] = ([], None)"
| "print_peers (p # ps) =
     (case bindE (dict_item p ''addr'') (\<lambda>a. bindE (dict_item p ''caps'') (\<lambda>c. Inr (Peer_line a c))) of
        Inl e \<Rightarrow> ([], Some e)
      | Inr l \<Rightarrow> (case print_peers ps of (ls, e) \<Rightarrow> (l # ls, e)))"

definition wan_report :: "result \<Rightarrow> wan_line list \<times> exn option" where
  "wan_report r =
     (if r_status r = ''success'' then
        (case bindE (py_get (r_payload r) ''known_peers'' (JArr [])) (\<lambda>known.
              bindE (py_get (r_payload r) ''tracker_id'' JNull) (\<lambda>tr.
              bindE (py_get (r_payload r) ''peers_connected'' JNull) (\<lambda>k. Inr (known, [Tracker_line tr, Peers_line k])))) of
           Inl e \<Rightarrow> ([], Some e)
         | Inr (known, ls) \<Rightarrow>
             (case py_iter known of
                Inl e \<Rightarrow> (ls, Some e)
              | Inr ps \<Rightarrow> (case print_peers ps of (ls', e) \<Rightarrow> (ls @ ls', e))))
      else ([Failed_line (r_error r)], None))"

text \<open>An exception while printing ends the program before it disconnects.\<close>

definition wan_end :: "result \<Rightarrow> node \<Rightarrow> node \<times> wan_line list \<times> exn option" where
  "wan_end r n = (case wan_report r of
     (ls, Some e) \<Rightarrow> (n, ls, Some e)
   | (ls, None) \<Rightarrow> (node_disconnect n, ls, None))"

section \<open>The handlers answer\<close>

interpretation simple: application simple_handler
  by unfold_locales (simp add: simple_handler_def)

interpretation hermes: application hermes_handler
  by unfold_locales (simp add: hermes_handler_def)

interpretation tester: application tester_handler
  by unfold_locales (simp add: tester_handler_def)

interpretation sauron: application "sauron_handler E" for E
  by unfold_locales (simp add: sauron_handler_def)

text \<open>After a signal the loop of \<open>run\<close> ends at its next test.\<close>

lemma signal_ends_run: "run_round E (simple_signal n) = (simple_signal n, False)"
proof -
  have "shutdown_event (stop s) = shutdown_event s" for s :: node
    by (rule same_more(17) [OF conjunct1 [OF more_stop]])
  then show ?thesis by (simp add: run_round_def simple_signal_def node_disconnect_def)
qed

section \<open>Properties\<close>

text \<open>
  C36: the Sauron agent. If its program reaches the loop of \<open>run\<close>, its identity was loaded, it is
  connected under that identity's id and offers its four agents and the health check. From then
  on, in any state in which its handler is still installed, a task of a connected peer that
  passes the signature check is answered on the peer's connection with one signed success: the
  pong for \<open>ping\<close>, the name of the capability and the payload for anything else but \<open>health\<close>.
\<close>

theorem sauron_answers:
  assumes "sauron_main E net assigned eid dir env_host q lp = Inr (n, None)"
    and "task_handler n' = task_handler n" "live_peer n' a i c" "snd (check_task_signature F msg n') = Inr Sig_ok"
      "dget msg ''caller'' (JStr []) = JStr cid" "dget msg ''capability'' (JStr []) = cap" "cap \<noteq> JStr ''health''"
      "dget msg ''payload'' (JObj []) = pl"
    and "answer = (if cap = JStr ''ping''
        then JObj [(''status'', JStr ''ok''), (''message'', JStr ''pong from Sauron''), (''node_id'', JStr (take 12 (self_id n)))]
        else JObj [(''result'', JStr (''by Sauron: '' @ py_format (repr_text E) cap)), (''payload'', pl), (''from'', JStr (take 12 (self_id n)))])"
      "encode_frame (signed_result F (dget msg ''id'' (JStr [])) answer n') = Inr fr"
  shows "connected n \<and> load_identity (ed E) dir = Inr (ident n) \<and> self_id n = node_id_of (ed E) (ident n) \<and>
    (\<forall>x \<in> {''ping'', ''hermes'', ''status'', ''agent-info'', ''health''}. has_capability (JStr x) (tracker n)) \<and>
    conns (on_task F a msg n') i = Some (c\<lparr>c_sent := c_sent c @ fr\<rparr>)"
proof -
  obtain k where k: "load_identity (ed E) dir = Inr k"
    "start_app E net assigned eid sauron_registration (sauron_handler E)
       (init_node (ed E) ''sauron-elo'' 0 [''100.91.215.113:7878''] ''public'' [] ''0.5.1'' k True 30 env_host (wall E) q lp) = (n, None)"
    using assms(1) by (auto simp: sauron_main_def bindE_def split: sum.splits)
  note s = app_started [OF k(2) same_identity_init]
  have "registered sauron_registration (JStr x)" if "x \<in> {''ping'', ''hermes'', ''status'', ''agent-info'', ''health''}" for x
    using that by (auto simp: registered_def sauron_registration_def no_registration_def chosen_caps_def dget_def)
  moreover have "projr (sauron_handler E (self_id n) (incoming_task F msg)) = answer"
    using assms(5,6,8,9) by (simp add: sauron_handler_def incoming_task_def)
  then have "conns (on_task F a msg n') i = Some (c\<lparr>c_sent := c_sent c @ fr\<rparr>)"
    using sauron.app_answers [of n' E "self_id n" a i c F msg cid fr] assms(2-7,10) s by simp
  ultimately show ?thesis using s k(1) by blast
qed

text \<open>A dial that is refused leaves a node without peers as it was.\<close>

lemma dial_refused:
  "peers n = [] \<Longrightarrow> CHR ''@'' \<notin> set host \<Longrightarrow> dial E (\<lambda>_. Refused) hello (host @ '':'' @ show_nat p) n = (n, Inr None)"
  using dial_target_announced [of host "tcp_port n" p]
  by (simp add: dial_def connect_to_peer_def peer_addresses_def Let_def)

theorem sauron_answers_witness:
  "\<exists>n fr. sauron_main demo_env (\<lambda>_. Refused) 5 ''e'' (save_identity toy_ed [7] None) [] None None = Inr (n, None) \<and>
    conns (on_task demo_env ''abc@h:1'' [(''caller'', JStr ''abc''), (''capability'', JStr ''ping'')]
      (demo_node\<lparr>task_handler := task_handler n\<rparr>)) 0 = Some ((new_conn ''h:1'' 0)\<lparr>c_sent := fr\<rparr>) \<and>
    encode_frame (signed_result demo_env (JStr []) (JObj [(''status'', JStr ''ok''), (''message'', JStr ''pong from Sauron''),
      (''node_id'', JStr (take 12 (self_id n)))]) (demo_node\<lparr>task_handler := task_handler n\<rparr>)) = Inr fr"
proof -
  let ?s = "start_app demo_env (\<lambda>_. Refused) 5 ''e'' sauron_registration (sauron_handler demo_env)
     (init_node toy_ed ''sauron-elo'' 0 [''100.91.215.113:7878''] ''public'' [] ''0.5.1'' (identity_of toy_ed [7]) True 30 [] 100 None None)"
  have "dig_char 7 = CHR ''7''" "dig_char 8 = CHR ''8''" by code_simp+
  then have w: "show_nat 7878 = ''7878''"
    by (simp add: show_nat.simps [of 7878] show_nat.simps [of 787] show_nat.simps [of 78] show_nat.simps [of 7])
  have d: "dial demo_env (\<lambda>_. Refused) hello ''100.91.215.113:7878'' m = (m, Inr None)" if "peers m = []" for m hello
    using dial_refused [OF that, of "''100.91.215.113''" demo_env hello 7878, unfolded w] by simp
  have "?s = (fst ?s, None)"
    by (simp add: start_app_def setup_app_def register_with_def no_registration_def sauron_registration_def d
      init_node_def node_connect_def begin_connect_def Let_def connected_def start_def name_caps_def
      on_message_def register_call_def chosen_caps_def node_register_def with_health_def health_cap_def register_def new_tracker_def
      caps_def caps_json_def set_local_caps_def dget_def set_local_interests_def py_set_def
      set_interests_def run_start_def publish_event_def broadcast_def cap_names_def item_name_def set_add_def
      set_of_def bindE_def)
  then obtain n where s: "?s = (n, None)" by blast
  have l: "load_identity toy_ed (save_identity toy_ed [7] None) = Inr (identity_of toy_ed [7])"
    using toy_ed_ok by (simp add: load_identity_def save_identity_def ed_ok_def)
  have m: "sauron_main demo_env (\<lambda>_. Refused) 5 ''e'' (save_identity toy_ed [7] None) [] None None = Inr (n, None)"
    using s by (simp add: sauron_main_def l bindE_def)
  let ?n = "demo_node\<lparr>task_handler := task_handler n\<rparr>"
  let ?m = "[(''caller'', JStr ''abc''), (''capability'', JStr ''ping'')]"
  let ?a = "JObj [(''status'', JStr ''ok''), (''message'', JStr ''pong from Sauron''), (''node_id'', JStr (take 12 (self_id n)))]"
  obtain fr where fr: "encode_frame (signed_result demo_env (JStr []) ?a ?n) = Inr fr"
    using toy_result_fits [of ?n "[]" "JStr []" ?a] by (auto simp: min_le_iff_disj)
  have q: "live_peer ?n ''abc@h:1'' 0 (new_conn ''h:1'' 0)" "snd (check_task_signature demo_env ?m ?n) = Inr Sig_ok"
    using demo_quiet by (simp_all add: quiet_peer_def live_peer_def check_task_signature_def dget_def)
  have g: "dget ?m ''id'' (JStr []) = JStr []" "dget ?m ''caller'' (JStr []) = JStr ''abc''"
    "dget ?m ''capability'' (JStr []) = JStr ''ping''" "dget ?m ''payload'' (JObj []) = JObj []" "JStr ''ping'' \<noteq> JStr ''health''"
    by (simp_all add: dget_def)
  have "conns (on_task demo_env ''abc@h:1'' ?m ?n) 0 = Some ((new_conn ''h:1'' 0)\<lparr>c_sent := c_sent (new_conn ''h:1'' 0) @ fr\<rparr>)"
    using sauron_answers [OF m _ q g(2,3,5,4) refl, of fr] fr g(1) by simp
  moreover have "c_sent (new_conn ''h:1'' 0) = []" by (simp add: new_conn_def)
  ultimately show ?thesis using m fr by (intro exI [of _ "n"] exI [of _ fr]) simp
qed

section \<open>The report of the discovery test\<close>

lemma print_entries:
  "print_peers (map (peer_entry F n) ks) =
     (map (\<lambda>k. Peer_line (JStr k) (JArr (ord_val F (fst (get_peer_caps k (routing n)))))) ks, None)"
  by (induction ks) (simp_all add: peer_entry_def dict_item_def split: prod.split)

text \<open>The tracker answers a discovery task at once.\<close>

lemma tracker_discovers:
  assumes "snd (check_task_signature F m n) = Inr Sig_ok" "dget m ''caller'' (JStr []) = JStr cid"
    "dget m ''capability'' (JStr []) = JStr ''discovery''" "live_peer n b j d"
    "encode_frame (signed_result F (dget m ''id'' (JStr [])) (discovery_answer F n) n) = Inr fr"
  shows "\<exists>n'. tracker_task F rid b m n = (n', None) \<and> conns n' = (conns n)(j \<mapsto> d\<lparr>c_sent := c_sent d @ fr\<rparr>)"
proof -
  obtain n1 where k: "check_task_signature F m n = (n1, Inr Sig_ok)" using assms(1) by (cases "check_task_signature F m n") auto
  have e: "n1 = fst (check_task_signature F m n)" by (simp add: k)
  have n1: "conns n1 = conns n" "peers n1 = peers n" "ident n1 = ident n" "self_id n1 = self_id n" "routing n1 = routing n"
    unfolding e using keeps_pubkey [OF keeps_table_refl] by (simp_all add: keeps_table_def)
  have l: "live_peer n1 b j d" using assms(4) n1 by (simp add: live_peer_def)
  have "peer_entry F n1 = peer_entry F n" using n1(5) by (simp add: peer_entry_def fun_eq_iff)
  then have a: "discovery_answer F n1 = discovery_answer F n" using n1(4,5) by (simp add: discovery_answer_def get_known_peers_def)
  have r: "signed_result F t out n1 = signed_result F t out n" for t out using n1(3) by (simp add: signed_result_def)
  have "tracker_task F rid b m n = (task_reply F b m (Inr (discovery_answer F n)) n1, None)"
    using k assms(2,3) by (simp add: tracker_task_def tracker_handle_def incoming_task_def a Let_def)
  then show ?thesis
    using send_to_live [OF l, of "signed_result F (dget m ''id'' (JStr [])) (discovery_answer F n) n"] assms(5) n1(1)
    by (simp add: task_reply_def r)
qed

text \<open>
  C37: the test of discovery prints what the tracker knows. The tester's task reaches the tracker,
  whose read loop takes it through the dispatcher within the rate limit; it is checked and
  answered with the tracker's peers; the tester reads the answer, prints the
  tracker's id, the number of peers and a line with the address and the capabilities of each
  peer the tracker knows, in its order, and disconnects. All bytes are followed over both
  connections.
\<close>

theorem wan_test_lists_peers:
  assumes "ed_ok (ed E)" "ed E' = ed E" "ed F = ed E"
    and "connected A" "own_identity (ed E) A" "cache_ok (ed E) A" "find_peer_for (ord_addr E) (JStr ''discovery'') (routing A) = Inr (Some a)"
      "a = take 12 idT @ ''@'' @ ra" "CHR ''@'' \<notin> set idT" "quiet_peer A a i c" "fst (bump_count (mono E') a (msg_count A)) \<le> 100"
    and "cache_ok (ed E) T" "quiet_peer T b j d" "fst (bump_count (mono F) b (msg_count T)) \<le> 100"
    and "task = signed_task E tid (JStr []) (JStr ''discovery'') (JObj []) A" "encode_frame task = Inr f1"
      "wf_json (discovery_answer F T)" "encode_frame (signed_result F (JStr tid) (discovery_answer F T) T) = Inr f2"
  shows "\<exists>A1 T2 A2 A3 A4 r.
    (\<forall>net assigned fresh env_host q lp. wan_setup E net assigned (wan_node E fresh env_host q lp) = (A, None) \<longrightarrow>
       wan_main E net assigned fresh env_host q lp created tid rtid qid = (A1, Wait_result tid wan_request)) \<and>
    send_task E created tid rtid qid wan_request A = (A1, Wait_result tid wan_request) \<and> conns A1 i = Some (c\<lparr>c_sent := c_sent c @ f1\<rparr>) \<and>
    read_loop_step (\<lambda>a m n. fst (tracker_message F rid a m n)) now1 b j (arrive f1 j T) = (T2, True) \<and>
    conns T2 j = Some (d\<lparr>c_last_read := now1, c_sent := c_sent d @ f2\<rparr>) \<and>
    read_loop_step (handle_message E') now2 a i (arrive f2 i A1) = (A2, True) \<and>
    resume_send E'' created to (Wait_result tid wan_request) A2 = (A3, Finished r) \<and>
    wan_end r A3 = (A4, Tracker_line (JStr (take 16 (self_id T))) # Peers_line (JInt (int (length (known_peers (routing T))))) #
      map (\<lambda>k. Peer_line (JStr k) (JArr (ord_val F (fst (get_peer_caps k (routing T)))))) (known_peers (routing T)), None) \<and>
    peers A4 = [] \<and> \<not> listening A4"
proof -
  define A1 where "A1 = expect_result tid (A\<lparr>conns := (conns A)(i \<mapsto> c\<lparr>c_sent := c_sent c @ f1\<rparr>)\<rparr>)"
  define T1 where "T1 = count_message (mono F) b (JStr (mt TASK)) (T\<lparr>conns := (conns T)(j \<mapsto> d\<lparr>c_last_read := now1\<rparr>)\<rparr>)"
  let ?ans = "discovery_answer F T"
  have T1: "routing T1 = routing T" "self_id T1 = self_id T" "ident T1 = ident T" "peers T1 = peers T"
    "conns T1 = (conns T)(j \<mapsto> d\<lparr>c_last_read := now1\<rparr>)" "cache_ok e T1 = cache_ok e T" for e
    unfolding T1_def count_fields by (simp_all add: cache_ok_def)
  have w1: "wf_dict task" unfolding assms(15) by (rule wf_signed_task) simp_all
  have s: "send_task E created tid rtid qid wan_request A = (A1, Wait_result tid wan_request)"
    using send_starts [OF assms(4), of E wan_request a i c tid f1 created rtid qid] assms(7,10,15,16)
    by (simp add: A1_def sends_to_def wan_request_def quiet_peer_def)
  have ok: "snd (check_task_signature F task T1) = Inr Sig_ok"
    unfolding assms(15) by (rule honest_check) (use assms(1,3,5,12) T1(6) in simp_all)
  have g: "dget task ''caller'' (JStr []) = JStr (self_id A)" "dget task ''capability'' (JStr []) = JStr ''discovery''"
    "dget task ''id'' (JStr []) = JStr tid"
    by (simp_all add: assms(15) signed_task_type signed_task_get)
  have l: "live_peer T1 b j (d\<lparr>c_last_read := now1\<rparr>)" using assms(13) by (simp add: quiet_peer_def live_peer_def T1)
  have "peer_entry F T1 = peer_entry F T" using T1(1) by (simp add: peer_entry_def fun_eq_iff)
  then have a: "discovery_answer F T1 = ?ans" using T1(1,2) by (simp add: discovery_answer_def get_known_peers_def)
  have sr: "signed_result F t out T1 = signed_result F t out T" for t out using T1(3) by (simp add: signed_result_def)
  obtain T2 where T2: "tracker_task F rid b task T1 = (T2, None)" "conns T2 = (conns T1)(j \<mapsto> d\<lparr>c_last_read := now1, c_sent := c_sent d @ f2\<rparr>)"
    using tracker_discovers [OF ok g(1,2) l, of f2 rid] assms(18) by (auto simp: g(3) a sr)
  have "tracker_message F rid b (JObj task) (T\<lparr>conns := (conns T)(j \<mapsto> d\<lparr>c_last_read := now1\<rparr>)\<rparr>) = ((T2, None), None)"
    by (rule tracker_counted) (use assms(14,15) T2(1) signed_task_type(1) T1_def in simp_all)
  then have r: "read_loop_step (\<lambda>a m n. fst (tracker_message F rid a m n)) now1 b j (arrive f1 j T) = (T2, True)"
    using read_arrived_by [OF assms(13) w1 assms(16), of "\<lambda>a m n. fst (tracker_message F rid a m n)" now1] by simp
  have ne: "?ans \<noteq> JNull" by (simp add: discovery_answer_def)
  let ?r = "signed_result F (JStr tid) ?ans T" and ?c = "c\<lparr>c_sent := c_sent c @ f1\<rparr>"
  have q: "quiet_peer A1 a i ?c" "cache_ok (ed E') A1" "map_of (pending_results A1) tid = Some None" "msg_count A1 = msg_count A"
    using assms(2,6,10) by (simp_all add: A1_def expect_result_def quiet_peer_def live_peer_def cache_ok_def)
  have wr: "wf_dict ?r" using assms(17) by (intro wf_signed_result) simp
  have rk: "snd (check_result_signature E' a ?r n) = Inr Sig_ok" if "cache_ok (ed E') n" for n
    using result_sig_ok [OF _ that assms(9), of ra] assms(1,2,8) by simp
  obtain A2 where A2: "read_loop_step (handle_message E') now2 a i (arrive f2 i A1) = (A2, True)"
      "map_of (pending_results A2) tid = Some (Some (result_success (JStr tid) ?ans))"
    using receive_result [OF q(1) wr assms(18) signed_result_get(1) _ rk q(2) signed_result_get(2,3) q(3), of now2] q(4) assms(11) ne
    by (auto simp: signed_result_get)
  define A3 where "A3 = A2\<lparr>pending_results := dpop tid (pending_results A2)\<rparr>"
  have A3: "resume_send E'' created to (Wait_result tid wan_request) A2 = (A3, Finished (result_success (JStr tid) ?ans))"
    using A2(2) by (simp add: resume_send_def take_result_def finish_send_eq result_success_def A3_def)
  have "wan_report (result_success (JStr tid) ?ans) =
      (Tracker_line (JStr (take 16 (self_id T))) # Peers_line (JInt (int (length (known_peers (routing T))))) #
       map (\<lambda>k. Peer_line (JStr k) (JArr (ord_val F (fst (get_peer_caps k (routing T)))))) (known_peers (routing T)), None)"
    by (simp add: wan_report_def result_success_def discovery_answer_def get_known_peers_def print_entries dget_def bindE_def)
  then have w: "wan_end (result_success (JStr tid) ?ans) A3 = (node_disconnect A3,
      Tracker_line (JStr (take 16 (self_id T))) # Peers_line (JInt (int (length (known_peers (routing T))))) #
       map (\<lambda>k. Peer_line (JStr k) (JArr (ord_val F (fst (get_peer_caps k (routing T)))))) (known_peers (routing T)), None)"
    by (simp add: wan_end_def)
  have m: "\<forall>net assigned fresh env_host q lp. wan_setup E net assigned (wan_node E fresh env_host q lp) = (A, None) \<longrightarrow>
      wan_main E net assigned fresh env_host q lp created tid rtid qid = (A1, Wait_result tid wan_request)"
    using s by (simp add: wan_main_def)
  have "conns A1 i = Some ?c" "conns T2 j = Some (d\<lparr>c_last_read := now1, c_sent := c_sent d @ f2\<rparr>)"
    "peers (node_disconnect A3) = []" "\<not> listening (node_disconnect A3)"
    using T2(2) by (simp_all add: A1_def expect_result_def node_disconnect_def stop_def)
  then show ?thesis using m s r A2(1) A3 w by blast
qed

theorem wan_test_lists_peers_witness:
  "\<exists>A T f1 f2 A1 T2 A2 A3 A4 r.
    send_task demo_env (Dec 1000 1) ''t'' ''r'' ''q'' wan_request A = (A1, Wait_result ''t'' wan_request) \<and>
    read_loop_step (\<lambda>a m n. fst (tracker_message demo_env ''s'' a m n)) 100 ''abc@h:1'' 0 (arrive f1 0 T) = (T2, True) \<and>
    read_loop_step (handle_message demo_env) 100 ''abc@h:1'' 0 (arrive f2 0 A1) = (A2, True) \<and>
    resume_send demo_env (Dec 1000 1) False (Wait_result ''t'' wan_request) A2 = (A3, Finished r) \<and>
    wan_end r A3 = (A4, [Tracker_line (JStr (take 16 (self_id (T::node)))), Peers_line (JInt 1),
      Peer_line (JStr ''xyz@g:2'') (JArr [JStr ''ping''])], None)"
proof -
  let ?A = "demo_node\<lparr>routing := empty_table\<lparr>forwarding := [(JStr ''discovery'', [''abc@h:1''])]\<rparr>\<rparr>"
  let ?T = "demo_node\<lparr>routing := empty_table\<lparr>peer_caps := [(''xyz@g:2'', [JStr ''ping''])]\<rparr>\<rparr>"
  let ?c = "new_conn ''h:1'' 0" and ?task = "signed_task demo_env ''t'' (JStr []) (JStr ''discovery'') (JObj []) ?A"
  have p: "known_peers (routing ?T) = [''xyz@g:2'']" "get_peer_caps ''xyz@g:2'' (routing ?T) = ([JStr ''ping''], [])"
    by (simp_all add: known_peers_def get_peer_caps_def dget_def empty_table_def)
  have a: "discovery_answer demo_env ?T = JObj [(''tracker_id'', JStr (take 16 (self_id ?T))), (''peers_connected'', JInt 1),
      (''known_peers'', JArr [JObj [(''addr'', JStr ''xyz@g:2''), (''node_id'', JStr (id_prefix ''xyz@g:2'')),
         (''caps'', JArr [JStr ''ping'']), (''interests'', JArr [])]]), (''local_caps'', JArr [])]"
    using p by (simp add: discovery_answer_def get_known_peers_def peer_entry_def) (simp add: empty_table_def)
  have n1: "show_nat (Suc 0) = ''1''" by code_simp
  have ip: "id_prefix ''xyz@g:2'' = ''xyz''" by (simp add: id_prefix_def first_field_def)
  obtain f1 where f1: "encode_frame ?task = Inr f1" using toy_task_fits [of ?A "[]" "JStr []" "JStr ''discovery''" "JObj []" "''t''"] by auto
  obtain f2 where f2: "encode_frame (signed_result demo_env (JStr ''t'') (discovery_answer demo_env ?T) ?T) = Inr f2"
    using toy_result_fits [of ?T "[]" "JStr ''t''" "discovery_answer demo_env ?T"] unfolding a ip
    by (auto simp: show_int_def n1 min_le_iff_disj)
  have o: "own_identity (ed demo_env) ?A" "cache_ok (ed demo_env) ?A" "cache_ok (ed demo_env) ?T" "ed_ok (ed demo_env)"
    using demo_own demo_cache toy_ed_ok by (simp_all add: own_identity_def cache_ok_def)
  have q: "quiet_peer ?A ''abc@h:1'' 0 ?c" "quiet_peer ?T ''abc@h:1'' 0 ?c"
    using demo_quiet by (simp_all add: quiet_peer_def live_peer_def)
  have st: "connected ?A" "find_peer_for (ord_addr demo_env) (JStr ''discovery'') (routing ?A) = Inr (Some ''abc@h:1'')"
    "''abc@h:1'' = take 12 ''abc'' @ ''@'' @ ''h:1''" "CHR ''@'' \<notin> set ''abc''"
    "fst (bump_count (mono demo_env) ''abc@h:1'' (msg_count ?A)) \<le> 100" "wf_json (discovery_answer demo_env ?T)"
    "fst (bump_count (mono demo_env) ''abc@h:1'' (msg_count ?T)) \<le> 100"
    unfolding a by (simp_all add: connected_def find_peer_for_def fwd_def dget_def bump_count_def)
  note r = wan_test_lists_peers [OF o(4) refl refl st(1) o(1,2) st(2-4) q(1) st(5) o(3) q(2) st(7) refl f1 st(6) f2]
  have rp: "map (\<lambda>k. Peer_line (JStr k) (JArr (ord_val demo_env (fst (get_peer_caps k (routing ?T)))))) (known_peers (routing ?T)) =
      [Peer_line (JStr ''xyz@g:2'') (JArr [JStr ''ping''])]" "int (length (known_peers (routing ?T))) = 1"
    unfolding p(1) by (simp_all only: list.map p(2) fst_conv demo_env length_Cons list.size(3) of_nat_Suc of_nat_0 add_0_left)
  obtain A1 T2 A2 A3 A4 q where
    "send_task demo_env (Dec 1000 1) ''t'' ''r'' ''q'' wan_request ?A = (A1, Wait_result ''t'' wan_request)"
    "read_loop_step (\<lambda>a m n. fst (tracker_message demo_env ''s'' a m n)) 100 ''abc@h:1'' 0 (arrive f1 0 ?T) = (T2, True)"
    "read_loop_step (handle_message demo_env) 100 ''abc@h:1'' 0 (arrive f2 0 A1) = (A2, True)"
    "resume_send demo_env (Dec 1000 1) False (Wait_result ''t'' wan_request) A2 = (A3, Finished q)"
    "wan_end q A3 = (A4, [Tracker_line (JStr (take 16 (self_id ?T))), Peers_line (JInt 1),
      Peer_line (JStr ''xyz@g:2'') (JArr [JStr ''ping''])], None)"
    using r [of "Dec 1000 1" "''r''" "''q''" "''s''" 100 100 demo_env False] unfolding rp by blast
  then show ?thesis by blast
qed

end
