(* ===== verification/Cli.thy ===== *)
theory Cli
  imports App
begin

text \<open>
  \<open>elo/__main__.py\<close>: the command line. A command is a function from the key directory to the
  lines it prints; \<open>serve\<close> builds a node, connects it, registers its agent and installs the
  echo handler; \<open>main\<close> reads the options and picks the command. The hash function, the path of the
  directory and a freshly generated key are arguments.
\<close>

section \<open>Text\<close>

definition to_hex :: "byte list \<Rightarrow> string" where
  "to_hex bs = concat (map (\<lambda>b. [hex_digit (unat b div 16), hex_digit (unat b mod 16)]) bs)"

fun py_split :: "char \<Rightarrow> string \<Rightarrow> string list" where
  "py_split c [] = [[]]"
| "py_split c (x # xs) =
     (if x = c then [] # py_split c xs
      else (case py_split c xs of [] \<Rightarrow> [[x]] | f # fs \<Rightarrow> (x # f) # fs))"

definition short_id :: "(byte list \<Rightarrow> string) \<Rightarrow> string \<Rightarrow> string" where
  "short_id sha node_id = take 12 node_id @ ''... (sha256:'' @ take 16 (sha (utf8_encode node_id)) @ '')''"

section \<open>Identity commands\<close>

text \<open>The identity a command shows: the saved one, or a new one when none can be loaded.\<close>

definition current_identity :: "ed25519 \<Rightarrow> seed_file \<Rightarrow> privkey \<Rightarrow> identity \<times> bool" where
  "current_identity e dir fresh =
     (case load_identity e dir of Inr i \<Rightarrow> (i, True) | Inl _ \<Rightarrow> (identity_of e fresh, False))"

definition cmd_id :: "ed25519 \<Rightarrow> seed_file \<Rightarrow> privkey \<Rightarrow> string list" where
  "cmd_id e dir fresh = [node_id_of e (fst (current_identity e dir fresh))]"

definition cmd_pubkey :: "ed25519 \<Rightarrow> seed_file \<Rightarrow> privkey \<Rightarrow> string list" where
  "cmd_pubkey e dir fresh =
     (let i = fst (current_identity e dir fresh) in
      [''node_id (b64):  '' @ node_id_of e i,
       ''public (hex):   '' @ to_hex (ed_raw e (public_key i)),
       ''algorithm:      ed25519''])"

definition cmd_status :: "ed25519 \<Rightarrow> (byte list \<Rightarrow> string) \<Rightarrow> string \<Rightarrow> seed_file \<Rightarrow> privkey \<Rightarrow> string list" where
  "cmd_status e sha path dir fresh =
     (let (i, persisted) = current_identity e dir fresh;
          nid = node_id_of e i; bar = replicate 52 (CHR ''=''); rule = replicate 52 (CHR ''-'')
      in [bar, ''  ELO NODE STATUS'', bar,
          ''  Node ID:    '' @ nid,
          ''  Hash:       '' @ short_id sha nid,
          rule, ''  Algorithm:  ed25519'', rule,
          ''  Public key (hex):'', ''  '' @ to_hex (ed_raw e (public_key i)),
          ''  Public key (b64):'', ''  '' @ nid, rule]
         @ (if persisted
            then [''  Persisted:  '' @ path, ''  Saved ID:   '' @ nid]
            else [''  Persisted:  no (ephemeral)'',
                  ''  Use '' @ [CHR 0x27] @ ''python -m elo init'' @ [CHR 0x27] @ '' to save'',
                  ''  Default dir: '' @ path])
         @ [bar])"

definition cmd_init :: "ed25519 \<Rightarrow> (byte list \<Rightarrow> string) \<Rightarrow> string \<Rightarrow> privkey \<Rightarrow> seed_file \<Rightarrow> string list \<times> seed_file" where
  "cmd_init e sha path fresh dir =
     (case generate_and_save_identity e fresh dir of ((pub, priv), dir') \<Rightarrow>
       (let nid = pubkey_to_id e pub in
        ([''Identity generated and saved to: '' @ path,
          ''  identity.seed -- ed25519 private key'',
          [],
          ''Node ID: '' @ nid,
          ''Hash:    '' @ short_id sha nid,
          [],
          ''!! Keep identity.seed safe -- it is your node'' @ [CHR 0x27] @ ''s identity.'',
          ''   Without it, peers will not recognize this node after restart.''], dir')))"

section \<open>Serving\<close>

record serve_args =
  sa_name :: string
  sa_port :: int
  sa_peers :: "string option"
  sa_tracker :: "string option"

definition peers_of_args :: "serve_args \<Rightarrow> string list" where
  "peers_of_args args = (case sa_peers args of
     None \<Rightarrow> []
   | Some s \<Rightarrow> if s = [] then [] else map py_strip (py_split (CHR '','') s))"

definition tracker_of_args :: "serve_args \<Rightarrow> string" where
  "tracker_of_args args = (case sa_tracker args of None \<Rightarrow> ''public'' | Some t \<Rightarrow> if t = [] then ''public'' else t)"

definition served_node :: "env \<Rightarrow> serve_args \<Rightarrow> seed_file \<Rightarrow> privkey \<Rightarrow> string \<Rightarrow> queue_file \<Rightarrow> string option \<Rightarrow> node" where
  "served_node E args dir fresh env_host q lp =
     init_node (ed E) (sa_name args) (nat (sa_port args)) (peers_of_args args) (tracker_of_args args) [] ''0.5.1''
       (fst (current_identity (ed E) dir fresh)) True 30 env_host (wall E) q lp"

definition echo_handler :: app_handler where
  "echo_handler own t = Inr (JObj [(''echo'', t_payload t), (''from'', JStr own)])"

text \<open>
  \<open>_serve\<close> down to the loop of \<open>run\<close>; an exception ends the program. A number that is no port makes
  the bind of the server raise.
\<close>

definition cmd_serve :: "env \<Rightarrow> (string \<Rightarrow> dial_result) \<Rightarrow> nat \<Rightarrow> string \<Rightarrow> serve_args \<Rightarrow> seed_file \<Rightarrow> privkey \<Rightarrow>
    string \<Rightarrow> queue_file \<Rightarrow> string option \<Rightarrow> exn + (node \<times> exn option)" where
  "cmd_serve E net assigned eid args dir fresh env_host q lp =
     (if sa_port args < 0 \<or> 65535 < sa_port args then Inl OverflowErr
      else Inr (start_app E net assigned eid (no_registration\<lparr>reg_agents := [sa_name args @ ''-agent'']\<rparr>) echo_handler
                  (served_node E args dir fresh env_host q lp)))"

section \<open>The command line\<close>

text \<open>\<open>int(s)\<close>: space around, a sign, digits, single underscores between digits.\<close>

definition py_int_signed :: "string \<Rightarrow> int option" where
  "py_int_signed s =
     (let t = py_strip s;
          neg = starts_with t ''-'';
          u = (if neg \<or> starts_with t ''+'' then tl t else t);
          groups = py_split (CHR ''_'') u
      in if list_all (\<lambda>g. g \<noteq> [] \<and> list_all is_dig g) groups
         then Some ((if neg then -1 else 1) * int (val_digits (concat groups))) else None)"

definition serve_defaults :: serve_args where
  "serve_defaults = \<lparr>sa_name = ''elo-node'', sa_port = 7878, sa_peers = None, sa_tracker = None\<rparr>"

fun serve_option :: "string \<times> string \<Rightarrow> serve_args \<Rightarrow> serve_args option" where
  "serve_option (opt, v) a =
     (if opt = ''--name'' then Some (a\<lparr>sa_name := v\<rparr>)
      else if opt = ''--port'' then map_option (\<lambda>p. a\<lparr>sa_port := p\<rparr>) (py_int_signed v)
      else if opt = ''--peers'' then Some (a\<lparr>sa_peers := Some v\<rparr>)
      else if opt = ''--tracker'' then Some (a\<lparr>sa_tracker := Some v\<rparr>)
      else None)"

text \<open>The options in the order given; a later one replaces an earlier one.\<close>

fun serve_options :: "(string \<times> string) list \<Rightarrow> serve_args \<Rightarrow> serve_args option" where
  "serve_options [] a = Some a"
| "serve_options (ov # ovs) a = Option.bind (serve_option ov a) (serve_options ovs)"

text \<open>
  A command line, split by \<open>argparse\<close> into the command and its options with their values. A
  usage error, an unknown command for one, ends the program with status 2.
\<close>

type_synonym command_line = "(string \<times> (string \<times> string) list) option"

datatype cli_result =
    Printed "string list"
  | Saved "string list" seed_file
  | Serving "exn + (node \<times> exn option)"
  | Help
  | Usage_error

definition main :: "env \<Rightarrow> (string \<Rightarrow> dial_result) \<Rightarrow> nat \<Rightarrow> string \<Rightarrow> (byte list \<Rightarrow> string) \<Rightarrow> string \<Rightarrow> seed_file \<Rightarrow> privkey \<Rightarrow>
    string \<Rightarrow> queue_file \<Rightarrow> string option \<Rightarrow> command_line \<Rightarrow> cli_result" where
  "main E net assigned eid sha path dir fresh env_host q lp line =
     (case line of
        None \<Rightarrow> Help
      | Some (command, options) \<Rightarrow>
          if command = ''serve'' then
            (case serve_options options serve_defaults of
               None \<Rightarrow> Usage_error
             | Some args \<Rightarrow> Serving (cmd_serve E net assigned eid args dir fresh env_host q lp))
          else if options \<noteq> [] then Usage_error
          else if command = ''status'' then Printed (cmd_status (ed E) sha path dir fresh)
          else if command = ''id'' then Printed (cmd_id (ed E) dir fresh)
          else if command = ''pubkey'' then Printed (cmd_pubkey (ed E) dir fresh)
          else if command = ''init'' then (case cmd_init (ed E) sha path fresh dir of (out, dir') \<Rightarrow> Saved out dir')
          else Usage_error)"

text \<open>A port written in decimal is read back, and the last of two options counts.\<close>

lemma py_split_none: "c \<notin> set s \<Longrightarrow> py_split c s = [s]"
  by (induction s) auto

lemma py_int_signed_nat: "py_int_signed (show_nat p) = Some (int p)"
proof -
  have d: "list_all is_dig (show_nat p)" "show_nat p \<noteq> []" by (auto simp: list_all_iff dest: show_nat_digits)
  then have h: "is_dig (hd (show_nat p))" "is_dig (last (show_nat p))" by (auto simp: list_all_iff)
  then have "\<not> py_space (hd (show_nat p))" "\<not> py_space (last (show_nat p))"
    by (auto simp: is_dig_def py_space_def Let_def)
  then have s: "py_strip (show_nat p) = show_nat p" using d(2) by (intro py_strip_id)
  have n: "\<not> starts_with (show_nat p) ''-''" "\<not> starts_with (show_nat p) ''+''" "CHR ''_'' \<notin> set (show_nat p)"
    using h(1) d by (cases "show_nat p"; auto simp: starts_with_def list_all_iff is_dig_def)+
  show ?thesis using d s n by (simp add: py_int_signed_def py_split_none)
qed

lemma serve_options_append:
  "serve_options (xs @ ys) a = Option.bind (serve_options xs a) (serve_options ys)"
proof (induction xs arbitrary: a)
  case (Cons ov xs)
  then show ?case by (cases "serve_option ov a") simp_all
qed simp

lemma port_option:
  "serve_options (xs @ [(''--port'', show_nat p)]) serve_defaults =
   map_option (\<lambda>a. a\<lparr>sa_port := int p\<rparr>) (serve_options xs serve_defaults)"
  by (cases "serve_options xs serve_defaults") (simp_all add: serve_options_append py_int_signed_nat)

interpretation echo: application echo_handler
  by unfold_locales (simp add: echo_handler_def)

lemma current_identity_saved:
  "ed_ok e \<Longrightarrow> current_identity e (save_identity e sk dir) fresh = (identity_of e sk, True)"
  by (simp add: current_identity_def load_identity_def save_identity_def ed_ok_def)

section \<open>Properties\<close>

text \<open>
  The identity that \<open>init\<close> creates is the one every later command shows. \<open>init\<close> prints the
  node id of the fresh key and saves it; a later run of the program with \<open>id\<close>, \<open>pubkey\<close> or
  \<open>status\<close> prints the same id and \<open>status\<close> reports it as persisted, whatever key it would
  generate itself.
\<close>

lemma saved_identity_shown:
  assumes "ed_ok (ed E)" "ed E' = ed E" "nid = node_id_of (ed E) (identity_of (ed E) fresh)"
    "main E net assigned eid sha path dir fresh env_host q lp (Some (''init'', [])) = Saved out dir'"
    "again = (\<lambda>c. main E' net' assigned' eid' sha path dir' other env_host' q' lp' (Some (c, [])))"
  shows "''Node ID: '' @ nid \<in> set out \<and> again ''id'' = Printed [nid] \<and>
    (\<exists>ls. again ''pubkey'' = Printed ls \<and> ''node_id (b64):  '' @ nid \<in> set ls) \<and>
    (\<exists>ls. again ''status'' = Printed ls \<and> {''  Node ID:    '' @ nid, ''  Persisted:  '' @ path} \<subseteq> set ls)"
proof -
  have i: "cmd_init (ed E) sha path fresh dir = (out, dir')" using assms(4) by (simp add: main_def split: prod.splits)
  have d: "dir' = save_identity (ed E) fresh dir" and o: "''Node ID: '' @ nid \<in> set out"
    using i assms(3) by (auto simp: cmd_init_def generate_and_save_identity_def Let_def node_id_of_def identity_of_def)
  have c: "current_identity (ed E') dir' other = (identity_of (ed E) fresh, True)"
    using current_identity_saved [OF assms(1), of fresh dir other] assms(2) d by simp
  have "again ''id'' = Printed [nid]" using c assms(2,3,5) by (simp add: main_def cmd_id_def)
  moreover have "\<exists>ls. again ''pubkey'' = Printed ls \<and> ''node_id (b64):  '' @ nid \<in> set ls"
    using c assms(2,3,5) by (simp add: main_def cmd_pubkey_def Let_def)
  moreover have "\<exists>ls. again ''status'' = Printed ls \<and> {''  Node ID:    '' @ nid, ''  Persisted:  '' @ path} \<subseteq> set ls"
    using c assms(2,3,5) by (simp add: main_def cmd_status_def Let_def)
  ultimately show ?thesis using o by blast
qed

text \<open>
  C35: what \<open>serve\<close> starts. The last of the port options counts; a number outside the range of ports
  ends the program. Otherwise, whatever the network does while it connects, once \<open>serve\<close> reaches
  the loop of \<open>run\<close> the node is connected under the node id of the saved identity (of the fresh
  one when none loads), has the agent named after it and the health check, and answers a task
  for any other capability with the task's payload and its own id.
\<close>

theorem served_node_echoes:
  assumes "serve_options opts serve_defaults = Some args"
    "main E net assigned eid sha path dir fresh env_host q lp (Some (''serve'', opts @ [(''--port'', show_nat p)])) = Serving r"
    "dget msg ''capability'' (JStr []) \<noteq> JStr ''health''"
  shows "(65535 < p \<longrightarrow> r = Inl OverflowErr) \<and>
    (\<forall>n. r = Inr (n, None) \<longrightarrow>
      connected n \<and> self_id n = node_id_of (ed E) (fst (current_identity (ed E) dir fresh)) \<and>
      has_capability (JStr (sa_name args @ ''-agent'')) (tracker n) \<and> has_capability (JStr ''health'') (tracker n) \<and>
      run_task E msg n = Inr (JObj [(''echo'', dget msg ''payload'' (JObj [])), (''from'', JStr (self_id n))]))"
proof -
  let ?a = "args\<lparr>sa_port := int p\<rparr>" and ?i = "fst (current_identity (ed E) dir fresh)"
  let ?r = "no_registration\<lparr>reg_agents := [sa_name args @ ''-agent'']\<rparr>"
  have r: "r = cmd_serve E net assigned eid ?a dir fresh env_host q lp"
    using assms(1,2) port_option [of opts p] by (simp add: main_def)
  have "connected n \<and> self_id n = node_id_of (ed E) ?i \<and> has_capability (JStr (sa_name args @ ''-agent'')) (tracker n) \<and>
      has_capability (JStr ''health'') (tracker n) \<and>
      run_task E msg n = Inr (JObj [(''echo'', dget msg ''payload'' (JObj [])), (''from'', JStr (self_id n))])"
    if "r = Inr (n, None)" for n
  proof -
    have s: "start_app E net assigned eid ?r echo_handler (served_node E ?a dir fresh env_host q lp) = (n, None)"
      using that r by (simp add: cmd_serve_def split: if_splits)
    have "registered ?r (JStr (sa_name args @ ''-agent''))" "registered ?r (JStr ''health'')"
      by (simp_all add: registered_def chosen_caps_def no_registration_def name_caps_def dget_def)
    then show ?thesis
      using app_started [OF s, of ?i "node_id_of (ed E) ?i"] same_identity_init [of ?i "ed E"] assms(3)
      by (simp add: served_node_def run_task_def echo_handler_def incoming_task_def)
  qed
  then show ?thesis using r by (simp add: cmd_serve_def)
qed

theorem served_node_echoes_witness:
  "\<exists>n. main demo_env (\<lambda>_. Refused) 0 ''e'' (\<lambda>_. ''h'') ''d'' None [7] [] None None
         (Some (''serve'', [(''--name'', ''elo''), (''--port'', show_nat 7878)])) = Serving (Inr (n, None)) \<and>
     run_task demo_env [(''capability'', JStr ''elo-agent''), (''payload'', JInt 1)] n =
       Inr (JObj [(''echo'', JInt 1), (''from'', JStr (node_id_of toy_ed (identity_of toy_ed [7])))])"
proof -
  let ?a = "serve_defaults\<lparr>sa_name := ''elo''\<rparr>"
  let ?s = "start_app demo_env (\<lambda>_. Refused) 0 ''e'' (no_registration\<lparr>reg_agents := [''elo-agent'']\<rparr>) echo_handler
     (served_node demo_env (?a\<lparr>sa_port := 7878\<rparr>) None [7] [] None None)"
  have s: "?s = (fst ?s, None)"
    by (simp add: start_app_def setup_app_def register_with_def no_registration_def serve_defaults_def
      served_node_def init_node_def node_connect_def begin_connect_def announce_def Let_def connected_def start_def
      on_message_def peers_of_args_def tracker_of_args_def load_last_peers_def register_call_def chosen_caps_def
      name_caps_def node_register_def with_health_def health_cap_def register_def new_tracker_def
      caps_def caps_json_def set_local_caps_def dget_def set_local_interests_def py_set_def
      set_interests_def run_start_def publish_event_def broadcast_def cap_names_def item_name_def set_add_def
      set_of_def bindE_def)
  have o: "serve_options [(''--name'', ''elo'')] serve_defaults = Some ?a" by simp
  have m: "main demo_env (\<lambda>_. Refused) 0 ''e'' (\<lambda>_. ''h'') ''d'' None [7] [] None None
      (Some (''serve'', [(''--name'', ''elo'')] @ [(''--port'', show_nat 7878)])) = Serving (Inr (fst ?s, None))"
    using port_option [of "[(''--name'', ''elo'')]" 7878] s by (simp add: main_def cmd_serve_def serve_defaults_def)
  from served_node_echoes [OF o m, of "[(''capability'', JStr ''elo-agent''), (''payload'', JInt 1)]"] m
  show ?thesis by (intro exI [of _ "fst ?s"]) (simp add: dget_def current_identity_def load_identity_def)
qed

end
