(* ===== verification/Unit_Tests.thy ===== *)
theory Unit_Tests
  imports App
begin

text \<open>
  The unit tests of the repository (\<open>src/py/tests/test_unit.py\<close>, \<open>test_security.py\<close>), replayed on
  the definitions: each lemma carries the name of its test and states the test's assertions. They
  are checks of the model against the behaviour the authors wrote down. Where a test fixes a
  key, a clock or a fresh id by chance, the lemma holds for all of them. Tests of Python's own
  constructors, and those that need two random keys to differ or a signature to be unforgeable,
  are left out: nothing of the kind is assumed of the ed25519 package.
\<close>

section \<open>Types and messages\<close>

lemma test_task_from_dict:
  "t_id t = JStr ''abc-123'' \<and> t_capability t = JStr ''analyst''"
  if "t = task_from_dict [(''id'', JStr ''abc-123''), (''protocol'', JStr ''elo.v1''), (''timestamp'', JInt 1700000000),
     (''target'', JStr ''target-node''), (''caller'', JStr ''caller-node''), (''capability'', JStr ''analyst''),
     (''payload'', JObj [(''key'', JStr ''value'')]), (''ttl_s'', JInt 30)]"
  by (simp add: that task_from_dict_def dget_def)

lemma test_result_success: "r_status (result_success (JStr ''task-1'') (JObj [(''output'', JStr ''ok'')])) = ''success''"
  by (simp add: result_success_def)

lemma test_result_error:
  "r_status r = ''error'' \<and> map_option fst (r_error r) = Some (JStr ''TIMEOUT'')"
  if "r = make_error (JStr ''task-1'') (JStr ''TIMEOUT'') (JStr ''No response'')"
  by (simp add: that make_error_def)

lemma encode_frame_length:
  assumes "length (utf8_encode (dump wire_opts (JObj m))) \<le> MAX_PAYLOAD_SIZE"
  shows "map_sum id length (encode_frame m) = Inr (4 + length (utf8_encode (dump wire_opts (JObj m))))"
  using assms by (simp add: encode_frame_def Let_def pack_u32_def)

lemma test_encode_decode_frame:
  "map_sum id length (encode_frame m) = Inr (4 + length (dump wire_opts (JObj m)))"
  if "m = [(''type'', JStr ''hello''), (''node_id'', JStr ''test123'')]"
proof -
  have "length (utf8_encode (dump wire_opts (JObj m))) = length (dump wire_opts (JObj m))"
    "length (dump wire_opts (JObj m)) = 39"
    unfolding that by code_simp+
  then show ?thesis using encode_frame_length [of m] by (simp add: MAX_PAYLOAD_SIZE_def)
qed

lemma length_concat_ge: "(\<And>x. x \<in> set xs \<Longrightarrow> f x \<noteq> []) \<Longrightarrow> length xs \<le> length (concat (map f xs))"
  by (induction xs) (force simp: neq_Nil_conv)+

lemma dump_str_length: "length s \<le> length (dump_str a s)"
proof -
  have "esc_char a x \<noteq> []" for x by (simp add: esc_char_def Let_def)
  then show ?thesis using length_concat_ge [of s "esc_char a"] by (simp add: dump_str_def)
qed

lemma utf8_encode_length: "length s \<le> length (utf8_encode s)"
proof -
  have "utf8_char x \<noteq> []" for x by (simp add: utf8_char_def Let_def)
  then show ?thesis using length_concat_ge [of s utf8_char] by (simp add: utf8_encode_def)
qed

lemma long_text_too_large:
  "MAX_PAYLOAD_SIZE < length s \<Longrightarrow> encode_frame [(k, JStr s)] = Inl FrameErr"
  using dump_str_length [of s "ensure_ascii wire_opts"] utf8_encode_length [of "dump wire_opts (JObj [(k, JStr s)])"]
  by (simp add: encode_frame_def Let_def)

lemma test_encode_too_large:
  "encode_frame [(''data'', JStr (replicate (1024 * 1024 + 1) (CHR ''x'')))] = Inl FrameErr"
  by (rule long_text_too_large) (simp add: MAX_PAYLOAD_SIZE_def)

lemma test_messages:
  "map_of (hello_msg (JStr ''node123'') c is tr v) ''type'' = Some (JStr (mt HELLO))"
  "map_of (hello_msg (JStr ''node123'') c is tr v) ''node_id'' = Some (JStr ''node123'')"
  "map_of (query_msg (JStr ''analyst'') (JStr ''q1'') (JInt 3) (JStr [])) ''type'' = Some (JStr (mt QUERY))"
  "map_of (query_msg (JStr ''analyst'') (JStr ''q1'') (JInt 3) (JStr [])) ''capability'' = Some (JStr ''analyst'')"
  "map_of (task_msg (JStr ''t1'') (JStr ''target'') (JStr ''caller'') (JStr ''echo'') p [] now) ''type'' = Some (JStr (mt TASK))"
  "map_of (task_msg (JStr ''t1'') (JStr ''target'') (JStr ''caller'') (JStr ''echo'') p [] now) ''capability'' = Some (JStr ''echo'')"
  "map_of (result_msg (JStr ''t1'') ''success'' (Some p) None []) ''type'' = Some (JStr (mt RESULT))"
  "map_of (result_msg (JStr ''t1'') ''success'' (Some p) None []) ''payload'' = Some p"
  by (simp_all add: hello_msg_def query_msg_def task_msg_def result_msg_def)

section \<open>Interest table and tracker\<close>

abbreviation agents_json :: "string list \<Rightarrow> json" where
  "agents_json ns \<equiv> JObj [(''agents'', JArr (map (\<lambda>x. JObj [(''name'', JStr x)]) ns)), (''tools'', JArr []), (''models'', JArr [])]"

lemma test_empty_table: "find_peer_for (\<lambda>xs. xs) (JStr ''analyst'') empty_table = Inr None"
  by code_simp

lemma test_register_peer:
  "find_peer_for (\<lambda>xs. xs) (JStr ''analyst'')
     (fst (register_peer ''peer1:7878'' (agents_json [''analyst'']) (JArr [JStr ''writer'']) empty_table)) = Inr (Some ''peer1:7878'')"
  by code_simp

lemma test_remove_peer:
  "find_peer_for (\<lambda>xs. xs) (JStr ''analyst'') (remove_peer ''peer1:7878''
     (fst (register_peer ''peer1:7878'' (agents_json [''analyst'']) (JArr []) empty_table))) = Inr None"
  by code_simp

lemma test_local_caps: "has_local (JStr ''echo'') (fst (set_local_caps (agents_json [''echo'']) empty_table))"
  by code_simp

text \<open>The number of agents a peer sees.\<close>

definition seen_agents :: "string \<Rightarrow> local_tracker \<Rightarrow> exn + nat" where
  "seen_agents nid tr = bindE (get_caps_for_peer (JStr nid) tr)
     (\<lambda>c. bindE (py_get c ''agents'' (JArr [])) (\<lambda>xs. map_sum id length (py_iter xs)))"

lemma test_public_tracker:
  "seen_agents ''anyone'' (register [[(''name'', JStr ''echo'')]] [] [] (new_tracker ''public'')) = Inr 1"
  by code_simp

lemma test_private_tracker:
  "seen_agents ''stranger'' tr = Inr 0 \<and> seen_agents ''friend'' (allow_peer (JStr ''friend'') tr) = Inr 1"
  if "tr = register [[(''name'', JStr ''secret-agent'')]] [] [] (new_tracker ''private'')"
  unfolding that by code_simp

lemma test_has_capability:
  "has_capability (JStr ''analyst'') tr \<and> has_capability (JStr ''web-search'') tr \<and> \<not> has_capability (JStr ''writer'') tr"
  if "tr = register [[(''name'', JStr ''analyst''), (''model'', JStr ''gpt-4'')]] [] [[(''name'', JStr ''web-search'')]]
        (new_tracker ''public'')"
  unfolding that by code_simp

section \<open>Keys and signatures\<close>

lemma test_pubkey_id_roundtrip:
  assumes "ed_ok e"
  shows "length (pubkey_to_id e (ed_public e sk)) > 20 \<and>
    id_to_pubkey e (pubkey_to_id e (ed_public e sk)) = Inr (ed_public e sk)"
  using node_id_length [OF assms, of sk] id_roundtrip [OF assms] by (simp add: node_id_of_def identity_of_def)

lemma test_sign_and_verify:
  "ed_ok e \<Longrightarrow> identity_verify e (identity_of e sk) m (JStr (identity_sign e (identity_of e sk) m))"
  using verify_sign by (simp add: identity_verify_def identity_sign_def identity_of_def)

lemma test_canonical_json:
  assumes "ed_ok e"
  shows "verify_signature e (ed_public e sk) [(''b'', JInt 2), (''a'', JInt 1)]
    (JStr (sign_message e sk [(''a'', JInt 1), (''b'', JInt 2)]))"
proof -
  have "canonical_bytes (JObj [(''b'', JInt 2), (''a'', JInt 1)]) = canonical_bytes (JObj [(''a'', JInt 1), (''b'', JInt 2)])"
    by code_simp
  then show ?thesis
    using verify_sign [OF assms, of sk "[(''a'', JInt 1), (''b'', JInt 2)]"] by (simp only: verify_signature_def)
qed

lemma test_save_and_load:
  assumes "ed_ok e" "generate_and_save_identity e sk dir = ((pub, priv), dir')"
  shows "\<exists>pem i. dir' = Some (pem, 6 * 64) \<and> load_identity e dir' = Inr i \<and> node_id_of e i = pubkey_to_id e pub \<and>
    verify_signature e pub m (JStr (identity_sign e i m))"
  using assms verify_sign [OF assms(1)]
  by (auto simp: generate_and_save_identity_def save_identity_def load_identity_def ed_ok_def node_id_of_def
      identity_of_def identity_sign_def)

lemma test_load_missing_raises: "load_identity e None = Inl FileNotFoundErr"
  by (simp add: load_identity_def)

section \<open>Nodes\<close>

text \<open>\<open>Node(name, port=0)\<close> with the key \<open>sk\<close>, without a tracker or cached peers, and the node after \<open>connect\<close>.\<close>

definition test_node :: "env \<Rightarrow> privkey \<Rightarrow> string \<Rightarrow> node" where
  "test_node E sk nm = init_node (ed E) nm 0 [] ''public'' [] ''0.5.1'' (identity_of (ed E) sk) True 30 [] (wall E) None None"

definition connected_node :: "env \<Rightarrow> (string \<Rightarrow> dial_result) \<Rightarrow> nat \<Rightarrow> privkey \<Rightarrow> string \<Rightarrow> node" where
  "connected_node E net assigned sk nm = fst (node_connect E assigned net (test_node E sk nm))"

lemma test_node_fields [simp]:
  "started (test_node E sk nm) = False" "peers (test_node E sk nm) = []" "conns (test_node E sk nm) = Map.empty"
  "tcp_port (test_node E sk nm) = 0" "initial_peers (test_node E sk nm) = []" "tracker_host (test_node E sk nm) = []"
  "last_peers (test_node E sk nm) = None" "routing (test_node E sk nm) = empty_table"
  "tracker (test_node E sk nm) = new_tracker ''public''" "self_id (test_node E sk nm) = node_id_of (ed E) (identity_of (ed E) sk)"
  "pending_results (test_node E sk nm) = []" "pending_queue (test_node E sk nm) = None" "seen_queries (test_node E sk nm) = []"
  by (simp_all add: test_node_def init_node_def Let_def)

lemma test_default_values:
  "nname (init_node e nm 7878 [] ''public'' [] ''0.5.1'' i True 30 h now q lp) = nm"
  "\<not> connected (init_node e nm 7878 [] ''public'' [] ''0.5.1'' i True 30 h now q lp)"
  by (simp_all add: init_node_def connected_def Let_def)

lemma test_custom_values:
  "tcp_port n = 9000 \<and> visibility (tracker n) = ''private''"
  if "n = init_node e ''prod-node'' 9000 [''10.0.0.1:7878''] ''private'' [] ''1.0.0'' i True 15 h now q lp"
  by (simp add: that init_node_def new_tracker_def Let_def)

lemma connected_node_fields [simp]:
  "started (connected_node E net p sk nm)" "peers (connected_node E net p sk nm) = []"
  "conns (connected_node E net p sk nm) = Map.empty" "tcp_port (connected_node E net p sk nm) = p"
  "routing (connected_node E net p sk nm) = empty_table" "pending_results (connected_node E net p sk nm) = []"
  "self_id (connected_node E net p sk nm) = node_id_of (ed E) (identity_of (ed E) sk)"
  "pending_queue (connected_node E net p sk nm) = None" "seen_queries (connected_node E net p sk nm) = []"
  "tracker (connected_node E net p sk nm) = new_tracker ''public''"
  by (simp_all add: connected_node_def node_connect_def connected_def begin_connect_def start_def on_message_def
      announce_def load_last_peers_def Let_def)

lemma test_connect_starts_server:
  "0 < p \<Longrightarrow> connected (connected_node E net p sk nm) \<and> tcp_port (connected_node E net p sk nm) > 0"
  by (simp add: connected_def)

lemma test_double_connect_idempotent:
  "node_connect E p' net' (connected_node E net p sk nm) = (connected_node E net p sk nm, None)"
  by (simp add: node_connect_def connected_def)

text \<open>What registering names on a node without peers leaves in its tracker and its interest table.\<close>

lemma register_alone:
  assumes "set_local_caps (caps (register ags mds (with_health tls) (tracker n))) (routing n) = (t, None)" "peers n = []"
    and "set_local_interests (map (\<lambda>c. dget c ''name'' (JStr [])) (ags @ with_health tls)) t = Inr t'"
  shows "snd (node_register ags mds tls n) = None \<and> routing (fst (node_register ags mds tls n)) = t'"
  using assms by (simp add: node_register_def broadcast_def Let_def)

lemma test_register_agents:
  assumes "n = connected_node E net p sk nm" "r = no_registration\<lparr>reg_agents := [''analyst'', ''writer'']\<rparr>"
    and "register_with r n = (n', e)"
  shows "e = None \<and> has_capability (JStr ''analyst'') (tracker n') \<and> has_local (JStr ''analyst'') (routing n')"
proof -
  let ?ags = "name_caps [''analyst'', ''writer'']"
  let ?t = "\<lparr>local_caps = [JStr ''analyst'', JStr ''writer'', JStr ''health''], local_interests = [], peer_caps = [],
     peer_interests = [], forwarding = []\<rparr>"
  have c: "set_local_caps (caps (register ?ags [] (with_health []) (new_tracker ''public''))) empty_table = (?t, None)"
    and i: "set_local_interests (map (\<lambda>c. dget c ''name'' (JStr [])) (?ags @ with_health [])) ?t =
      Inr (?t\<lparr>local_interests := [JStr ''analyst'', JStr ''writer'', JStr ''health'']\<rparr>)"
    by code_simp+
  have "node_register ?ags [] [] n = (n', e)"
    using assms(2,3) by (simp add: register_with_def register_call_def no_registration_def chosen_caps_def name_caps_def)
  with register_alone [of ?ags "[]" "[]" n ?t] c i assms(1) have "e = None" "has_local (JStr ''analyst'') (routing n')"
    by (auto simp: has_local_def)
  moreover have "registered r (JStr ''analyst'')"
    by (simp add: assms(2) registered_def chosen_caps_def name_caps_def no_registration_def dget_def)
  then have "has_capability (JStr ''analyst'') (tracker n')" by (rule registered_found [OF assms(3)])
  ultimately show ?thesis by simp
qed

lemma test_register_tools:
  assumes "r = no_registration\<lparr>reg_models := [''gpt-4o''], reg_tools := [''web-search'']\<rparr>" "register_with r n = (n', e)"
  shows "has_capability (JStr ''web-search'') (tracker n')"
proof -
  have "registered r (JStr ''web-search'')"
    by (simp add: assms(1) registered_def chosen_caps_def name_caps_def no_registration_def dget_def)
  then show ?thesis by (rule registered_found [OF assms(2)])
qed

lemma test_send_task_not_connected:
  "send_task E created tid rtid qid req (test_node E sk nm) = (test_node E sk nm, Failed RuntimeErr)"
  by (simp add: send_task_def connected_def)

lemma test_run_not_connected: "run_start E eid (test_node E sk nm) = (test_node E sk nm, Some RuntimeErr)"
  by (simp add: run_start_def connected_def)

text \<open>A task to a node that no connected peer has the id of: the error is \<open>QUEUED\<close> and the task is in the queue.\<close>

definition offline_req :: send_req where
  "offline_req = \<lparr>sr_target = JStr ''offline-target-node-id'', sr_capability = JStr ''echo'',
     sr_payload = JObj [(''msg'', JStr ''hello'')], sr_ttl = JInt 60, sr_bypass = False\<rparr>"

lemma test_pending_queue_fallback:
  assumes "ord_addr E [] = []" "queue_io E = Io_ok" "wf_float created"
    and "send_task E created tid rtid qid offline_req (connected_node E net p sk nm) = (n', st)"
  shows "(\<exists>r. st = Finished r \<and> r_status r = ''error'' \<and> map_option fst (r_error r) = Some (JStr ''QUEUED'')) \<and>
    load_all Io_ok (pending_queue n') = [queued_task created tid offline_req]"
proof -
  let ?n = "connected_node E net p sk nm"
  have "via_tracker E rtid [] (sr_target offline_req) (sr_capability offline_req) (sr_payload offline_req) (sr_ttl offline_req) ?n =
      (?n, Inr (Some (error_result rtid ''NO_TRACKER'' ''No tracker peer found'')))"
    by (simp add: via_tracker_def find_peer_for_def fwd_def empty_table_def dget_def assms(1))
  moreover have "py_truthy (sr_target offline_req)" "\<not> sr_bypass offline_req" by (simp_all add: offline_req_def)
  moreover have "wf_pending (queued_task created tid offline_req)"
    using assms(3) by (simp add: wf_pending_iff queued_task_def offline_req_def)
  then have "load_all Io_ok (enqueue Io_ok (queued_task created tid offline_req) None) = [queued_task created tid offline_req]"
    using queue.load_append [of None "queued_task created tid offline_req"] by (simp add: load_empty queue_inv_def)
  ultimately show ?thesis using assms(2,4)
    by (auto simp: send_task_def connected_def target_peer_def peer_addresses_def finish_send_eq error_result_def make_error_def Let_def)
qed

lemma test_concurrent_results_dont_conflict:
  assumes "n0 = connected_node E net p sk nm"
    and "n1 = n0\<lparr>pending_results := [(''task-1'', None), (''task-2'', None)]\<rparr>"
    and "n2 = fst (on_result E ''peer1'' [(''id'', JStr ''task-1''), (''status'', JStr ''success''), (''payload'', JObj [(''r'', JInt 1)])] n1)"
    and "n3 = fst (on_result E ''peer1'' [(''id'', JStr ''task-2''), (''status'', JStr ''success''), (''payload'', JObj [(''r'', JInt 2)])] n2)"
  shows "pending_results n3 = [(''task-1'', Some (result_success (JStr ''task-1'') (JObj [(''r'', JInt 1)]))),
    (''task-2'', Some (result_success (JStr ''task-2'') (JObj [(''r'', JInt 2)])))]"
  unfolding assms(3,4,2,1)
  by (simp add: on_result_def check_result_signature_def result_of_msg_def lookup_key_def str_key_def dget_def)

lemma test_on_query_returns_node_id:
  assumes "register_peer ''abc123@10.0.0.1:7878'' (agents_json [''echo'']) (JArr [JStr ''echo'']) empty_table = (t, x)"
    and "n = (connected_node E net p sk nm)\<lparr>routing := t\<rparr>"
    and "m = [(''capability'', JStr ''echo''), (''id'', JStr ''q1''), (''ttl'', JInt 3)]"
  shows "\<exists>nodes v e. on_query E ''10.0.0.2:7879'' m n =
      (try_send ''10.0.0.2:7879'' (query_resp_msg (JStr ''q1'') nodes) v, None) \<and>
    e \<in> set nodes \<and> py_get e ''addr'' JNull = Inr (JStr ''abc123@10.0.0.1:7878'') \<and> py_get e ''node_id'' JNull = Inr (JStr ''abc123'')"
proof -
  let ?v = "n\<lparr>seen_queries := [(JStr ''q1'', wall E)]\<rparr>"
  let ?nodes = "query_nodes E ''10.0.0.2:7879'' (JStr ''echo'') ?v"
  let ?e = "JObj [(''addr'', JStr ''abc123@10.0.0.1:7878''), (''node_id'', JStr ''abc123''),
     (''caps'', JArr (ord_val E (fst (get_peer_caps ''abc123@10.0.0.1:7878'' t))))]"
  have "known_peers (fst (register_peer ''abc123@10.0.0.1:7878'' (agents_json [''echo'']) (JArr [JStr ''echo'']) empty_table)) =
      [''abc123@10.0.0.1:7878'']" "id_prefix ''abc123@10.0.0.1:7878'' = ''abc123''"
    by code_simp+
  then have e: "?e \<in> set ?nodes" using assms(1,2) by (simp add: query_nodes_def)
  then have "?nodes \<noteq> []" by auto
  then have "on_query E ''10.0.0.2:7879'' m n = (try_send ''10.0.0.2:7879'' (query_resp_msg (JStr ''q1'') ?nodes) ?v, None)"
    using assms(2) by (simp add: on_query_def answer_or_forward_def Let_def assms(3) dget_def purge_seen_def)
  with e show ?thesis by (intro exI [of _ ?nodes] exI [of _ ?v] exI [of _ ?e]) (simp add: dget_def)
qed

text \<open>With the signature check off, a task for \<open>health\<close> is answered with the state of the node.\<close>

lemma test_built_in_health_capability:
  assumes "n = (connected_node E net p sk nm)\<lparr>verify_peers := False\<rparr>"
    and "m = [(''id'', JStr ''test-health-task''), (''caller'', JStr ''caller-1''), (''capability'', JStr ''health''),
       (''payload'', JObj []), (''target'', JStr (self_id n)), (''signature'', JStr ''mock-sig'')]"
    and "resp = signed_result E (JStr ''test-health-task'') (health_payload E n) n"
  shows "task_body E ''caller-addr'' m n = send_to ''caller-addr'' resp n \<and>
    map_of resp ''status'' = Some (JStr ''success'') \<and>
    bindE (dict_item (JObj resp) ''payload'') (\<lambda>p. dict_item p ''node_id'') = Inr (JStr (self_id n)) \<and>
    \<not> isl (bindE (dict_item (JObj resp) ''payload'') (\<lambda>p. dict_item p ''uptime_seconds'')) \<and>
    \<not> isl (bindE (dict_item (JObj resp) ''payload'') (\<lambda>p. dict_item p ''peers_count''))"
  unfolding assms
  by (simp add: task_body_def check_task_signature_def run_task_def dget_def signed_result_def result_msg_def health_payload_def
      dict_item_def Let_def)

end
