(* ===== verification/Spec2Isabelle.thy ===== *)
theory Spec2Isabelle
  imports Mesh Retry Queue_Dir Handshake Lan_Join Discovery Examples Cli Unit_Tests
begin

text \<open>
  A verification library for Elo, a peer-to-peer mesh for agents: the Python implementation
  under \<open>src/py/elo\<close>.

  \<^bold>\<open>The program.\<close> A node (\<open>node.py\<close>) owns a connection manager (\<open>transport/tcp.py\<close>) that keeps
  one framed JSON connection per peer, an interest table (\<open>transport/routing.py\<close>) that says which
  peer offers which capability, a tracker (\<open>transport/tracker.py\<close>) with the node's own
  capabilities, an ed25519 identity (\<open>security.py\<close>) and a queue of tasks to retry
  (\<open>pending_queue.py\<close>). The manager hands every message to the node's dispatcher, which limits
  rates and calls a handler per message type; handlers read and change the table, the tracker
  and the node's tables of waiting sends and queries, and write frames
  (\<open>transport/protocol.py\<close>) to connections. Applications register capabilities, send tasks and
  look for peers; background tasks flush the queue, send heartbeats, reconnect, and listen for
  announcements on the local network (\<open>transport/discovery.py\<close>). \<open>__main__.py\<close> is the command line.

  \<^bold>\<open>Theories and sources.\<close>
  \<^item> \<open>Prelude\<close>: exceptions and their propagation (\<open>bindE\<close>), dictionaries in insertion order and
    sets as lists, the hint collections. \<open>Pystr\<close>: Python's string methods.
  \<^item> \<open>Json\<close>, \<open>Json_Codec\<close>, \<open>Json_Canon\<close>: Python's \<open>json\<close> module with the options of each call site;
    round trips, the fuel of the reader, the canonical text that is signed; the locale \<open>codec\<close>
    that every encoder and decoder interprets.
  \<^item> \<open>Protocol\<close> (\<open>protocol.py\<close>), \<open>Lan\<close> (\<open>discovery.py\<close>), \<open>Base64\<close> and \<open>Security\<close> (\<open>security.py\<close>), \<open>Routing\<close> (\<open>routing.py\<close>),
    \<open>Tracker\<close> (\<open>tracker.py\<close>), \<open>Types\<close> (\<open>types.py\<close>), \<open>Pending\<close> (\<open>pending_queue.py\<close>): one component
    each, its state, operations and lemmas. \<open>Queue_Dir\<close>: the queue file in its directory, with
    every system call of an operation and its failures.
  \<^item> \<open>Tcp\<close> (\<open>tcp.py\<close>): connections live in a store from ids to connections and the table of peers
    holds ids, because the code shares connection objects and several defects come from that.
    Its record is extensible: the node is an extension of it. The locales over message handlers
    (\<open>msg_handler\<close>, \<open>quiet_handler\<close>, \<open>inv_handler\<close>) state what the manager expects of a handler and
    prove its operations once; the node's dispatcher interprets them.
  \<^item> \<open>Node\<close> and \<open>Node_Props\<close>: the state of \<open>Node\<close>, its handlers and its dispatcher; \<open>Node_Ops\<close> and
    \<open>Node_Ops_Props\<close>: its operations and background tasks; \<open>Voices\<close>: what a node writes names the
    node and carries its signature (the locale \<open>speaker\<close>, a handler that keeps this, and its
    interpretation on the dispatcher); \<open>Node_Steps\<close>: all of it as one step relation \<open>node_step\<close>,
    with the invariants of reachable states. \<open>Streams\<close>: properties of every
    connection of a node (the locales \<open>conn_property\<close> and \<open>stable_conn_property\<close>), of which the
    frames written on a connection are one.
  \<^item> \<open>Mesh\<close>: any number of nodes joined by a network that carries bytes in pieces and breaks
    connections; each node's steps are \<open>own_step\<close>, the part of \<open>node_step\<close> that is not the network;
    what is read at one end was written in its own name by the node at the other.
  \<^item> \<open>Network\<close>, \<open>Handshake\<close>, \<open>Lan_Join\<close>, \<open>Discovery\<close>: two nodes whose connections carry each other's
    bytes: a task and its answer, a dial and its acknowledgement, an announcement on the local
    network and the dial it leads to, a discovery query and its response. \<open>Retry\<close>: a task of the
    queue file and the peer that turns up for it.
  \<^item> \<open>Relay\<close> (\<open>examples/python/tracker.py\<close>): the tracker node, whose task handler waits for a
    result of its own, and a task relayed between three nodes.
  \<^item> \<open>App\<close>: a program on a node, from the connection to the loop of \<open>run\<close>, and the locale
    \<open>application\<close> of handlers that always answer. \<open>Cli\<close> (\<open>__main__.py\<close>): the commands, the options,
    and the node that \<open>serve\<close> starts. \<open>Examples\<close> (\<open>examples/python/\<close>, \<open>run_sauron.py\<close>): the other
    programs; every handler interprets \<open>application\<close>.
  \<^item> \<open>Unit_Tests\<close> (\<open>src/py/tests/\<close>): the repository's unit tests, replayed on the definitions.

  \<^bold>\<open>How code becomes definitions.\<close> A function that changes state takes the state and returns it.
  An exception is a value: \<open>exn + 'a\<close>, or \<open>exn option\<close> beside the state, which keeps what was
  changed before the exception. Values off the wire have type \<open>json\<close> and stay unchecked until the
  code uses them, so a wrong type is the exception Python raises. A protocol handler awaits
  nothing but writes, and runs to its end before the next one starts. A coroutine that waits,
  the tracker's task handler included, is split at its waits (\<open>send_task\<close> and
  \<open>resume_send\<close>, \<open>discover_start\<close> and \<open>discover_resume\<close>, \<open>reconnect_start\<close> and \<open>reconnect_wake\<close>,
  \<open>run_start\<close> and \<open>run_round\<close>, \<open>tracker_message\<close> and \<open>tracker_resume\<close>, \<open>wan_main\<close> and \<open>wan_end\<close>), and
  any step may come between its parts. The other applications' handlers await nothing, and are
  functions from a task to its payload or an exception. \<open>connect_to_peer\<close> is a dial whose
  acknowledgement is at hand; \<open>node_step\<close> has its two halves as separate steps. Clocks,
  iteration orders of sets, file failures and the texts of exceptions are fields of the record
  \<open>env\<close>; the outcome of a dial is an argument.

  \<^bold>\<open>What the lemmas show.\<close> Round trips: JSON, frames, base64, task dictionaries, the queue file,
  saved identities. Refinement: the interest table follows the relation of who provides
  what (exactly, as long as no registration drops a capability), and the queue on disk a list
  of tasks whatever call of a save fails. Equivalence: messages have the same signed bytes
  exactly when they are equal up to the order of keys. Safety: with verification on, a signed
  task whose caller id decodes to a key runs only if the signature verifies under it, a node's tasks name it, are
  signed and are accepted everywhere, each task is answered once, a query is taken up once,
  results are never overwritten, rates are limited. Invariants of all reachable states: keys
  cached under their own id, a well-formed table of peers and of interests, whole frames on
  every connection; an incoming HELLO keeps one connection per id (ids without \<open>@\<close>); in a
  mesh, messages arrive in the order they were sent. Errors: failed sends are queued, broken
  lines are skipped. Liveness: reconnection goes on with bounded pauses, responses resume the
  sends that wait, a queued task is delivered once a peer is there. Composition: handshake, announcement, task and discovery between two
  nodes, a relayed task between three, the nodes that the command line and the examples run,
  the report of the discovery test. Some theorems pin down
  defects: results pass unverified, an ended read loop removes the entry of a successor with the
  same address, unsigned tasks run and so do tasks whose caller id is no key, a capability a
  peer drops keeps its route, a tracker relays back to the caller and never matches a whole id.

  \<^bold>\<open>Fuel.\<close> Only the JSON reader uses fuel; \<open>loads\<close> gives it \<open>Suc (2 * length s)\<close>. Each nested
  call consumes a character or moves from a value to its elements without consuming one, at
  most once per character, so this is enough on every input (\<open>json_reader_total\<close>).

  \<^bold>\<open>Bounds of the model.\<close> Characters are code points up to U+00FF: a decoder stops at a larger one.
  Floats are finite decimals, infinities and NaN. JSON numbers of different types are different
  keys (\<open>1\<close>, \<open>1.0\<close> and \<open>True\<close> are one key in Python). The reader has no limit on nesting or on
  digits, at which Python's raises. The ed25519 package is a record of functions, with
  its documented behaviour as the predicate \<open>ed_ok\<close>; a toy instance witnesses it. \<open>node_step\<close>
  allows more than the program: it resumes, retries and ticks at any time. A send that resumes
  waits for the answer to a query with a task the node signed (\<open>own_wait\<close>, which \<open>send_task_wait\<close>
  shows of every wait the code makes), and a HELLO is one the node built (\<open>own_hello\<close>). To the
  node an operation on its queue file succeeds or leaves the text alone; \<open>Queue_Dir\<close> shows this of
  every failure but an append that breaks off within its line and a read that breaks off. The
  steps of the tracker example (\<open>Relay\<close>) are not part of \<open>node_step\<close>.

  \<^bold>\<open>Not modelled.\<close> Sockets, timers, the set-up of multicast, the directories of the identity and of the
  list of last peers (operating system calls without logic of the program); how \<open>argparse\<close> splits a command line,
  logging and the printing of running nodes; the re-exports of the packages; the
  tests of Python constructors and of random keys; the Go implementation, a second program.
\<close>

end
